theory Spec2Isabelle
  imports Main "HOL-Library.Multiset" "HOL-Library.Product_Lexorder"
begin

section \<open>Numbers and timestamps (src/utils.js)\<close>

text \<open>
  JavaScript numbers that hold ids, levels, prices and timestamps are modelled as
  unbounded integers; \<open>toNum\<close> (a Long converted to a number, or \<open>val || 0\<close>) is the
  identity on them, with an absent field read as \<open>0\<close>.
\<close>

definition toNum :: "int \<Rightarrow> int" where
  "toNum val = val"

text \<open>
  \<open>toTimeSec\<close>: a value that is not positive is \<open>0\<close>; a value above \<open>1e12\<close> is taken
  as milliseconds and divided by 1000, rounding down.
\<close>

definition toTimeSec :: "int \<Rightarrow> int" where
  "toTimeSec val =
     (let n = toNum val in
      if n \<le> 0 then 0
      else if n > 1000000000000 then n div 1000
      else n)"

text \<open>
  The module state of the clock estimator: \<open>serverTimeMs\<close> and \<open>localTimeAtSync\<close>,
  both \<open>0\<close> at start.
\<close>

record clock =
  serverTimeMs :: int
  localTimeAtSync :: int

text \<open>
  \<open>getServerTimeSec\<close> reads the clock state and \<open>Date.now()\<close>; the reading of
  \<open>Date.now()\<close> is the second argument.
\<close>

definition getServerTimeSec :: "clock \<Rightarrow> int \<Rightarrow> int" where
  "getServerTimeSec c dateNow =
     (if serverTimeMs c = 0 then dateNow div 1000
      else (let elapsed = dateNow - localTimeAtSync c
            in (serverTimeMs c + elapsed) div 1000))"

definition syncServerTime :: "int \<Rightarrow> int \<Rightarrow> clock" where
  "syncServerTime ms dateNow = \<lparr>serverTimeMs = ms, localTimeAtSync = dateNow\<rparr>"

section \<open>Plots, occupants and phases\<close>

record plant_phase =
  phase :: int
  begin_time :: int
  dry_time :: int
  weeds_time :: int
  insect_time :: int

text \<open>
  A plant: \<open>phases\<close> may be absent (\<open>None\<close>); absent owner lists behave as empty
  ones in every test of the source, so they are plain lists.
\<close>

record plant_info =
  plant_id :: int
  plant_name :: string
  phases :: "plant_phase list option"
  dry_num :: int
  weed_owners :: "int list"
  insect_owners :: "int list"

record land =
  land_id :: int
  unlocked :: bool
  could_unlock :: bool
  could_upgrade :: bool
  land_level :: int
  plant :: "plant_info option"

section \<open>Phase resolver: \<open>getCurrentPhase\<close>\<close>

text \<open>
  The loop \<open>for (i = phases.length - 1; i >= 0; i--)\<close>: \<open>scan_phases nowSec ps n\<close>
  inspects the indices \<open>n - 1\<close> down to \<open>0\<close> and returns the first hit.
\<close>

fun scan_phases :: "int \<Rightarrow> plant_phase list \<Rightarrow> nat \<Rightarrow> plant_phase option" where
  "scan_phases nowSec ps 0 = None"
| "scan_phases nowSec ps (Suc i) =
     (let beginTime = toTimeSec (begin_time (ps ! i)) in
      if beginTime > 0 \<and> beginTime \<le> nowSec then Some (ps ! i)
      else scan_phases nowSec ps i)"

text \<open>
  \<open>getCurrentPhase(phases, debug, landLabel)\<close>. The time is not an argument: it is
  read from the clock estimator. \<open>debug\<close> and \<open>landLabel\<close> only drive console output.
  \<open>None\<close> is the source's \<open>null\<close>.
\<close>

definition getCurrentPhase ::
  "clock \<Rightarrow> int \<Rightarrow> plant_phase list option \<Rightarrow> bool \<Rightarrow> string \<Rightarrow> plant_phase option" where
  "getCurrentPhase c dateNow phs debug landLabel =
     (case phs of
        None \<Rightarrow> None
      | Some ps \<Rightarrow>
          if length ps = 0 then None
          else (let nowSec = getServerTimeSec c dateNow in
                case scan_phases nowSec ps (length ps) of
                  Some p \<Rightarrow> Some p
                | None \<Rightarrow> Some (ps ! 0)))"

text \<open>
  The contract of the phase resolver in the words of the specification: null for an
  empty or absent list; otherwise the last phase whose normalized start lies in
  \<open>(0, nowSeconds]\<close>; the first phase when there is none.
\<close>

definition started :: "int \<Rightarrow> plant_phase \<Rightarrow> bool" where
  "started nowSeconds p \<longleftrightarrow>
     0 < toTimeSec (begin_time p) \<and> toTimeSec (begin_time p) \<le> nowSeconds"

definition resolveCurrentPhase_spec :: "plant_phase list option \<Rightarrow> int \<Rightarrow> plant_phase option" where
  "resolveCurrentPhase_spec phs nowSeconds =
     (case phs of
        None \<Rightarrow> None
      | Some ps \<Rightarrow>
          if ps = [] then None
          else if filter (started nowSeconds) ps = [] then Some (hd ps)
          else Some (last (filter (started nowSeconds) ps)))"

section \<open>Retry cooldown tracker\<close>

definition EXPAND_RETRY_INTERVAL_MS :: int where
  "EXPAND_RETRY_INTERVAL_MS = 10 * 60 * 1000"

text \<open>
  The filter predicate of \<open>checkFarm\<close>, the same for both cooldown maps:
  \<open>t = map.get(id); !t || now - t >= EXPAND_RETRY_INTERVAL_MS\<close>. \<open>!t\<close> holds for
  a missing entry and for the number \<open>0\<close>.
\<close>

definition retry_allowed :: "(int \<rightharpoonup> int) \<Rightarrow> int \<Rightarrow> int \<Rightarrow> bool" where
  "retry_allowed cooldown now i =
     (case cooldown i of
        None \<Rightarrow> True
      | Some t \<Rightarrow> t = 0 \<or> now - t \<ge> EXPAND_RETRY_INTERVAL_MS)"

section \<open>Plot classifier: \<open>analyzeLands\<close>\<close>

text \<open>
  The configuration object and the \<open>PlantPhase\<close> enumeration live in
  \<open>src/config.js\<close>, which is not part of the sources at hand: the flags and the two
  phase constants the classifier compares with are parameters.
  \<open>preferredSeedId = 0\<close> is the falsy, unset value.
\<close>

record config =
  autoExpandLand :: bool
  autoUpgradeRedLand :: bool
  preferredSeedId :: int
  forceLowestLevelCrop :: bool
  PlantPhase_DEAD :: int
  PlantPhase_MATURE :: int

text \<open>
  The result object of \<open>analyzeLands\<close>. \<open>harvestableInfo\<close> keeps the land id and the
  plant id; the name and the experience value come from the game tables and are used
  for logging only.
\<close>

record analysis =
  harvestable :: "int list"
  needWater :: "int list"
  needWeed :: "int list"
  needBug :: "int list"
  growing :: "int list"
  empty_lands :: "int list"
  dead :: "int list"
  harvestableInfo :: "(int \<times> int) list"
  eligibleForUnlock :: "int list"
  eligibleForUpgrade :: "int list"

definition empty_analysis :: analysis where
  "empty_analysis =
     \<lparr>harvestable = [], needWater = [], needWeed = [], needBug = [], growing = [],
      empty_lands = [], dead = [], harvestableInfo = [],
      eligibleForUnlock = [], eligibleForUpgrade = []\<rparr>"

text \<open>The part of the loop body that runs for a plant in a growing phase.\<close>

definition growing_needs ::
  "int \<Rightarrow> int \<Rightarrow> plant_info \<Rightarrow> plant_phase \<Rightarrow> analysis \<Rightarrow> analysis" where
  "growing_needs nowSec i p currentPhase r =
     (let dryNum = toNum (dry_num p);
          dryTime = toTimeSec (dry_time currentPhase);
          r1 = (if dryNum > 0 \<or> (dryTime > 0 \<and> dryTime \<le> nowSec)
                then r\<lparr>needWater := needWater r @ [i]\<rparr> else r);
          weedsTime = toTimeSec (weeds_time currentPhase);
          hasWeeds = (length (weed_owners p) > 0 \<or> (weedsTime > 0 \<and> weedsTime \<le> nowSec));
          r2 = (if hasWeeds then r1\<lparr>needWeed := needWeed r1 @ [i]\<rparr> else r1);
          insectTime = toTimeSec (insect_time currentPhase);
          hasBugs = (length (insect_owners p) > 0 \<or> (insectTime > 0 \<and> insectTime \<le> nowSec));
          r3 = (if hasBugs then r2\<lparr>needBug := needBug r2 @ [i]\<rparr> else r2)
      in r3\<lparr>growing := growing r3 @ [i]\<rparr>)"

text \<open>
  The part of the loop body that runs for an unlocked plot with a non-empty phase list:
  the current phase is resolved with a fresh reading of the clock (\<open>dateNow\<close>).
\<close>

definition classify_planted ::
  "config \<Rightarrow> clock \<Rightarrow> int \<Rightarrow> int \<Rightarrow> int \<Rightarrow> plant_info \<Rightarrow> analysis \<Rightarrow> analysis" where
  "classify_planted cfg c nowSec dateNow i p r =
     (case getCurrentPhase c dateNow (phases p) False (plant_name p) of
        None \<Rightarrow> r\<lparr>empty_lands := empty_lands r @ [i]\<rparr>
      | Some currentPhase \<Rightarrow>
          (let phaseVal = phase currentPhase in
           if phaseVal = PlantPhase_DEAD cfg then r\<lparr>dead := dead r @ [i]\<rparr>
           else if phaseVal = PlantPhase_MATURE cfg
           then r\<lparr>harvestable := harvestable r @ [i],
                   harvestableInfo := harvestableInfo r @ [(i, toNum (plant_id p))]\<rparr>
           else growing_needs nowSec i p currentPhase r))"

text \<open>One iteration of \<open>for (const land of lands)\<close>.\<close>

definition analyze_land ::
  "config \<Rightarrow> clock \<Rightarrow> int \<Rightarrow> int \<Rightarrow> land \<Rightarrow> analysis \<Rightarrow> analysis" where
  "analyze_land cfg c nowSec dateNow l r =
     (let i = toNum (land_id l);
          r1 = (if could_unlock l \<and> \<not> unlocked l
                then r\<lparr>eligibleForUnlock := eligibleForUnlock r @ [i]\<rparr> else r)
      in if \<not> unlocked l then r1
         else
           (let r2 = (if could_upgrade l \<and> unlocked l
                      then r1\<lparr>eligibleForUpgrade := eligibleForUpgrade r1 @ [i]\<rparr> else r1)
            in case plant l of
                 None \<Rightarrow> r2\<lparr>empty_lands := empty_lands r2 @ [i]\<rparr>
               | Some p \<Rightarrow>
                   (case phases p of
                      None \<Rightarrow> r2\<lparr>empty_lands := empty_lands r2 @ [i]\<rparr>
                    | Some ps \<Rightarrow>
                        if length ps = 0 then r2\<lparr>empty_lands := empty_lands r2 @ [i]\<rparr>
                        else classify_planted cfg c nowSec dateNow i p r2)))"

text \<open>
  The loop over the snapshot. \<open>dateAt k\<close> is the reading of \<open>Date.now()\<close> that
  \<open>getCurrentPhase\<close> takes for the plot at position \<open>k\<close>; \<open>nowSec\<close> was read once
  before the loop.
\<close>

fun analyzeLands_loop ::
  "config \<Rightarrow> clock \<Rightarrow> int \<Rightarrow> (nat \<Rightarrow> int) \<Rightarrow> nat \<Rightarrow> land list \<Rightarrow> analysis \<Rightarrow> analysis" where
  "analyzeLands_loop cfg c nowSec dateAt k [] r = r"
| "analyzeLands_loop cfg c nowSec dateAt k (l # ls) r =
     analyzeLands_loop cfg c nowSec dateAt (Suc k) ls (analyze_land cfg c nowSec (dateAt k) l r)"

definition analyzeLands ::
  "config \<Rightarrow> clock \<Rightarrow> int \<Rightarrow> (nat \<Rightarrow> int) \<Rightarrow> land list \<Rightarrow> analysis" where
  "analyzeLands cfg c dateNow dateAt lands =
     analyzeLands_loop cfg c (getServerTimeSec c dateNow) dateAt 0 lands empty_analysis"

text \<open>
  Two measures used to state the classifier's invariants: the primary buckets as one
  multiset of ids, and the need lists lying inside the growing list.
\<close>

definition primary :: "analysis \<Rightarrow> int multiset" where
  "primary r = mset (dead r) + mset (harvestable r) + mset (empty_lands r) + mset (growing r)"

definition needs_in_growing :: "analysis \<Rightarrow> bool" where
  "needs_in_growing r \<longleftrightarrow>
     set (needWater r) \<subseteq> set (growing r) \<and> set (needWeed r) \<subseteq> set (growing r)
     \<and> set (needBug r) \<subseteq> set (growing r)"

text \<open>
  A snapshot used to run the model: plot 1 holds a dead plant, plot 2 a mature one,
  plot 3 is empty, plot 4 holds a growing plant whose dry timer has passed, plot 5 is
  locked. The phase constants are the parameters \<open>DEAD = 7\<close> and \<open>MATURE = 6\<close> of
  \<open>example_config\<close>.
\<close>

definition example_config :: config where
  "example_config =
     \<lparr>autoExpandLand = False, autoUpgradeRedLand = False, preferredSeedId = 0,
      forceLowestLevelCrop = False, PlantPhase_DEAD = 7, PlantPhase_MATURE = 6\<rparr>"

definition example_plant :: "int \<Rightarrow> int \<Rightarrow> int \<Rightarrow> plant_info" where
  "example_plant pid ph dry =
     \<lparr>plant_id = pid, plant_name = ''Carrot'',
      phases = Some [\<lparr>phase = ph, begin_time = 100, dry_time = dry, weeds_time = 0, insect_time = 0\<rparr>],
      dry_num = 0, weed_owners = [], insect_owners = []\<rparr>"

definition example_land :: "int \<Rightarrow> bool \<Rightarrow> plant_info option \<Rightarrow> land" where
  "example_land i u p =
     \<lparr>land_id = i, unlocked = u, could_unlock = False, could_upgrade = False,
      land_level = 1, plant = p\<rparr>"

definition example_lands :: "land list" where
  "example_lands =
     [example_land 1 True (Some (example_plant 1020002 7 0)),
      example_land 2 True (Some (example_plant 1020002 6 0)),
      example_land 3 True None,
      example_land 4 True (Some (example_plant 1020002 3 150)),
      example_land 5 False None]"

definition example_clock :: clock where
  "example_clock = \<lparr>serverTimeMs = 0, localTimeAtSync = 0\<rparr>"

section \<open>Remote calls and their outcomes\<close>

text \<open>
  Every request the farm module sends through \<open>sendMsgAsync\<close>, with the arguments
  that matter: the id lists of the batched calls, the single id of the per-plot calls,
  \<open>BuyGoods goodsId num price\<close>, \<open>Plant seedId landId\<close>, \<open>Fertilize landId fertilizerId\<close>.
\<close>

datatype call =
    AllLands
  | WeedOut "int list"
  | Insecticide "int list"
  | WaterLand "int list"
  | Harvest "int list"
  | UnlockLand int
  | UpgradeLand int
  | RemovePlant "int list"
  | ShopInfo int
  | BuyGoods int int int
  | Plant int int
  | Fertilize int int

text \<open>
  The trace of a cycle: a request is issued, and later its promise settles, fulfilled
  (\<open>True\<close>) or rejected (\<open>False\<close>; a reply that fails to decode counts as rejected, the
  decoding sits in the same \<open>try\<close>).
\<close>

datatype event = Issue call | Settle call bool

record goods_cond =
  cond_type :: int
  cond_param :: int

record goods =
  goods_id :: int
  item_id :: int
  goods_price :: int
  goods_unlocked :: bool
  conds :: "goods_cond list"
  limit_count :: int
  bought_num :: int

text \<open>
  Everything a cycle takes from outside. \<open>reply_ok c k\<close> tells whether the request
  \<open>c\<close>, sent in iteration \<open>k\<close> of its loop (\<open>0\<close> for a request sent once), is fulfilled;
  within one cycle no two requests share that key, so every combination of outcomes is
  some \<open>reply_ok\<close>. \<open>settle_seed\<close> fixes the order in which concurrent requests settle.
  \<open>recommendation level landsCount\<close> is the list of seed ids ranked by
  \<open>getPlantingRecommendation\<close> (\<open>tools/calc-exp-yield\<close>, not among the sources), \<open>None\<close>
  when it throws. The \<open>date_\<close> fields are the readings of \<open>Date.now()\<close>.
\<close>

record env =
  reply_ok :: "call \<Rightarrow> nat \<Rightarrow> bool"
  settle_seed :: nat
  lands_reply :: "land list option"
  goods_list :: "goods list option"
  get_items :: "(int \<times> int) list"
  cost_items :: "(int \<times> int) list"
  recommendation :: "int \<Rightarrow> int \<Rightarrow> int list option"
  env_clock :: clock
  date_analyze :: int
  date_phase :: "nat \<Rightarrow> int"
  date_unlock_now :: int
  date_unlock_failed :: int
  date_upgrade_now :: int
  date_upgrade_failed :: int

text \<open>
  The session state returned by \<open>getUserState()\<close> (\<open>src/network.js\<close>, not among the
  sources): \<open>gid = 0\<close> is the falsy value of a session that is not logged in.
\<close>

record user_state =
  gid :: int
  user_level :: int
  gold :: int

record land_stats =
  total :: nat
  red :: nat
  black :: nat
  gold_lands :: nat
  upgradeCount :: nat
  unlockCount :: nat

text \<open>The module state of the farm module, with the session state it mutates.\<close>

record farm_state =
  isCheckingFarm :: bool
  lastLandStats :: "land_stats option"
  upgradeRetryCooldown :: "int \<rightharpoonup> int"
  unlockRetryCooldown :: "int \<rightharpoonup> int"
  lastPushTime :: int
  user :: user_state

definition getLandTypeCounts :: "land list \<Rightarrow> land_stats" where
  "getLandTypeCounts lands =
     \<lparr>total = length lands,
      red = length (filter (\<lambda>l. unlocked l \<and> toNum (land_level l) = 2) lands),
      black = length (filter (\<lambda>l. unlocked l \<and> toNum (land_level l) = 3) lands),
      gold_lands = length (filter (\<lambda>l. unlocked l \<and> toNum (land_level l) = 4) lands),
      upgradeCount = length (filter (\<lambda>l. unlocked l \<and> could_upgrade l) lands),
      unlockCount = length (filter (\<lambda>l. could_unlock l \<and> \<not> unlocked l) lands)\<rparr>"

section \<open>Per-plot request loops\<close>

definition NORMAL_FERTILIZER_ID :: int where
  "NORMAL_FERTILIZER_ID = 1011"

text \<open>
  \<open>fertilize\<close>: one request per plot; the first rejected request ends the loop
  (\<open>break\<close>). The result is \<open>successCount\<close>.
\<close>

fun fertilize :: "env \<Rightarrow> nat \<Rightarrow> int list \<Rightarrow> int \<Rightarrow> nat \<times> event list" where
  "fertilize e k [] fertilizerId = (0, [])"
| "fertilize e k (landId # rest) fertilizerId =
     (let c = Fertilize landId fertilizerId in
      if reply_ok e c k
      then (let (n, tr) = fertilize e (Suc k) rest fertilizerId
            in (Suc n, Issue c # Settle c True # tr))
      else (0, [Issue c, Settle c False]))"

record expand_result =
  successCount :: nat
  successIds :: "int list"
  failedIds :: "int list"

text \<open>\<open>unlockLand\<close> and \<open>upgradeLand\<close>: one request per plot, every plot is tried.\<close>

fun unlockLand :: "env \<Rightarrow> nat \<Rightarrow> int list \<Rightarrow> expand_result \<times> event list" where
  "unlockLand e k [] = (\<lparr>successCount = 0, successIds = [], failedIds = []\<rparr>, [])"
| "unlockLand e k (landId # rest) =
     (let c = UnlockLand landId;
          (r, tr) = unlockLand e (Suc k) rest
      in if reply_ok e c k
         then (r\<lparr>successCount := Suc (successCount r), successIds := landId # successIds r\<rparr>,
               Issue c # Settle c True # tr)
         else (r\<lparr>failedIds := landId # failedIds r\<rparr>, Issue c # Settle c False # tr))"

fun upgradeLand :: "env \<Rightarrow> nat \<Rightarrow> int list \<Rightarrow> expand_result \<times> event list" where
  "upgradeLand e k [] = (\<lparr>successCount = 0, successIds = [], failedIds = []\<rparr>, [])"
| "upgradeLand e k (landId # rest) =
     (let c = UpgradeLand landId;
          (r, tr) = upgradeLand e (Suc k) rest
      in if reply_ok e c k
         then (r\<lparr>successCount := Suc (successCount r), successIds := landId # successIds r\<rparr>,
               Issue c # Settle c True # tr)
         else (r\<lparr>failedIds := landId # failedIds r\<rparr>, Issue c # Settle c False # tr))"

text \<open>
  \<open>plantSeeds\<close>: one request per plot; a rejected request is logged and the loop goes
  on. The result is \<open>successCount\<close> only.
\<close>

fun plantSeeds :: "env \<Rightarrow> nat \<Rightarrow> int \<Rightarrow> int list \<Rightarrow> nat \<times> event list" where
  "plantSeeds e k seed [] = (0, [])"
| "plantSeeds e k seed (landId # rest) =
     (let c = Plant seed landId;
          (n, tr) = plantSeeds e (Suc k) seed rest
      in if reply_ok e c k
         then (Suc n, Issue c # Settle c True # tr)
         else (n, Issue c # Settle c False # tr))"

section \<open>Best-resource selector: \<open>findBestSeed\<close>\<close>

record seed_choice =
  goods_of :: goods
  goodsId :: int
  seedId :: int
  price :: int
  requiredLevel :: int

text \<open>
  The loop over \<open>goods.conds\<close>: the result is \<open>(meetsConditions, requiredLevel)\<close>; the
  loop breaks at the first level condition the player does not meet.
\<close>

fun check_conds :: "int \<Rightarrow> goods_cond list \<Rightarrow> int \<Rightarrow> bool \<times> int" where
  "check_conds lvl [] req = (True, req)"
| "check_conds lvl (cond # rest) req =
     (if toNum (cond_type cond) = 1
      then (let req' = toNum (cond_param cond) in
            if lvl < req' then (False, req') else check_conds lvl rest req')
      else check_conds lvl rest req)"

text \<open>The loop that builds \<open>available\<close> from the catalog.\<close>

fun available_seeds :: "int \<Rightarrow> goods list \<Rightarrow> seed_choice list" where
  "available_seeds lvl [] = []"
| "available_seeds lvl (g # gs) =
     (if \<not> goods_unlocked g then available_seeds lvl gs
      else (let (meetsConditions, req) = check_conds lvl (conds g) 0 in
            if \<not> meetsConditions then available_seeds lvl gs
            else (let limitCount = toNum (limit_count g);
                      boughtNum = toNum (bought_num g)
                  in if limitCount > 0 \<and> boughtNum \<ge> limitCount then available_seeds lvl gs
                     else \<lparr>goods_of = g, goodsId = toNum (goods_id g), seedId = toNum (item_id g),
                           price = toNum (goods_price g), requiredLevel = req\<rparr>
                          # available_seeds lvl gs)))"

text \<open>The loop over the ranked seed ids: the first id that some entry carries wins.\<close>

fun first_hit :: "int list \<Rightarrow> seed_choice list \<Rightarrow> seed_choice option" where
  "first_hit [] available = None"
| "first_hit (s # rest) available =
     (case find (\<lambda>x. seedId x = s) available of
        Some hit \<Rightarrow> Some hit
      | None \<Rightarrow> first_hit rest available)"

text \<open>
  The choice among the filtered entries, from \<open>if (available.length === 0)\<close> to the end
  of \<open>findBestSeed\<close>. \<open>Array.prototype.sort\<close> is stable, as \<open>sort_key\<close> is; the
  comparator \<open>a.requiredLevel - b.requiredLevel || a.price - b.price\<close> orders by the
  pair, \<open>b.requiredLevel - a.requiredLevel\<close> by the negated level. \<open>ranked\<close> is the
  outcome of the recommendation, \<open>None\<close> when it threw.
\<close>

definition select_seed ::
  "config \<Rightarrow> user_state \<Rightarrow> int list option \<Rightarrow> seed_choice list \<Rightarrow> seed_choice option" where
  "select_seed cfg st ranked available =
     (if length available = 0 then None
      else
        case (if preferredSeedId cfg \<noteq> 0
              then find (\<lambda>x. seedId x = preferredSeedId cfg) available else None) of
          Some preferred \<Rightarrow> Some preferred
        | None \<Rightarrow>
            if forceLowestLevelCrop cfg
            then Some (hd (sort_key (\<lambda>x. (requiredLevel x, price x)) available))
            else
              (case (case ranked of None \<Rightarrow> None | Some ids \<Rightarrow> first_hit ids available) of
                 Some hit \<Rightarrow> Some hit
               | None \<Rightarrow>
                   if user_level st \<noteq> 0 \<and> user_level st \<le> 28
                   then Some (hd (sort_key requiredLevel available))
                   else Some (hd (sort_key (\<lambda>x. - requiredLevel x) available))))"

datatype 'a attempt = Thrown | Returned 'a

definition SEED_SHOP_ID :: int where
  "SEED_SHOP_ID = 2"

text \<open>
  \<open>findBestSeed(landsCount)\<close>: \<open>Thrown\<close> when the catalog request is rejected,
  \<open>Returned None\<close> for the source's \<open>null\<close>.
\<close>

definition findBestSeed ::
  "config \<Rightarrow> env \<Rightarrow> user_state \<Rightarrow> int option \<Rightarrow> seed_choice option attempt \<times> event list" where
  "findBestSeed cfg e st landsCount =
     (let c = ShopInfo SEED_SHOP_ID in
      if \<not> reply_ok e c 0 then (Thrown, [Issue c, Settle c False])
      else
        (case goods_list e of
           None \<Rightarrow> (Returned None, [Issue c, Settle c True])
         | Some gl \<Rightarrow>
             if length gl = 0 then (Returned None, [Issue c, Settle c True])
             else
               (let available = available_seeds (user_level st) gl;
                    ranked = recommendation e (user_level st)
                               (case landsCount of None \<Rightarrow> 18 | Some n \<Rightarrow> n)
                in (Returned (select_seed cfg st ranked available), [Issue c, Settle c True]))))"

section \<open>Replant pipeline: \<open>autoPlantEmptyLands\<close>\<close>

text \<open>
  Steps 3 to 5 of \<open>autoPlantEmptyLands\<close>: purchase, planting, fertilizing. A rejected
  purchase returns at once. The plots handed to \<open>fertilize\<close> are
  \<open>landsToPlant.slice(0, planted)\<close>, where \<open>planted\<close> is the count \<open>plantSeeds\<close> returned.
\<close>

definition buy_plant_fertilize ::
  "env \<Rightarrow> user_state \<Rightarrow> seed_choice \<Rightarrow> int list \<Rightarrow> user_state \<times> event list" where
  "buy_plant_fertilize e st bestSeed landsToPlant =
     (let c = BuyGoods (goodsId bestSeed) (int (length landsToPlant)) (price bestSeed) in
      if \<not> reply_ok e c 0 then (st, [Issue c, Settle c False])
      else
        (let actualSeedId =
               (case get_items e of
                  [] \<Rightarrow> seedId bestSeed
                | gotItem # _ \<Rightarrow>
                    (let gotId = toNum (fst gotItem) in
                     if gotId > 0 then gotId else seedId bestSeed));
             st' = st\<lparr>gold := gold st - sum_list (map (\<lambda>item. toNum (snd item)) (cost_items e))\<rparr>;
             (planted, t_plant) = plantSeeds e 0 actualSeedId landsToPlant;
             plantedLands = (if planted > 0 then take planted landsToPlant else []);
             (fertilized, t_fert) =
               (if length plantedLands > 0 then fertilize e 0 plantedLands NORMAL_FERTILIZER_ID
                else (0, []))
         in (st', [Issue c, Settle c True] @ t_plant @ t_fert)))"

text \<open>
  \<open>autoPlantEmptyLands(deadLandIds, emptyLandIds, unlockedLandCount)\<close>. The removal
  request is sent when \<open>deadLandIds\<close> is not empty, and the dead plots join
  \<open>landsToPlant\<close> whether it is fulfilled or not. With a price of \<open>0\<close> the quotient
  \<open>state.gold / bestSeed.price\<close> is \<open>-Infinity\<close> (the gold is negative there), so the
  function returns.
\<close>

definition autoPlantEmptyLands ::
  "config \<Rightarrow> env \<Rightarrow> user_state \<Rightarrow> int list \<Rightarrow> int list \<Rightarrow> int \<Rightarrow> user_state \<times> event list" where
  "autoPlantEmptyLands cfg e st deadLandIds emptyLandIds unlockedLandCount =
     (let t_remove =
            (if length deadLandIds > 0
             then [Issue (RemovePlant deadLandIds),
                   Settle (RemovePlant deadLandIds) (reply_ok e (RemovePlant deadLandIds) 0)]
             else []);
          landsToPlant = emptyLandIds @ deadLandIds
      in if length landsToPlant = 0 then (st, t_remove)
         else
           (case findBestSeed cfg e st (Some unlockedLandCount) of
              (Thrown, t_shop) \<Rightarrow> (st, t_remove @ t_shop)
            | (Returned None, t_shop) \<Rightarrow> (st, t_remove @ t_shop)
            | (Returned (Some bestSeed), t_shop) \<Rightarrow>
                (let needCount = int (length landsToPlant);
                     totalCost = price bestSeed * needCount
                 in if totalCost > gold st
                    then (if price bestSeed = 0 then (st, t_remove @ t_shop)
                          else (let canBuy = gold st div price bestSeed in
                                if canBuy \<le> 0 then (st, t_remove @ t_shop)
                                else (let (st', t) = buy_plant_fertilize e st bestSeed
                                                       (take (nat canBuy) landsToPlant)
                                      in (st', t_remove @ t_shop @ t))))
                    else (let (st', t) = buy_plant_fertilize e st bestSeed landsToPlant
                          in (st', t_remove @ t_shop @ t)))))"

section \<open>The cycle: \<open>checkFarm\<close>\<close>

text \<open>
  The three maintenance requests are created one after the other without an \<open>await\<close>
  between them and awaited together by \<open>Promise.all\<close>: all are issued before any
  settles, and they settle in an order the module does not control.
  \<open>settle_order n xs\<close> is a rearrangement of \<open>xs\<close> fixed by \<open>n\<close>.
\<close>

fun settle_order :: "nat \<Rightarrow> 'a list \<Rightarrow> 'a list" where
  "settle_order n [] = []"
| "settle_order n (x # xs) =
     (let ys = settle_order (n div Suc (length xs)) xs;
          k = n mod Suc (length xs)
      in take k ys @ x # drop k ys)"

definition batch_calls :: "analysis \<Rightarrow> call list" where
  "batch_calls status =
     (if length (needWeed status) > 0 then [WeedOut (needWeed status)] else [])
     @ (if length (needBug status) > 0 then [Insecticide (needBug status)] else [])
     @ (if length (needWater status) > 0 then [WaterLand (needWater status)] else [])"

definition batch_maintenance :: "env \<Rightarrow> analysis \<Rightarrow> event list" where
  "batch_maintenance e status =
     (let batchOps = batch_calls status
      in map Issue batchOps
         @ map (\<lambda>c. Settle c (reply_ok e c 0)) (settle_order (settle_seed e) batchOps))"

text \<open>
  The harvest block: one request for all harvestable plots; when it is fulfilled the
  plots become \<open>harvestedLandIds\<close> and their entries leave \<open>upgradeRetryCooldown\<close>.
\<close>

definition harvest_step ::
  "env \<Rightarrow> analysis \<Rightarrow> farm_state \<Rightarrow> int list \<times> farm_state \<times> event list" where
  "harvest_step e status s =
     (if length (harvestable status) > 0
      then (let c = Harvest (harvestable status) in
            if reply_ok e c 0
            then (harvestable status,
                  s\<lparr>upgradeRetryCooldown :=
                      fold (\<lambda>i m. m(i := None)) (harvestable status) (upgradeRetryCooldown s)\<rparr>,
                  [Issue c, Settle c True])
            else ([], s, [Issue c, Settle c False]))
      else ([], s, []))"

text \<open>The unlock block, gated by \<open>CONFIG.autoExpandLand\<close> and the cooldown filter.\<close>

definition unlock_step ::
  "config \<Rightarrow> env \<Rightarrow> analysis \<Rightarrow> farm_state \<Rightarrow> farm_state \<times> event list" where
  "unlock_step cfg e status s =
     (if autoExpandLand cfg \<and> length (eligibleForUnlock status) > 0
      then (let now = date_unlock_now e;
                toUnlock = filter (retry_allowed (unlockRetryCooldown s) now)
                             (eligibleForUnlock status)
            in if length toUnlock > 0
               then (let (r, tr) = unlockLand e 0 toUnlock;
                         failedTime = date_unlock_failed e;
                         m1 = fold (\<lambda>i m. m(i \<mapsto> failedTime)) (failedIds r)
                                (unlockRetryCooldown s);
                         m2 = fold (\<lambda>i m. m(i := None)) (successIds r) m1
                     in (s\<lparr>unlockRetryCooldown := m2\<rparr>, tr))
               else (s, []))
      else (s, []))"

text \<open>
  The upgrade block, gated by \<open>CONFIG.autoUpgradeRedLand\<close> and the cooldown filter; the
  first component is \<open>failedUpgradeIds\<close>.
\<close>

definition upgrade_step ::
  "config \<Rightarrow> env \<Rightarrow> analysis \<Rightarrow> farm_state \<Rightarrow> int list \<times> farm_state \<times> event list" where
  "upgrade_step cfg e status s =
     (if autoUpgradeRedLand cfg \<and> length (eligibleForUpgrade status) > 0
      then (let now = date_upgrade_now e;
                toUpgrade = filter (retry_allowed (upgradeRetryCooldown s) now)
                              (eligibleForUpgrade status)
            in if length toUpgrade > 0
               then (let (r, tr) = upgradeLand e 0 toUpgrade;
                         failedTime = date_upgrade_failed e;
                         m1 = fold (\<lambda>i m. m(i \<mapsto> failedTime)) (failedIds r)
                                (upgradeRetryCooldown s);
                         m2 = fold (\<lambda>i m. m(i := None)) (successIds r) m1
                     in (failedIds r, s\<lparr>upgradeRetryCooldown := m2\<rparr>, tr))
               else ([], s, []))
      else ([], s, []))"

definition allDeadLands :: "analysis \<Rightarrow> int list \<Rightarrow> int list \<Rightarrow> int list" where
  "allDeadLands status harvestedLandIds failedUpgradeIds =
     dead status @ filter (\<lambda>i. i \<notin> set failedUpgradeIds) harvestedLandIds"

definition allEmptyLands :: "analysis \<Rightarrow> int list" where
  "allEmptyLands status =
     filter (\<lambda>i. i \<notin> set (eligibleForUpgrade status)) (empty_lands status)"

text \<open>
  The actions of a cycle on a snapshot that has plots, from \<open>getLandTypeCounts\<close> to the
  replant pipeline. The summary log line is not modelled.
\<close>

definition act_on_lands ::
  "config \<Rightarrow> env \<Rightarrow> land list \<Rightarrow> farm_state \<Rightarrow> farm_state \<times> event list" where
  "act_on_lands cfg e lands s =
     (let s0 = s\<lparr>lastLandStats := Some (getLandTypeCounts lands)\<rparr>;
          status = analyzeLands cfg (env_clock e) (date_analyze e) (date_phase e) lands;
          unlockedLandCount = int (length (filter unlocked lands));
          t_batch = batch_maintenance e status;
          (harvestedLandIds, s1, t_harvest) = harvest_step e status s0;
          (s2, t_unlock) = unlock_step cfg e status s1;
          (failedUpgradeIds, s3, t_upgrade) = upgrade_step cfg e status s2;
          deadL = allDeadLands status harvestedLandIds failedUpgradeIds;
          emptyL = allEmptyLands status;
          (u, t_plant) =
            (if length deadL > 0 \<or> length emptyL > 0
             then autoPlantEmptyLands cfg e (user s3) deadL emptyL unlockedLandCount
             else (user s3, []))
      in (s3\<lparr>user := u\<rparr>, t_batch @ t_harvest @ t_unlock @ t_upgrade @ t_plant))"

text \<open>
  The \<open>try\<close> block of \<open>checkFarm\<close> with its \<open>catch\<close>: a rejected snapshot request is
  caught and logged; a snapshot without plots ends the cycle.
\<close>

definition checkFarm_try ::
  "config \<Rightarrow> env \<Rightarrow> farm_state \<Rightarrow> farm_state \<times> event list" where
  "checkFarm_try cfg e s =
     (if \<not> reply_ok e AllLands 0 then (s, [Issue AllLands, Settle AllLands False])
      else
        (case lands_reply e of
           None \<Rightarrow> (s, [Issue AllLands, Settle AllLands True])
         | Some lands \<Rightarrow>
             if length lands = 0 then (s, [Issue AllLands, Settle AllLands True])
             else (let (s', tr) = act_on_lands cfg e lands s
                   in (s', [Issue AllLands, Settle AllLands True] @ tr))))"

text \<open>
  \<open>checkFarm\<close>: the guard \<open>if (isCheckingFarm || !state.gid) return\<close>, the flag set
  before the \<open>try\<close> and cleared in \<open>finally\<close>.
\<close>

definition checkFarm :: "config \<Rightarrow> env \<Rightarrow> farm_state \<Rightarrow> farm_state \<times> event list" where
  "checkFarm cfg e s =
     (if isCheckingFarm s \<or> gid (user s) = 0 then (s, [])
      else (let (s', tr) = checkFarm_try cfg e (s\<lparr>isCheckingFarm := True\<rparr>)
            in (s'\<lparr>isCheckingFarm := False\<rparr>, tr)))"

text \<open>
  \<open>onLandsChangedPush\<close>: the second component tells whether the 100 ms timer was set.
  \<open>push_timer\<close> is the callback of that timer.
\<close>

definition onLandsChangedPush :: "int \<Rightarrow> farm_state \<Rightarrow> farm_state \<times> bool" where
  "onLandsChangedPush now s =
     (if isCheckingFarm s then (s, False)
      else if now - lastPushTime s < 500 then (s, False)
      else (s\<lparr>lastPushTime := now\<rparr>, True))"

definition push_timer :: "config \<Rightarrow> env \<Rightarrow> farm_state \<Rightarrow> farm_state \<times> event list" where
  "push_timer cfg e s = (if \<not> isCheckingFarm s then checkFarm cfg e s else (s, []))"

section \<open>Reading a trace\<close>

text \<open>
  The position of an event in the sequencing contract: the snapshot, the maintenance
  requests issued, the maintenance requests settled, harvest, unlock, upgrade, removal,
  catalog, purchase, planting, fertilizing.
\<close>

fun step_rank :: "event \<Rightarrow> nat" where
  "step_rank (Issue AllLands) = 0"
| "step_rank (Settle AllLands b) = 0"
| "step_rank (Issue (WeedOut ids)) = 1"
| "step_rank (Issue (Insecticide ids)) = 1"
| "step_rank (Issue (WaterLand ids)) = 1"
| "step_rank (Settle (WeedOut ids) b) = 2"
| "step_rank (Settle (Insecticide ids) b) = 2"
| "step_rank (Settle (WaterLand ids) b) = 2"
| "step_rank (Issue (Harvest ids)) = 3"
| "step_rank (Settle (Harvest ids) b) = 3"
| "step_rank (Issue (UnlockLand i)) = 4"
| "step_rank (Settle (UnlockLand i) b) = 4"
| "step_rank (Issue (UpgradeLand i)) = 5"
| "step_rank (Settle (UpgradeLand i) b) = 5"
| "step_rank (Issue (RemovePlant ids)) = 6"
| "step_rank (Settle (RemovePlant ids) b) = 6"
| "step_rank (Issue (ShopInfo i)) = 7"
| "step_rank (Settle (ShopInfo i) b) = 7"
| "step_rank (Issue (BuyGoods g n p)) = 8"
| "step_rank (Settle (BuyGoods g n p) b) = 8"
| "step_rank (Issue (Plant sd i)) = 9"
| "step_rank (Settle (Plant sd i) b) = 9"
| "step_rank (Issue (Fertilize i f)) = 10"
| "step_rank (Settle (Fertilize i f) b) = 10"

fun issued :: "event list \<Rightarrow> call list" where
  "issued [] = []"
| "issued (Issue c # tr) = c # issued tr"
| "issued (Settle c b # tr) = issued tr"

fun settled :: "event list \<Rightarrow> call list" where
  "settled [] = []"
| "settled (Issue c # tr) = settled tr"
| "settled (Settle c b # tr) = c # settled tr"

text \<open>
  \<open>phase_block lo hi tr\<close>: the events of \<open>tr\<close> are in the order of the contract and
  belong to the steps \<open>lo\<close> to \<open>hi\<close>.
\<close>

definition phase_block :: "nat \<Rightarrow> nat \<Rightarrow> event list \<Rightarrow> bool" where
  "phase_block lo hi tr \<longleftrightarrow>
     sorted (map step_rank tr) \<and> (\<forall>ev \<in> set tr. lo \<le> step_rank ev \<and> step_rank ev \<le> hi)"

text \<open>
  An environment and a state to run a cycle on \<open>example_lands\<close>: every request is
  fulfilled, the catalog offers one seed at 10 gold, the recommendation throws.
\<close>

definition example_goods :: goods where
  "example_goods =
     \<lparr>goods_id = 9, item_id = 20002, goods_price = 10, goods_unlocked = True,
      conds = [\<lparr>cond_type = 1, cond_param = 1\<rparr>], limit_count = 0, bought_num = 0\<rparr>"

definition example_env :: env where
  "example_env =
     \<lparr>reply_ok = (\<lambda>c k. True), settle_seed = 0, lands_reply = Some example_lands,
      goods_list = Some [example_goods], get_items = [], cost_items = [],
      recommendation = (\<lambda>lvl n. None), env_clock = example_clock,
      date_analyze = 200000, date_phase = (\<lambda>k. 200000),
      date_unlock_now = 200000, date_unlock_failed = 200001,
      date_upgrade_now = 200002, date_upgrade_failed = 200003\<rparr>"

definition example_state :: farm_state where
  "example_state =
     \<lparr>isCheckingFarm = False, lastLandStats = None,
      upgradeRetryCooldown = Map.empty, unlockRetryCooldown = Map.empty,
      lastPushTime = 0, user = \<lparr>gid = 1, user_level = 5, gold = 1000\<rparr>\<rparr>"

text \<open>
  A second run: plot 7 is harvestable and an upgrade candidate, and an upgrade failure
  was recorded for it 100 ms before the cycle, so it is cooling down when the cycle
  starts. Upgrading is switched on.
\<close>

definition example_status7 :: analysis where
  "example_status7 = empty_analysis\<lparr>harvestable := [7], eligibleForUpgrade := [7]\<rparr>"

definition example_state7 :: farm_state where
  "example_state7 = example_state\<lparr>upgradeRetryCooldown := Map.empty(7 \<mapsto> 199902)\<rparr>"

definition example_config7 :: config where
  "example_config7 = example_config\<lparr>autoUpgradeRedLand := True\<rparr>"

text \<open>
  What a trace tells about a cycle: the plots of the fulfilled harvest requests, and
  the plots whose upgrade request was rejected.
\<close>

definition harvested_of :: "event \<Rightarrow> int list" where
  "harvested_of ev = (case ev of Settle (Harvest ids) True \<Rightarrow> ids | _ \<Rightarrow> [])"

definition harvested_in :: "event list \<Rightarrow> int list" where
  "harvested_in tr = concat (map harvested_of tr)"

definition failed_upgrade_of :: "event \<Rightarrow> int list" where
  "failed_upgrade_of ev = (case ev of Settle (UpgradeLand i) False \<Rightarrow> [i] | _ \<Rightarrow> [])"

definition failed_upgrades_in :: "event list \<Rightarrow> int list" where
  "failed_upgrades_in tr = concat (map failed_upgrade_of tr)"

text \<open>
  A third run: two empty plots, every request fulfilled except the planting request
  for plot 1.
\<close>

definition example_lands2 :: "land list" where
  "example_lands2 = [example_land 1 True None, example_land 2 True None]"

definition example_env2 :: env where
  "example_env2 =
     example_env\<lparr>lands_reply := Some example_lands2,
                  reply_ok := (\<lambda>c k. c \<noteq> Plant 20002 1)\<rparr>"

text \<open>
  A catalog to run the selector: two seeds at level 1 (10 and 5 gold) and one at
  level 4.
\<close>

definition example_seed :: "int \<Rightarrow> int \<Rightarrow> int \<Rightarrow> int \<Rightarrow> goods" where
  "example_seed gi item p lvl =
     \<lparr>goods_id = gi, item_id = item, goods_price = p, goods_unlocked = True,
      conds = [\<lparr>cond_type = 1, cond_param = lvl\<rparr>], limit_count = 0, bought_num = 0\<rparr>"

definition example_choice :: "int \<Rightarrow> int \<Rightarrow> int \<Rightarrow> int \<Rightarrow> seed_choice" where
  "example_choice gi item p lvl =
     \<lparr>goods_of = example_seed gi item p lvl, goodsId = gi, seedId = item, price = p,
      requiredLevel = lvl\<rparr>"

definition example_catalog :: "goods list" where
  "example_catalog =
     [example_seed 9 20002 10 1, example_seed 10 20003 5 1, example_seed 11 20010 50 4]"

definition example_shop :: env where
  "example_shop = example_env\<lparr>goods_list := Some example_catalog\<rparr>"

definition example_user :: "int \<Rightarrow> user_state" where
  "example_user lvl = \<lparr>gid = 1, user_level = lvl, gold = 1000\<rparr>"

section \<open>The phase resolver in its module\<close>





text \<open>
  A run of the unlock and upgrade blocks: plots 5 and 8 can be unlocked, plots 1 and 6
  can be upgraded; for plots 8 and 6 a failure was recorded 100 seconds before the
  cycle; both flags are on and the requests for plots 5 and 1 are rejected.
\<close>

definition example_status_c :: analysis where
  "example_status_c =
     empty_analysis\<lparr>eligibleForUnlock := [5, 8], eligibleForUpgrade := [1, 6]\<rparr>"

definition example_state_c :: farm_state where
  "example_state_c =
     example_state\<lparr>upgradeRetryCooldown := Map.empty(6 \<mapsto> 100000),
                    unlockRetryCooldown := Map.empty(8 \<mapsto> 100000)\<rparr>"

definition example_config_c :: config where
  "example_config_c = example_config\<lparr>autoExpandLand := True, autoUpgradeRedLand := True\<rparr>"

definition example_env_c :: env where
  "example_env_c =
     example_env\<lparr>reply_ok := (\<lambda>c k. c \<noteq> UnlockLand 5 \<and> c \<noteq> UpgradeLand 1)\<rparr>"

section \<open>The filtered catalog in the words of the specification\<close>

text \<open>
  The filter of the specification: an entry stays when it is unlocked, when every
  level-gated condition (type 1) is satisfied by the current level, and when its purchase
  limit is not exhausted. The level requirement of an entry is the parameter of its last
  level condition, \<open>0\<close> when it has none.
\<close>

definition level_conditions_met :: "int \<Rightarrow> goods \<Rightarrow> bool" where
  "level_conditions_met lvl g \<longleftrightarrow>
     (\<forall>c \<in> set (conds g). cond_type c = 1 \<longrightarrow> cond_param c \<le> lvl)"

definition level_requirement :: "goods \<Rightarrow> int" where
  "level_requirement g =
     (if filter (\<lambda>c. cond_type c = 1) (conds g) = [] then 0
      else cond_param (last (filter (\<lambda>c. cond_type c = 1) (conds g))))"

definition limit_exhausted :: "goods \<Rightarrow> bool" where
  "limit_exhausted g \<longleftrightarrow> limit_count g > 0 \<and> bought_num g \<ge> limit_count g"

definition filtered_catalog_spec :: "int \<Rightarrow> goods list \<Rightarrow> seed_choice list" where
  "filtered_catalog_spec lvl gl =
     map (\<lambda>g. \<lparr>goods_of = g, goodsId = goods_id g, seedId = item_id g,
                price = goods_price g, requiredLevel = level_requirement g\<rparr>)
       (filter (\<lambda>g. goods_unlocked g \<and> level_conditions_met lvl g \<and> \<not> limit_exhausted g) gl)"

text \<open>Level requirements are levels: no catalog entry asks for a negative one.\<close>

definition level_params_ok :: "goods list \<Rightarrow> bool" where
  "level_params_ok gl \<longleftrightarrow>
     (\<forall>g \<in> set gl. \<forall>c \<in> set (conds g). cond_type c = 1 \<longrightarrow> 0 \<le> cond_param c)"

text \<open>A second catalog: two seeds without a level requirement, for a player at level 0.\<close>

definition example_catalog0 :: "goods list" where
  "example_catalog0 = [example_seed 9 20002 10 0, example_seed 10 20003 5 0]"

definition example_shop0 :: env where
  "example_shop0 = example_env\<lparr>goods_list := Some example_catalog0\<rparr>"

text \<open>
  The requests of one step of the contract, in the order they were issued, and the
  number of requests of a step that were fulfilled.
\<close>

definition issued_at :: "nat \<Rightarrow> event list \<Rightarrow> call list" where
  "issued_at k tr = issued (filter (\<lambda>ev. step_rank ev = k) tr)"

fun fulfilled :: "event \<Rightarrow> bool" where
  "fulfilled (Issue c) = False"
| "fulfilled (Settle c b) = b"

definition fulfilled_at :: "nat \<Rightarrow> event list \<Rightarrow> nat" where
  "fulfilled_at k tr = length (filter (\<lambda>ev. step_rank ev = k \<and> fulfilled ev) tr)"

text \<open>
  The seed id that is planted after a purchase: the id of the first item of the
  purchase reply when it is positive, the id of the chosen seed otherwise.
\<close>

definition received_seed :: "env \<Rightarrow> seed_choice \<Rightarrow> int" where
  "received_seed e bestSeed =
     (case get_items e of
        [] \<Rightarrow> seedId bestSeed
      | gotItem # _ \<Rightarrow> if fst gotItem > 0 then fst gotItem else seedId bestSeed)"

text \<open>
  A fourth run, with unlocking and upgrading switched on: plot 1 holds a dead plant and
  plot 2 a mature one, both are upgrade candidates and both upgrade requests are
  rejected; plot 3 is empty; plot 4 is growing and dry; plot 5 is locked and can be
  unlocked; plot 6 is empty and an upgrade candidate; plot 7 holds a mature plant.
\<close>

definition example_lands_b :: "land list" where
  "example_lands_b =
     [(example_land 1 True (Some (example_plant 1020002 7 0)))\<lparr>could_upgrade := True\<rparr>,
      (example_land 2 True (Some (example_plant 1020002 6 0)))\<lparr>could_upgrade := True\<rparr>,
      example_land 3 True None,
      example_land 4 True (Some (example_plant 1020002 3 150)),
      (example_land 5 False None)\<lparr>could_unlock := True\<rparr>,
      (example_land 6 True None)\<lparr>could_upgrade := True\<rparr>,
      example_land 7 True (Some (example_plant 1020002 6 0))]"

definition example_env_b :: env where
  "example_env_b =
     example_env\<lparr>lands_reply := Some example_lands_b,
                  reply_ok := (\<lambda>c k. c \<noteq> UpgradeLand 1 \<and> c \<noteq> UpgradeLand 2)\<rparr>"

text \<open>
  A fifth run: the snapshot of the fourth, every request fulfilled except the catalog
  request.
\<close>

definition example_env_d :: env where
  "example_env_d =
     example_env\<lparr>lands_reply := Some example_lands_b,
                  reply_ok := (\<lambda>c k. c \<noteq> ShopInfo SEED_SHOP_ID)\<rparr>"

section \<open>Properties of the phase resolver\<close>

lemma scan_phases_Suc:
  "scan_phases nowSec ps (Suc i) =
     (if started nowSec (ps ! i) then Some (ps ! i) else scan_phases nowSec ps i)"
  by (simp add: started_def Let_def)

lemma scan_phases_filter:
  "n \<le> length ps \<Longrightarrow>
   scan_phases nowSec ps n =
     (if filter (started nowSec) (take n ps) = [] then None
      else Some (last (filter (started nowSec) (take n ps))))"
proof (induction n)
  case 0
  show ?case by simp
next
  case (Suc n)
  then have n: "n < length ps" and le: "n \<le> length ps" by simp_all
  have tk: "take (Suc n) ps = take n ps @ [ps ! n]"
    using n by (simp add: take_Suc_conv_app_nth)
  show ?case
    unfolding scan_phases_Suc tk using Suc.IH [OF le] by simp
qed

text \<open>
  C2. For every phase list and every time, \<open>getCurrentPhase\<close> returns null for an
  empty or absent list; otherwise the last phase of the list whose normalized
  \<open>begin_time\<close> is greater than 0 and at most the current time in seconds; and the
  first phase when no phase has such a start.
\<close>

theorem getCurrentPhase_contract:
  "getCurrentPhase c dateNow phs debug landLabel =
     resolveCurrentPhase_spec phs (getServerTimeSec c dateNow)"
proof (cases phs)
  case None
  then show ?thesis
    by (simp add: getCurrentPhase_def resolveCurrentPhase_spec_def)
next
  case (Some ps)
  show ?thesis
  proof (cases "ps = []")
    case True
    with Some show ?thesis
      by (simp add: getCurrentPhase_def resolveCurrentPhase_spec_def)
  next
    case False
    have "scan_phases (getServerTimeSec c dateNow) ps (length ps) =
            (if filter (started (getServerTimeSec c dateNow)) ps = [] then None
             else Some (last (filter (started (getServerTimeSec c dateNow)) ps)))"
      using scan_phases_filter [of "length ps" ps] by simp
    with Some False show ?thesis
      by (simp add: getCurrentPhase_def resolveCurrentPhase_spec_def Let_def hd_conv_nth)
  qed
qed

section \<open>Properties of the classifier\<close>

lemma primary_growing_needs:
  "primary (growing_needs nowSec i p ph r) = add_mset i (primary r)"
  by (simp add: growing_needs_def primary_def Let_def)

lemma primary_classify_planted:
  "primary (classify_planted cfg c nowSec d i p r) = add_mset i (primary r)"
  by (simp add: classify_planted_def primary_growing_needs Let_def split: option.split)
     (simp add: primary_def)

lemma primary_analyze_land:
  "primary (analyze_land cfg c nowSec d l r) =
     (if unlocked l then add_mset (toNum (land_id l)) (primary r) else primary r)"
  by (simp add: analyze_land_def primary_classify_planted Let_def split: option.split)
     (simp add: primary_def)

lemma primary_loop:
  "primary (analyzeLands_loop cfg c nowSec dateAt k ls r) =
     primary r + mset (map (\<lambda>l. toNum (land_id l)) (filter unlocked ls))"
  by (induction ls arbitrary: k r) (simp_all add: primary_analyze_land)

lemma needs_growing_needs:
  "needs_in_growing r \<Longrightarrow> needs_in_growing (growing_needs nowSec i p ph r)"
  by (auto simp: growing_needs_def needs_in_growing_def Let_def)

lemma needs_classify_planted:
  "needs_in_growing r \<Longrightarrow> needs_in_growing (classify_planted cfg c nowSec d i p r)"
  by (simp add: classify_planted_def needs_growing_needs Let_def split: option.split)
     (simp add: needs_in_growing_def)

lemma needs_analyze_land:
  "needs_in_growing r \<Longrightarrow> needs_in_growing (analyze_land cfg c nowSec d l r)"
proof -
  assume r: "needs_in_growing r"
  have upd: "\<And>r f g. needs_in_growing r \<Longrightarrow>
      needs_in_growing (r\<lparr>eligibleForUnlock := f\<rparr>) \<and> needs_in_growing (r\<lparr>eligibleForUpgrade := g\<rparr>)
      \<and> needs_in_growing (r\<lparr>empty_lands := f\<rparr>)"
    by (simp add: needs_in_growing_def)
  show ?thesis
    using r by (simp add: analyze_land_def Let_def upd needs_classify_planted split: option.split)
qed

lemma needs_loop:
  "needs_in_growing r \<Longrightarrow> needs_in_growing (analyzeLands_loop cfg c nowSec dateAt k ls r)"
  by (induction ls arbitrary: k r) (simp_all add: needs_analyze_land)

lemma analyzeLands_primary:
  "primary (analyzeLands cfg c d0 dateAt lands) =
     mset (map (\<lambda>l. toNum (land_id l)) (filter unlocked lands))"
  unfolding analyzeLands_def primary_loop by (simp add: primary_def empty_analysis_def)

lemma analyzeLands_needs:
  "needs_in_growing (analyzeLands cfg c d0 dateAt lands)"
  unfolding analyzeLands_def
  by (rule needs_loop) (simp add: needs_in_growing_def empty_analysis_def)

lemma analyzeLands_example:
  "analyzeLands example_config example_clock 200000 (\<lambda>k. 200000) example_lands =
     \<lparr>harvestable = [2], needWater = [4], needWeed = [], needBug = [], growing = [4],
      empty_lands = [3], dead = [1], harvestableInfo = [(2, 1020002)],
      eligibleForUnlock = [], eligibleForUpgrade = []\<rparr>"
  by (simp add: analyzeLands_def analyze_land_def classify_planted_def growing_needs_def
      getCurrentPhase_def getServerTimeSec_def toTimeSec_def toNum_def empty_analysis_def
      example_lands_def example_land_def example_plant_def example_config_def
      example_clock_def Let_def)

text \<open>
  C9. For every snapshot and every reading of the clock, each unlocked plot is put
  into exactly one of the lists dead, harvestable, empty and growing: together the four
  lists hold the ids of the unlocked plots, each as often as the snapshot has a plot
  with that id. The water, weed and pest lists hold growing plots only. For a snapshot
  whose plots have distinct ids the four lists are duplicate-free and pairwise disjoint.
\<close>

theorem analyzeLands_primary_partition:
  assumes "r = analyzeLands cfg c d0 dateAt lands"
  shows "mset (dead r) + mset (harvestable r) + mset (empty_lands r) + mset (growing r)
           = mset (map (\<lambda>l. toNum (land_id l)) (filter unlocked lands))
         \<and> set (needWater r) \<subseteq> set (growing r)
         \<and> set (needWeed r) \<subseteq> set (growing r)
         \<and> set (needBug r) \<subseteq> set (growing r)
         \<and> (distinct (map land_id lands) \<longrightarrow>
              distinct (dead r @ harvestable r @ empty_lands r @ growing r)
              \<and> set (dead r) \<inter> set (harvestable r) = {}
              \<and> set (dead r) \<inter> set (empty_lands r) = {}
              \<and> set (dead r) \<inter> set (growing r) = {}
              \<and> set (harvestable r) \<inter> set (empty_lands r) = {}
              \<and> set (harvestable r) \<inter> set (growing r) = {}
              \<and> set (empty_lands r) \<inter> set (growing r) = {})"
proof -
  have p: "primary r = mset (map (\<lambda>l. toNum (land_id l)) (filter unlocked lands))"
    unfolding assms by (rule analyzeLands_primary)
  have n: "needs_in_growing r"
    unfolding assms by (rule analyzeLands_needs)
  have d: "distinct (dead r @ harvestable r @ empty_lands r @ growing r)"
    if "distinct (map land_id lands)"
  proof -
    have "distinct (map (\<lambda>l. toNum (land_id l)) (filter unlocked lands))"
      using that by (simp add: toNum_def distinct_map_filter)
    moreover have "mset (dead r @ harvestable r @ empty_lands r @ growing r)
        = mset (map (\<lambda>l. toNum (land_id l)) (filter unlocked lands))"
      using p by (simp add: primary_def add.assoc)
    ultimately show ?thesis
      by (metis mset_eq_imp_distinct_iff)
  qed
  have e: "set (dead r) \<inter> set (harvestable r) = {}
           \<and> set (dead r) \<inter> set (empty_lands r) = {}
           \<and> set (dead r) \<inter> set (growing r) = {}
           \<and> set (harvestable r) \<inter> set (empty_lands r) = {}
           \<and> set (harvestable r) \<inter> set (growing r) = {}
           \<and> set (empty_lands r) \<inter> set (growing r) = {}"
    if "distinct (map land_id lands)"
    using d [OF that] by auto
  show ?thesis
    using p n d e by (simp add: primary_def needs_in_growing_def)
qed

theorem analyzeLands_primary_partition_witness:
  "distinct (map land_id example_lands)
   \<and> dead (analyzeLands example_config example_clock 200000 (\<lambda>k. 200000) example_lands) = [1]
   \<and> harvestable (analyzeLands example_config example_clock 200000 (\<lambda>k. 200000) example_lands) = [2]
   \<and> empty_lands (analyzeLands example_config example_clock 200000 (\<lambda>k. 200000) example_lands) = [3]
   \<and> growing (analyzeLands example_config example_clock 200000 (\<lambda>k. 200000) example_lands) = [4]
   \<and> needWater (analyzeLands example_config example_clock 200000 (\<lambda>k. 200000) example_lands) = [4]
   \<and> mset [1] + mset [2] + mset [3] + mset [4]
       = mset (map (\<lambda>l. toNum (land_id l)) (filter unlocked example_lands))
   \<and> distinct ([1] @ [2] @ [3] @ [4 :: int])"
proof -
  have h: "distinct (map land_id example_lands)"
    by (simp add: example_lands_def example_land_def)
  show ?thesis
    using h analyzeLands_primary_partition
      [OF refl, of example_config example_clock 200000 "\<lambda>k. 200000" example_lands]
    by (simp add: analyzeLands_example)
qed

section \<open>The in-flight guard\<close>

lemma harvest_step_flag:
  "harvest_step e status s = (h, s', tr) \<Longrightarrow> isCheckingFarm s' = isCheckingFarm s"
  by (auto simp: harvest_step_def Let_def split: if_splits)

lemma unlock_step_flag:
  "unlock_step cfg e status s = (s', tr) \<Longrightarrow> isCheckingFarm s' = isCheckingFarm s"
  by (auto simp: unlock_step_def Let_def split: if_splits prod.splits)

lemma upgrade_step_flag:
  "upgrade_step cfg e status s = (f, s', tr) \<Longrightarrow> isCheckingFarm s' = isCheckingFarm s"
  by (auto simp: upgrade_step_def Let_def split: if_splits prod.splits)

lemma act_on_lands_flag:
  "act_on_lands cfg e lands s = (s', tr) \<Longrightarrow> isCheckingFarm s' = isCheckingFarm s"
proof -
  assume r: "act_on_lands cfg e lands s = (s', tr)"
  let ?st = "analyzeLands cfg (env_clock e) (date_analyze e) (date_phase e) lands"
  obtain h s1 t1 where a: "harvest_step e ?st
      (s\<lparr>lastLandStats := Some (getLandTypeCounts lands)\<rparr>) = (h, s1, t1)"
    by (metis prod_cases3)
  obtain s2 t2 where b: "unlock_step cfg e ?st s1 = (s2, t2)"
    by (metis surj_pair)
  obtain f s3 t3 where c: "upgrade_step cfg e ?st s2 = (f, s3, t3)"
    by (metis prod_cases3)
  have "isCheckingFarm s3 = isCheckingFarm s"
    using harvest_step_flag [OF a] unlock_step_flag [OF b] upgrade_step_flag [OF c] by simp
  moreover have "isCheckingFarm s' = isCheckingFarm s3"
    using r a b c by (auto simp: act_on_lands_def Let_def split: prod.splits)
  ultimately show ?thesis by simp
qed

lemma checkFarm_try_flag:
  "checkFarm_try cfg e s = (s', tr) \<Longrightarrow> isCheckingFarm s' = isCheckingFarm s"
  by (auto simp: checkFarm_try_def Let_def split: option.splits prod.splits if_splits
      dest: act_on_lands_flag)

text \<open>
  C10. Invoked while a cycle is in flight, \<open>checkFarm\<close> returns at once: the state is
  unchanged and no request is issued, the snapshot request included; the same holds for
  the timer callback of a push notification, and the push handler itself changes nothing
  and sets no timer. The body of a cycle never touches the flag, so it is held for the
  whole cycle; at the end of every cycle that started the flag is released, also when
  the snapshot request is rejected and the \<open>catch\<close> block runs.
\<close>

theorem checkFarm_reentrancy_guard:
  "(isCheckingFarm s \<longrightarrow>
      checkFarm cfg e s = (s, []) \<and> push_timer cfg e s = (s, [])
      \<and> onLandsChangedPush now s = (s, False))
   \<and> isCheckingFarm (fst (checkFarm_try cfg e s)) = isCheckingFarm s
   \<and> \<not> isCheckingFarm (fst (checkFarm cfg e (s\<lparr>isCheckingFarm := False\<rparr>)))
   \<and> (gid (user s) \<noteq> 0 \<and> \<not> reply_ok e AllLands 0 \<longrightarrow>
        checkFarm cfg e (s\<lparr>isCheckingFarm := False\<rparr>)
          = (s\<lparr>isCheckingFarm := False\<rparr>, [Issue AllLands, Settle AllLands False]))"
proof -
  have a: "isCheckingFarm (fst (checkFarm_try cfg e s)) = isCheckingFarm s"
    using checkFarm_try_flag [of cfg e s] by (cases "checkFarm_try cfg e s") simp
  have b: "\<not> isCheckingFarm (fst (checkFarm cfg e (s\<lparr>isCheckingFarm := False\<rparr>)))"
    by (simp add: checkFarm_def split: prod.split)
  have c: "checkFarm cfg e (s\<lparr>isCheckingFarm := False\<rparr>)
          = (s\<lparr>isCheckingFarm := False\<rparr>, [Issue AllLands, Settle AllLands False])"
    if "gid (user s) \<noteq> 0" "\<not> reply_ok e AllLands 0"
    using that by (simp add: checkFarm_def checkFarm_try_def)
  show ?thesis
    using a b c by (simp add: checkFarm_def push_timer_def onLandsChangedPush_def)
qed

theorem checkFarm_reentrancy_guard_witness:
  "isCheckingFarm (example_state\<lparr>isCheckingFarm := True\<rparr>)
   \<and> checkFarm example_config example_env (example_state\<lparr>isCheckingFarm := True\<rparr>)
       = (example_state\<lparr>isCheckingFarm := True\<rparr>, [])
   \<and> push_timer example_config example_env (example_state\<lparr>isCheckingFarm := True\<rparr>)
       = (example_state\<lparr>isCheckingFarm := True\<rparr>, [])
   \<and> onLandsChangedPush 99999 (example_state\<lparr>isCheckingFarm := True\<rparr>)
       = (example_state\<lparr>isCheckingFarm := True\<rparr>, False)
   \<and> gid (user example_state) \<noteq> 0
   \<and> \<not> reply_ok (example_env\<lparr>reply_ok := \<lambda>c k. False\<rparr>) AllLands 0
   \<and> checkFarm example_config (example_env\<lparr>reply_ok := \<lambda>c k. False\<rparr>) example_state
       = (example_state, [Issue AllLands, Settle AllLands False])"
proof -
  have s: "example_state\<lparr>isCheckingFarm := False\<rparr> = example_state"
    by (simp add: example_state_def)
  show ?thesis
    using checkFarm_reentrancy_guard
        [of "example_state\<lparr>isCheckingFarm := True\<rparr>" example_config example_env 99999]
      checkFarm_reentrancy_guard
        [of example_state example_config "example_env\<lparr>reply_ok := \<lambda>c k. False\<rparr>" 0]
    by (simp add: s) (simp add: example_state_def)
qed

section \<open>Traces of the request loops\<close>

lemma phase_block_Nil: "phase_block lo hi []"
  by (simp add: phase_block_def)

lemma sorted_map_const: "(\<forall>x \<in> set xs. f x = (c::nat)) \<Longrightarrow> sorted (map f xs)"
  by (induction xs) auto

lemma phase_block_uniform:
  "(\<forall>ev \<in> set tr. step_rank ev = r) \<Longrightarrow> phase_block r r tr"
  by (auto simp: phase_block_def intro: sorted_map_const)

lemma phase_block_widen:
  "phase_block lo hi tr \<Longrightarrow> lo' \<le> lo \<Longrightarrow> hi \<le> hi' \<Longrightarrow> phase_block lo' hi' tr"
  by (fastforce simp: phase_block_def)

lemma phase_block_append:
  "phase_block lo m t1 \<Longrightarrow> phase_block m' hi t2 \<Longrightarrow> m \<le> m' \<Longrightarrow> lo \<le> m' \<Longrightarrow> m \<le> hi
   \<Longrightarrow> phase_block lo hi (t1 @ t2)"
  by (fastforce simp: phase_block_def sorted_append)

lemma issued_append: "issued (t1 @ t2) = issued t1 @ issued t2"
  by (induction t1 rule: issued.induct) simp_all

lemma settled_append: "settled (t1 @ t2) = settled t1 @ settled t2"
  by (induction t1 rule: settled.induct) simp_all

lemma issued_map_Issue: "issued (map Issue cs) = cs"
  by (induction cs) simp_all

lemma settled_map_Issue: "settled (map Issue cs) = []"
  by (induction cs) simp_all

lemma issued_map_Settle: "issued (map (\<lambda>c. Settle c (f c)) cs) = []"
  by (induction cs) simp_all

lemma settled_map_Settle: "settled (map (\<lambda>c. Settle c (f c)) cs) = cs"
  by (induction cs) simp_all

lemma mset_settle_order: "mset (settle_order n xs) = mset xs"
proof (induction xs arbitrary: n)
  case Nil
  show ?case by simp
next
  case (Cons x xs)
  have "mset (take k ys @ x # drop k ys) = add_mset x (mset ys)" for k and ys :: "'a list"
    by (metis append_take_drop_id mset.simps(2) mset_append union_mset_add_mset_right)
  then show ?case
    using Cons.IH by (simp add: Let_def)
qed

lemma set_settle_order: "set (settle_order n xs) = set xs"
  by (metis mset_settle_order set_mset_mset)

lemma fertilize_rank:
  "\<forall>ev \<in> set (snd (fertilize e k ids f)). step_rank ev = 10"
  by (induction ids arbitrary: k) (simp_all add: Let_def split_beta)

lemma fertilize_awaited:
  "issued (snd (fertilize e k ids f)) = settled (snd (fertilize e k ids f))"
  by (induction ids arbitrary: k) (simp_all add: Let_def split_beta)

lemma plantSeeds_rank:
  "\<forall>ev \<in> set (snd (plantSeeds e k sd ids)). step_rank ev = 9"
  by (induction ids arbitrary: k) (simp_all add: Let_def split_beta)

lemma plantSeeds_awaited:
  "issued (snd (plantSeeds e k sd ids)) = settled (snd (plantSeeds e k sd ids))"
  by (induction ids arbitrary: k) (simp_all add: Let_def split_beta)

lemma unlockLand_rank:
  "\<forall>ev \<in> set (snd (unlockLand e k ids)). step_rank ev = 4"
  by (induction ids arbitrary: k) (simp_all add: Let_def split_beta)

lemma unlockLand_awaited:
  "issued (snd (unlockLand e k ids)) = settled (snd (unlockLand e k ids))"
  by (induction ids arbitrary: k) (simp_all add: Let_def split_beta)

lemma upgradeLand_rank:
  "\<forall>ev \<in> set (snd (upgradeLand e k ids)). step_rank ev = 5"
  by (induction ids arbitrary: k) (simp_all add: Let_def split_beta)

lemma upgradeLand_awaited:
  "issued (snd (upgradeLand e k ids)) = settled (snd (upgradeLand e k ids))"
  by (induction ids arbitrary: k) (simp_all add: Let_def split_beta)

lemma batch_calls_rank:
  "c \<in> set (batch_calls status) \<Longrightarrow> step_rank (Issue c) = 1 \<and> step_rank (Settle c b) = 2"
  by (auto simp: batch_calls_def split: if_splits)

lemma batch_maintenance_block: "phase_block 1 2 (batch_maintenance e status)"
proof -
  have a: "phase_block 1 1 (map Issue (batch_calls status))"
    by (rule phase_block_uniform) (auto simp: batch_calls_rank)
  have b: "phase_block 2 2 (map (\<lambda>c. Settle c (reply_ok e c 0))
             (settle_order (settle_seed e) (batch_calls status)))"
    by (rule phase_block_uniform) (auto simp: set_settle_order batch_calls_rank)
  show ?thesis
    unfolding batch_maintenance_def Let_def
    by (rule phase_block_append [OF a b]) simp_all
qed

lemma batch_maintenance_awaited:
  "mset (issued (batch_maintenance e status)) = mset (settled (batch_maintenance e status))"
  by (simp add: batch_maintenance_def Let_def issued_append settled_append issued_map_Issue
      settled_map_Issue issued_map_Settle settled_map_Settle mset_settle_order)

lemma harvest_step_block:
  "harvest_step e status s = (h, s', tr) \<Longrightarrow> phase_block 3 3 tr \<and> issued tr = settled tr"
  by (auto simp: harvest_step_def Let_def phase_block_def split: if_splits)

lemma unlock_step_block:
  "unlock_step cfg e status s = (s', tr) \<Longrightarrow> phase_block 4 4 tr \<and> issued tr = settled tr"
proof -
  assume a: "unlock_step cfg e status s = (s', tr)"
  have "tr = [] \<or> (\<exists>ids. tr = snd (unlockLand e 0 ids))"
    using a by (auto simp: unlock_step_def Let_def split_beta split: if_splits)
  then show ?thesis
    using unlockLand_rank unlockLand_awaited
    by (auto simp: phase_block_Nil intro!: phase_block_uniform)
qed

lemma upgrade_step_block:
  "upgrade_step cfg e status s = (f, s', tr) \<Longrightarrow> phase_block 5 5 tr \<and> issued tr = settled tr"
proof -
  assume a: "upgrade_step cfg e status s = (f, s', tr)"
  have "tr = [] \<or> (\<exists>ids. tr = snd (upgradeLand e 0 ids))"
    using a by (auto simp: upgrade_step_def Let_def split_beta split: if_splits)
  then show ?thesis
    using upgradeLand_rank upgradeLand_awaited
    by (auto simp: phase_block_Nil intro!: phase_block_uniform)
qed

lemma findBestSeed_block:
  "findBestSeed cfg e st n = (r, tr) \<Longrightarrow> phase_block 7 7 tr \<and> issued tr = settled tr"
  by (auto simp: findBestSeed_def Let_def phase_block_def split: if_splits option.splits)

lemma buy_plant_fertilize_block:
  "buy_plant_fertilize e st seed ls = (st', tr) \<Longrightarrow>
     phase_block 8 10 tr \<and> issued tr = settled tr"
proof -
  assume a: "buy_plant_fertilize e st seed ls = (st', tr)"
  let ?c = "BuyGoods (goodsId seed) (int (length ls)) (price seed)"
  have shape: "tr = [Issue ?c, Settle ?c False]
        \<or> (\<exists>sd ps. tr = [Issue ?c, Settle ?c True] @ snd (plantSeeds e 0 sd ls)
                         @ snd (fertilize e 0 ps NORMAL_FERTILIZER_ID))
        \<or> (\<exists>sd. tr = [Issue ?c, Settle ?c True] @ snd (plantSeeds e 0 sd ls))"
    using a by (auto simp: buy_plant_fertilize_def Let_def split_beta split: if_splits)
  have b: "phase_block 8 8 [Issue ?c, Settle ?c b]" for b
    by (simp add: phase_block_def)
  have p: "phase_block 9 9 (snd (plantSeeds e 0 sd ls))" for sd
    by (rule phase_block_uniform) (rule plantSeeds_rank)
  have f: "phase_block 10 10 (snd (fertilize e 0 ps NORMAL_FERTILIZER_ID))" for ps
    by (rule phase_block_uniform) (rule fertilize_rank)
  have pf: "phase_block 9 10 (snd (plantSeeds e 0 sd ls)
        @ snd (fertilize e 0 ps NORMAL_FERTILIZER_ID))" for sd ps
    by (rule phase_block_append [OF p f]) simp_all
  have c1: "phase_block 8 10 [Issue ?c, Settle ?c False]"
    by (simp add: phase_block_def)
  have c2: "phase_block 8 10 ([Issue ?c, Settle ?c True] @ snd (plantSeeds e 0 sd ls)
        @ snd (fertilize e 0 ps NORMAL_FERTILIZER_ID))" for sd ps
    by (rule phase_block_append [OF b pf]) simp_all
  have c3: "phase_block 8 10 ([Issue ?c, Settle ?c True] @ snd (plantSeeds e 0 sd ls))" for sd
    by (rule phase_block_append [OF b phase_block_widen [OF p, of 9 10]]) simp_all
  have blk: "phase_block 8 10 tr"
    using shape c1 c2 c3 by (elim disjE exE) simp_all
  have aw: "issued tr = settled tr"
    using shape plantSeeds_awaited fertilize_awaited
    by (elim disjE exE) (simp_all add: issued_append settled_append)
  show ?thesis
    using blk aw by simp
qed

lemma autoPlantEmptyLands_block:
  "autoPlantEmptyLands cfg e st deadL emptyL n = (st', tr) \<Longrightarrow>
     phase_block 6 10 tr \<and> issued tr = settled tr"
proof -
  assume a: "autoPlantEmptyLands cfg e st deadL emptyL n = (st', tr)"
  define t_remove where "t_remove =
     (if length deadL > 0
      then [Issue (RemovePlant deadL), Settle (RemovePlant deadL) (reply_ok e (RemovePlant deadL) 0)]
      else [])"
  obtain r t_shop where fb: "findBestSeed cfg e st (Some n) = (r, t_shop)"
    by (metis surj_pair)
  have shape: "tr = t_remove \<or> tr = t_remove @ t_shop
      \<or> (\<exists>seed ls u t. buy_plant_fertilize e st seed ls = (u, t) \<and> tr = t_remove @ t_shop @ t)"
    using a fb unfolding autoPlantEmptyLands_def t_remove_def [symmetric] Let_def
    by (auto split: if_splits attempt.splits option.splits prod.splits)
  have r: "phase_block 6 6 t_remove" and ra: "issued t_remove = settled t_remove"
    by (simp_all add: t_remove_def phase_block_def)
  have s: "phase_block 7 7 t_shop" and sa: "issued t_shop = settled t_shop"
    using findBestSeed_block [OF fb] by simp_all
  have c1: "phase_block 6 10 t_remove"
    by (rule phase_block_widen [OF r]) simp_all
  have c2: "phase_block 6 10 (t_remove @ t_shop)"
    by (rule phase_block_append [OF r phase_block_widen [OF s, of 7 10]]) simp_all
  have c3: "phase_block 6 10 (t_remove @ t_shop @ t)"
    if "buy_plant_fertilize e st seed ls = (u, t)" for seed ls u t
  proof -
    have st: "phase_block 7 10 (t_shop @ t)"
      by (rule phase_block_append [OF s conjunct1 [OF buy_plant_fertilize_block [OF that]]])
        simp_all
    show ?thesis
      by (rule phase_block_append [OF r st]) simp_all
  qed
  have blk: "phase_block 6 10 tr"
    using shape c1 c2 c3 by (elim disjE exE conjE) simp_all
  have aw: "issued tr = settled tr"
    using shape ra sa buy_plant_fertilize_block
    by (elim disjE exE conjE) (simp_all add: issued_append settled_append)
  show ?thesis
    using blk aw by simp
qed

lemma act_on_lands_block:
  "act_on_lands cfg e lands s = (s', tr) \<Longrightarrow>
     phase_block 1 10 tr \<and> mset (issued tr) = mset (settled tr)"
proof -
  assume r: "act_on_lands cfg e lands s = (s', tr)"
  let ?st = "analyzeLands cfg (env_clock e) (date_analyze e) (date_phase e) lands"
  obtain h s1 t1 where a: "harvest_step e ?st
      (s\<lparr>lastLandStats := Some (getLandTypeCounts lands)\<rparr>) = (h, s1, t1)"
    by (metis prod_cases3)
  obtain s2 t2 where b: "unlock_step cfg e ?st s1 = (s2, t2)"
    by (metis surj_pair)
  obtain f s3 t3 where c: "upgrade_step cfg e ?st s2 = (f, s3, t3)"
    by (metis prod_cases3)
  obtain u t4 where d: "(if length (allDeadLands ?st h f) > 0 \<or> length (allEmptyLands ?st) > 0
      then autoPlantEmptyLands cfg e (user s3) (allDeadLands ?st h f) (allEmptyLands ?st)
             (int (length (filter unlocked lands)))
      else (user s3, [])) = (u, t4)"
    by (metis surj_pair)
  have tr: "tr = batch_maintenance e ?st @ t1 @ t2 @ t3 @ t4"
    using r a b c d by (simp add: act_on_lands_def Let_def)
  have p4: "phase_block 6 10 t4 \<and> issued t4 = settled t4"
    using d autoPlantEmptyLands_block
    by (auto simp: phase_block_Nil split: if_splits)
  have p3: "phase_block 5 10 (t3 @ t4)"
    by (rule phase_block_append [OF conjunct1 [OF upgrade_step_block [OF c]] conjunct1 [OF p4]])
      simp_all
  have p2: "phase_block 4 10 (t2 @ t3 @ t4)"
    by (rule phase_block_append [OF conjunct1 [OF unlock_step_block [OF b]] p3]) simp_all
  have p1: "phase_block 3 10 (t1 @ t2 @ t3 @ t4)"
    by (rule phase_block_append [OF conjunct1 [OF harvest_step_block [OF a]] p2]) simp_all
  have p0: "phase_block 1 10 tr"
    unfolding tr by (rule phase_block_append [OF batch_maintenance_block p1]) simp_all
  have aw: "mset (issued tr) = mset (settled tr)"
    unfolding tr
    using batch_maintenance_awaited [of e ?st] harvest_step_block [OF a]
      unlock_step_block [OF b] upgrade_step_block [OF c] p4
    by (simp add: issued_append settled_append)
  show ?thesis
    using p0 aw by simp
qed

lemma checkFarm_try_block:
  "checkFarm_try cfg e s = (s', tr) \<Longrightarrow>
     phase_block 0 10 tr \<and> mset (issued tr) = mset (settled tr)"
proof -
  assume a: "checkFarm_try cfg e s = (s', tr)"
  have shape: "(\<exists>b. tr = [Issue AllLands, Settle AllLands b])
     \<or> (\<exists>lands u t. act_on_lands cfg e lands s = (u, t)
           \<and> tr = [Issue AllLands, Settle AllLands True] @ t)"
    using a by (auto simp: checkFarm_try_def Let_def split: if_splits option.splits prod.splits)
  have h: "phase_block 0 0 [Issue AllLands, Settle AllLands b]" for b
    by (simp add: phase_block_def)
  have c2: "phase_block 0 10 ([Issue AllLands, Settle AllLands True] @ t)
            \<and> mset (issued ([Issue AllLands, Settle AllLands True] @ t))
              = mset (settled ([Issue AllLands, Settle AllLands True] @ t))"
    if "act_on_lands cfg e lands s = (u, t)" for lands u t
  proof -
    have "phase_block 0 10 ([Issue AllLands, Settle AllLands True] @ t)"
      by (rule phase_block_append [OF h conjunct1 [OF act_on_lands_block [OF that]]]) simp_all
    then show ?thesis
      using act_on_lands_block [OF that] by simp
  qed
  show ?thesis
    using shape c2 by (elim disjE exE conjE) (simp_all add: phase_block_def)
qed

lemma phase_block_filter_all:
  "phase_block lo hi tr \<Longrightarrow> hi \<le> k \<Longrightarrow> filter (\<lambda>ev. step_rank ev \<le> k) tr = tr"
  by (fastforce simp: phase_block_def filter_id_conv)

lemma phase_block_filter_none:
  "phase_block lo hi tr \<Longrightarrow> k < lo \<Longrightarrow> filter (\<lambda>ev. step_rank ev \<le> k) tr = []"
  by (fastforce simp: phase_block_def filter_empty_conv)

lemma act_on_lands_shape:
  assumes "act_on_lands cfg e lands s = (s', tr)"
    and "status = analyzeLands cfg (env_clock e) (date_analyze e) (date_phase e) lands"
  shows "\<exists>h s1 t1 s2 t2 f s3 t3 u t4.
           harvest_step e status (s\<lparr>lastLandStats := Some (getLandTypeCounts lands)\<rparr>) = (h, s1, t1)
           \<and> unlock_step cfg e status s1 = (s2, t2)
           \<and> upgrade_step cfg e status s2 = (f, s3, t3)
           \<and> (if length (allDeadLands status h f) > 0 \<or> length (allEmptyLands status) > 0
               then autoPlantEmptyLands cfg e (user s3) (allDeadLands status h f)
                      (allEmptyLands status) (int (length (filter unlocked lands)))
               else (user s3, [])) = (u, t4)
           \<and> tr = batch_maintenance e status @ t1 @ t2 @ t3 @ t4
           \<and> s' = s3\<lparr>user := u\<rparr>"
proof -
  obtain h s1 t1 where a: "harvest_step e status
      (s\<lparr>lastLandStats := Some (getLandTypeCounts lands)\<rparr>) = (h, s1, t1)"
    by (metis prod_cases3)
  obtain s2 t2 where b: "unlock_step cfg e status s1 = (s2, t2)"
    by (metis surj_pair)
  obtain f s3 t3 where c: "upgrade_step cfg e status s2 = (f, s3, t3)"
    by (metis prod_cases3)
  obtain u t4 where d: "(if length (allDeadLands status h f) > 0 \<or> length (allEmptyLands status) > 0
      then autoPlantEmptyLands cfg e (user s3) (allDeadLands status h f) (allEmptyLands status)
             (int (length (filter unlocked lands)))
      else (user s3, [])) = (u, t4)"
    by (metis surj_pair)
  have "tr = batch_maintenance e status @ t1 @ t2 @ t3 @ t4 \<and> s' = s3\<lparr>user := u\<rparr>"
    using assms a b c d by (auto simp: act_on_lands_def Let_def)
  then show ?thesis
    using a b c d by blast
qed

lemma checkFarm_run:
  assumes "\<not> isCheckingFarm s" "gid (user s) \<noteq> 0" "reply_ok e AllLands 0"
    "lands_reply e = Some lands" "lands \<noteq> []"
  shows "snd (checkFarm cfg e s) =
           [Issue AllLands, Settle AllLands True]
           @ snd (act_on_lands cfg e lands (s\<lparr>isCheckingFarm := True\<rparr>))"
  using assms by (simp add: checkFarm_def checkFarm_try_def split_beta)

lemma issued_harvest_step:
  "harvest_step e status s = (h, s', tr) \<Longrightarrow>
     issued tr = (if harvestable status = [] then [] else [Harvest (harvestable status)])"
  by (auto simp: harvest_step_def Let_def split: if_splits)

lemma issued_batch_maintenance: "issued (batch_maintenance e status) = batch_calls status"
  by (simp add: batch_maintenance_def Let_def issued_append issued_map_Issue issued_map_Settle)

lemma available_example:
  "available_seeds 5 [example_goods] =
     [\<lparr>goods_of = example_goods, goodsId = 9, seedId = 20002, price = 10, requiredLevel = 1\<rparr>]"
  by (simp add: example_goods_def toNum_def)

lemma checkFarm_example:
  "snd (checkFarm example_config example_env example_state) =
     [Issue AllLands, Settle AllLands True,
      Issue (WaterLand [4]), Settle (WaterLand [4]) True,
      Issue (Harvest [2]), Settle (Harvest [2]) True,
      Issue (RemovePlant [1, 2]), Settle (RemovePlant [1, 2]) True,
      Issue (ShopInfo 2), Settle (ShopInfo 2) True,
      Issue (BuyGoods 9 3 10), Settle (BuyGoods 9 3 10) True,
      Issue (Plant 20002 3), Settle (Plant 20002 3) True,
      Issue (Plant 20002 1), Settle (Plant 20002 1) True,
      Issue (Plant 20002 2), Settle (Plant 20002 2) True,
      Issue (Fertilize 3 1011), Settle (Fertilize 3 1011) True,
      Issue (Fertilize 1 1011), Settle (Fertilize 1 1011) True,
      Issue (Fertilize 2 1011), Settle (Fertilize 2 1011) True]"
proof -
  have env: "reply_ok example_env = (\<lambda>c k. True)" "settle_seed example_env = 0"
    "lands_reply example_env = Some example_lands" "goods_list example_env = Some [example_goods]"
    "get_items example_env = []" "cost_items example_env = []"
    "recommendation example_env = (\<lambda>lvl n. None)" "env_clock example_env = example_clock"
    "date_analyze example_env = 200000" "date_phase example_env = (\<lambda>k. 200000)"
    by (simp_all add: example_env_def)
  have cfg: "autoExpandLand example_config = False" "autoUpgradeRedLand example_config = False"
    "preferredSeedId example_config = 0" "forceLowestLevelCrop example_config = False"
    by (simp_all add: example_config_def)
  have st: "isCheckingFarm example_state = False" "user example_state = \<lparr>gid = 1, user_level = 5, gold = 1000\<rparr>"
    by (simp_all add: example_state_def)
  have len: "example_lands \<noteq> []" by (simp add: example_lands_def)
  show ?thesis
    by (simp add: checkFarm_def checkFarm_try_def act_on_lands_def env cfg st len
        analyzeLands_example batch_maintenance_def batch_calls_def harvest_step_def
        unlock_step_def upgrade_step_def allDeadLands_def allEmptyLands_def
        autoPlantEmptyLands_def findBestSeed_def select_seed_def available_example
        buy_plant_fertilize_def SEED_SHOP_ID_def NORMAL_FERTILIZER_ID_def Let_def
        example_goods_def toNum_def)
qed


section \<open>Harvest and the upgrade cooldown\<close>

lemma fold_delete_apply:
  "fold (\<lambda>i m. m(i := None)) ids m k = (if k \<in> set ids then None else m k)"
  by (induction ids arbitrary: m) auto

lemma Issue_in_set: "Issue c \<in> set tr \<longleftrightarrow> c \<in> set (issued tr)"
  by (induction tr rule: issued.induct) auto

lemma upgradeLand_issued: "issued (snd (upgradeLand e k ids)) = map UpgradeLand ids"
  by (induction ids arbitrary: k) (simp_all add: Let_def split_beta)

lemma unlockLand_issued: "issued (snd (unlockLand e k ids)) = map UnlockLand ids"
  by (induction ids arbitrary: k) (simp_all add: Let_def split_beta)

lemma unlock_step_upgrade_map:
  "unlock_step cfg e status s = (s', tr) \<Longrightarrow> upgradeRetryCooldown s' = upgradeRetryCooldown s"
  by (auto simp: unlock_step_def Let_def split_beta split: if_splits)

lemma harvest_step_effect:
  "harvest_step e status s = (h, s', tr) \<Longrightarrow>
     h = (if Settle (Harvest (harvestable status)) True \<in> set tr then harvestable status else [])
     \<and> upgradeRetryCooldown s' = fold (\<lambda>i m. m(i := None)) h (upgradeRetryCooldown s)
     \<and> unlockRetryCooldown s' = unlockRetryCooldown s"
  by (auto simp: harvest_step_def Let_def split: if_splits)

lemma upgrade_step_issued:
  "upgrade_step cfg e status s = (f, s', tr) \<Longrightarrow>
     issued tr =
       (if autoUpgradeRedLand cfg
        then map UpgradeLand (filter (retry_allowed (upgradeRetryCooldown s) (date_upgrade_now e))
               (eligibleForUpgrade status))
        else [])"
  by (auto simp: upgrade_step_def Let_def split_beta upgradeLand_issued split: if_splits)

text \<open>
  C5. When the harvest request of a cycle is fulfilled, the entry of every harvested
  plot is removed from the upgrade cooldown map in the harvest block itself, so the plot
  passes the cooldown test whatever failure was recorded before, and with upgrading
  switched on an upgrade request is issued in the same cycle for every harvested plot
  that is an upgrade candidate. The entries of the plots that were not harvested and the
  whole unlock cooldown map are as before the harvest block. The three premises are the
  harvest, unlock and upgrade blocks in the order \<open>act_on_lands\<close> runs them.
\<close>

theorem harvest_clears_upgrade_cooldown:
  assumes "harvest_step e status s = (harvested, s1, t1)"
    and "unlock_step cfg e status s1 = (s2, t2)"
    and "upgrade_step cfg e status s2 = (failed, s3, t3)"
  shows "harvested =
           (if Settle (Harvest (harvestable status)) True \<in> set t1 then harvestable status else [])
         \<and> (\<forall>i \<in> set harvested.
               upgradeRetryCooldown s1 i = None \<and> retry_allowed (upgradeRetryCooldown s1) now i)
         \<and> (\<forall>i. i \<notin> set harvested \<longrightarrow> upgradeRetryCooldown s1 i = upgradeRetryCooldown s i)
         \<and> unlockRetryCooldown s1 = unlockRetryCooldown s
         \<and> (\<forall>i \<in> set harvested.
               autoUpgradeRedLand cfg \<and> i \<in> set (eligibleForUpgrade status)
               \<longrightarrow> Issue (UpgradeLand i) \<in> set t3)"
proof -
  note h = harvest_step_effect [OF assms(1)]
  have m: "upgradeRetryCooldown s1 i = (if i \<in> set harvested then None else upgradeRetryCooldown s i)"
    for i
    using h by (simp add: fold_delete_apply)
  have m2: "upgradeRetryCooldown s2 = upgradeRetryCooldown s1"
    by (rule unlock_step_upgrade_map [OF assms(2)])
  have u: "Issue (UpgradeLand i) \<in> set t3"
    if "i \<in> set harvested" "autoUpgradeRedLand cfg" "i \<in> set (eligibleForUpgrade status)" for i
  proof -
    have "retry_allowed (upgradeRetryCooldown s2) (date_upgrade_now e) i"
      using that(1) m m2 by (simp add: retry_allowed_def)
    then show ?thesis
      using that upgrade_step_issued [OF assms(3)] by (simp add: Issue_in_set)
  qed
  have c1: "harvested =
      (if Settle (Harvest (harvestable status)) True \<in> set t1 then harvestable status else [])"
    using h by simp
  have c2: "\<forall>i \<in> set harvested.
      upgradeRetryCooldown s1 i = None \<and> retry_allowed (upgradeRetryCooldown s1) now i"
    by (simp add: m retry_allowed_def)
  have c3: "\<forall>i. i \<notin> set harvested \<longrightarrow> upgradeRetryCooldown s1 i = upgradeRetryCooldown s i"
    by (simp add: m)
  have c4: "unlockRetryCooldown s1 = unlockRetryCooldown s"
    using h by simp
  have c5: "\<forall>i \<in> set harvested.
      autoUpgradeRedLand cfg \<and> i \<in> set (eligibleForUpgrade status)
      \<longrightarrow> Issue (UpgradeLand i) \<in> set t3"
    using u by blast
  show ?thesis
    by (intro conjI c1 c2 c3 c4 c5)
qed

theorem harvest_clears_upgrade_cooldown_witness:
  "harvest_step example_env example_status7 example_state7 =
     ([7], example_state7\<lparr>upgradeRetryCooldown := Map.empty\<rparr>,
      [Issue (Harvest [7]), Settle (Harvest [7]) True])
   \<and> \<not> retry_allowed (upgradeRetryCooldown example_state7) (date_upgrade_now example_env) 7
   \<and> retry_allowed Map.empty (date_upgrade_now example_env) (7::int)
   \<and> unlockRetryCooldown (example_state7\<lparr>upgradeRetryCooldown := Map.empty\<rparr>)
       = unlockRetryCooldown example_state7
   \<and> autoUpgradeRedLand example_config7
   \<and> Issue (UpgradeLand 7) \<in> set (snd (snd (upgrade_step example_config7 example_env
         example_status7 (example_state7\<lparr>upgradeRetryCooldown := Map.empty\<rparr>))))"
proof -
  have a: "harvest_step example_env example_status7 example_state7 =
     ([7], example_state7\<lparr>upgradeRetryCooldown := Map.empty\<rparr>,
      [Issue (Harvest [7]), Settle (Harvest [7]) True])"
    by (simp add: harvest_step_def example_env_def example_status7_def example_state7_def
        empty_analysis_def Let_def)
  have b: "unlock_step example_config7 example_env example_status7
             (example_state7\<lparr>upgradeRetryCooldown := Map.empty\<rparr>)
           = (example_state7\<lparr>upgradeRetryCooldown := Map.empty\<rparr>, [])"
    by (simp add: unlock_step_def example_config7_def example_config_def)
  have c: "upgrade_step example_config7 example_env example_status7
             (example_state7\<lparr>upgradeRetryCooldown := Map.empty\<rparr>)
           = (fst (upgrade_step example_config7 example_env example_status7
                (example_state7\<lparr>upgradeRetryCooldown := Map.empty\<rparr>)),
              fst (snd (upgrade_step example_config7 example_env example_status7
                (example_state7\<lparr>upgradeRetryCooldown := Map.empty\<rparr>))),
              snd (snd (upgrade_step example_config7 example_env example_status7
                (example_state7\<lparr>upgradeRetryCooldown := Map.empty\<rparr>))))"
    by simp
  have d: "\<not> retry_allowed (upgradeRetryCooldown example_state7) (date_upgrade_now example_env) 7"
    by (simp add: retry_allowed_def example_state7_def example_env_def
        EXPAND_RETRY_INTERVAL_MS_def)
  have f: "autoUpgradeRedLand example_config7 \<and> 7 \<in> set (eligibleForUpgrade example_status7)"
    by (simp add: example_config7_def example_status7_def)
  show ?thesis
    using a d f harvest_clears_upgrade_cooldown [OF a b c, of "date_upgrade_now example_env"]
    by simp
qed

section \<open>The replant pipeline\<close>

lemma phase_block_mem:
  "phase_block lo hi tr \<Longrightarrow> ev \<in> set tr \<Longrightarrow> lo \<le> step_rank ev \<and> step_rank ev \<le> hi"
  by (simp add: phase_block_def)

lemma harvested_of_rank: "step_rank ev \<noteq> 3 \<Longrightarrow> harvested_of ev = []"
  by (cases ev rule: step_rank.cases) (simp_all add: harvested_of_def)

lemma failed_upgrade_of_rank: "step_rank ev \<noteq> 5 \<Longrightarrow> failed_upgrade_of ev = []"
  by (cases ev rule: step_rank.cases) (simp_all add: failed_upgrade_of_def)

lemma harvested_in_none:
  "phase_block lo hi tr \<Longrightarrow> hi < 3 \<or> 3 < lo \<Longrightarrow> harvested_in tr = []"
  by (fastforce simp: harvested_in_def phase_block_def intro: harvested_of_rank)

lemma failed_upgrades_in_none:
  "phase_block lo hi tr \<Longrightarrow> hi < 5 \<or> 5 < lo \<Longrightarrow> failed_upgrades_in tr = []"
  by (fastforce simp: failed_upgrades_in_def phase_block_def intro: failed_upgrade_of_rank)

lemma harvested_in_append: "harvested_in (t1 @ t2) = harvested_in t1 @ harvested_in t2"
  by (simp add: harvested_in_def)

lemma failed_upgrades_in_append:
  "failed_upgrades_in (t1 @ t2) = failed_upgrades_in t1 @ failed_upgrades_in t2"
  by (simp add: failed_upgrades_in_def)

lemma harvested_in_harvest_step:
  "harvest_step e status s = (h, s', tr) \<Longrightarrow> harvested_in tr = h"
  by (auto simp: harvest_step_def Let_def harvested_in_def harvested_of_def split: if_splits)

lemma failed_upgrades_in_upgradeLand:
  "failed_upgrades_in (snd (upgradeLand e k ids)) = failedIds (fst (upgradeLand e k ids))"
  by (induction ids arbitrary: k)
     (simp_all add: Let_def split_beta failed_upgrades_in_def failed_upgrade_of_def)

lemma failed_upgrades_in_upgrade_step:
  "upgrade_step cfg e status s = (f, s', tr) \<Longrightarrow> failed_upgrades_in tr = f"
proof -
  assume a: "upgrade_step cfg e status s = (f, s', tr)"
  have "(f = [] \<and> tr = []) \<or>
        (\<exists>ids. f = failedIds (fst (upgradeLand e 0 ids)) \<and> tr = snd (upgradeLand e 0 ids))"
    using a by (auto simp: upgrade_step_def Let_def split_beta split: if_splits)
  then show ?thesis
    by (auto simp: failed_upgrades_in_upgradeLand) (simp add: failed_upgrades_in_def)
qed

lemma plantSeeds_issued: "issued (snd (plantSeeds e k sd ids)) = map (Plant sd) ids"
  by (induction ids arbitrary: k) (simp_all add: Let_def split_beta)

lemma buy_plant_fertilize_plants:
  assumes "buy_plant_fertilize e st seed ls = (u, t)" and "Issue (Plant sd i) \<in> set t"
  shows "i \<in> set ls"
proof -
  let ?c = "BuyGoods (goodsId seed) (int (length ls)) (price seed)"
  have shape: "t = [Issue ?c, Settle ?c False]
        \<or> (\<exists>sd ps. t = [Issue ?c, Settle ?c True] @ snd (plantSeeds e 0 sd ls)
                         @ snd (fertilize e 0 ps NORMAL_FERTILIZER_ID))
        \<or> (\<exists>sd. t = [Issue ?c, Settle ?c True] @ snd (plantSeeds e 0 sd ls))"
    using assms(1) by (auto simp: buy_plant_fertilize_def Let_def split_beta split: if_splits)
  have nf: "Issue (Plant sd i) \<notin> set (snd (fertilize e 0 ps NORMAL_FERTILIZER_ID))" for ps
    using fertilize_rank [of e 0 ps NORMAL_FERTILIZER_ID] by fastforce
  have pl: "Issue (Plant sd i) \<in> set (snd (plantSeeds e 0 sd' ls)) \<Longrightarrow> i \<in> set ls" for sd'
    by (auto simp: Issue_in_set plantSeeds_issued)
  show ?thesis
    using shape assms(2) nf pl by (elim disjE exE) auto
qed

lemma autoPlantEmptyLands_targets:
  assumes "autoPlantEmptyLands cfg e st deadL emptyL n = (st', tr)"
  shows "(\<forall>ids. Issue (RemovePlant ids) \<in> set tr \<longrightarrow> ids = deadL)
         \<and> (deadL \<noteq> [] \<longrightarrow> Issue (RemovePlant deadL) \<in> set tr)
         \<and> (\<forall>sd i. Issue (Plant sd i) \<in> set tr \<longrightarrow> i \<in> set emptyL \<union> set deadL)"
proof -
  define t_remove where "t_remove =
     (if length deadL > 0
      then [Issue (RemovePlant deadL), Settle (RemovePlant deadL) (reply_ok e (RemovePlant deadL) 0)]
      else [])"
  obtain r t_shop where fb: "findBestSeed cfg e st (Some n) = (r, t_shop)"
    by (metis surj_pair)
  have shape0: "tr = t_remove \<or> tr = t_remove @ t_shop
      \<or> (\<exists>seed u t. buy_plant_fertilize e st seed (emptyL @ deadL) = (u, t)
            \<and> tr = t_remove @ t_shop @ t)
      \<or> (\<exists>seed k u t. buy_plant_fertilize e st seed (take k (emptyL @ deadL)) = (u, t)
            \<and> tr = t_remove @ t_shop @ t)"
    using assms fb unfolding autoPlantEmptyLands_def t_remove_def [symmetric] Let_def
    by (auto split: if_splits attempt.splits option.splits prod.splits)
  have sub: "set (take k (emptyL @ deadL)) \<subseteq> set emptyL \<union> set deadL" for k
    using set_take_subset [of k "emptyL @ deadL"] by simp
  have shape: "tr = t_remove \<or> tr = t_remove @ t_shop
      \<or> (\<exists>seed ls u t. buy_plant_fertilize e st seed ls = (u, t)
            \<and> set ls \<subseteq> set emptyL \<union> set deadL \<and> tr = t_remove @ t_shop @ t)"
  proof -
    have "\<exists>seed ls u t. buy_plant_fertilize e st seed ls = (u, t)
            \<and> set ls \<subseteq> set emptyL \<union> set deadL \<and> tr = t_remove @ t_shop @ t"
      if "buy_plant_fertilize e st seed (emptyL @ deadL) = (u, t)" "tr = t_remove @ t_shop @ t"
      for seed u t
      using that by (intro exI [of _ seed] exI [of _ "emptyL @ deadL"] exI [of _ u] exI [of _ t]) simp
    moreover have "\<exists>seed ls u t. buy_plant_fertilize e st seed ls = (u, t)
            \<and> set ls \<subseteq> set emptyL \<union> set deadL \<and> tr = t_remove @ t_shop @ t"
      if "buy_plant_fertilize e st seed (take k (emptyL @ deadL)) = (u, t)"
        "tr = t_remove @ t_shop @ t"
      for seed k u t
      using that sub [of k]
      by (intro exI [of _ seed] exI [of _ "take k (emptyL @ deadL)"] exI [of _ u] exI [of _ t]) simp
    ultimately show ?thesis
      using shape0 by (elim disjE exE conjE) simp_all
  qed
  have s: "phase_block 7 7 t_shop"
    using findBestSeed_block [OF fb] by simp
  have rm: "Issue (RemovePlant ids) \<in> set t_remove \<longleftrightarrow> deadL \<noteq> [] \<and> ids = deadL" for ids
    by (auto simp: t_remove_def)
  have np: "Issue (Plant sd i) \<notin> set t_remove" for sd i
    by (simp add: t_remove_def)
  have ns: "Issue (RemovePlant ids) \<notin> set t_shop" "Issue (Plant sd i) \<notin> set t_shop" for ids sd i
    using phase_block_mem [OF s] by fastforce+
  have nb: "Issue (RemovePlant ids) \<notin> set t"
    if "buy_plant_fertilize e st seed ls = (u, t)" for seed ls u t ids
    using phase_block_mem [OF conjunct1 [OF buy_plant_fertilize_block [OF that]]] by fastforce
  have c1: "\<forall>ids. Issue (RemovePlant ids) \<in> set tr \<longrightarrow> ids = deadL"
    using shape rm ns nb by (elim disjE exE conjE) auto
  have c2: "deadL \<noteq> [] \<longrightarrow> Issue (RemovePlant deadL) \<in> set tr"
    using shape rm by (elim disjE exE conjE) auto
  have c3: "\<forall>sd i. Issue (Plant sd i) \<in> set tr \<longrightarrow> i \<in> set emptyL \<union> set deadL"
    using shape np ns buy_plant_fertilize_plants by (elim disjE exE conjE) (auto, blast)
  show ?thesis
    by (intro conjI c1 c2 c3)
qed

lemma Settle_harvest_in_harvest_step:
  "harvest_step e status s = (h, s', tr) \<Longrightarrow>
     h = (if Settle (Harvest (harvestable status)) True \<in> set tr then harvestable status else [])"
  by (auto simp: harvest_step_def Let_def split: if_splits)

section \<open>Planting and fertilizing\<close>

text \<open>
  The fertilizing loop stops at the first rejected request: with \<open>n\<close> fulfilled
  requests, requests went to the first \<open>n + 1\<close> plots at most. The planting loop sends
  a request for every plot (\<open>plantSeeds_issued\<close>).
\<close>

lemma fertilize_stops:
  "issued (snd (fertilize e k ids f))
     = map (\<lambda>i. Fertilize i f) (take (Suc (fst (fertilize e k ids f))) ids)
   \<and> fst (fertilize e k ids f) \<le> length ids"
  by (induction ids arbitrary: k) (simp_all add: Let_def split_beta)

lemma analyzeLands_example2:
  "analyzeLands example_config example_clock 200000 (\<lambda>k. 200000) example_lands2 =
     empty_analysis\<lparr>empty_lands := [1, 2]\<rparr>"
  by (simp add: analyzeLands_def analyze_land_def empty_analysis_def example_lands2_def
      example_land_def toNum_def Let_def)

text \<open>
  C6. The fertilizing step is meant for the plots whose planting request was fulfilled.
  The code hands \<open>fertilize\<close> the first \<open>planted\<close> plots of \<open>landsToPlant\<close>, where
  \<open>planted\<close> is the number of fulfilled planting requests. In the run below planting
  is rejected for plot 1 and fulfilled for plot 2: the fertilizing request goes to plot 1
  and none goes to plot 2.
\<close>

theorem fertilize_after_failed_plant:
  "snd (checkFarm example_config example_env2 example_state) =
     [Issue AllLands, Settle AllLands True,
      Issue (ShopInfo 2), Settle (ShopInfo 2) True,
      Issue (BuyGoods 9 2 10), Settle (BuyGoods 9 2 10) True,
      Issue (Plant 20002 1), Settle (Plant 20002 1) False,
      Issue (Plant 20002 2), Settle (Plant 20002 2) True,
      Issue (Fertilize 1 1011), Settle (Fertilize 1 1011) True]"
proof -
  have env: "reply_ok example_env2 = (\<lambda>c k. c \<noteq> Plant 20002 1)" "settle_seed example_env2 = 0"
    "lands_reply example_env2 = Some example_lands2"
    "goods_list example_env2 = Some [example_goods]"
    "get_items example_env2 = []" "cost_items example_env2 = []"
    "recommendation example_env2 = (\<lambda>lvl n. None)" "env_clock example_env2 = example_clock"
    "date_analyze example_env2 = 200000" "date_phase example_env2 = (\<lambda>k. 200000)"
    by (simp_all add: example_env2_def example_env_def)
  have cfg: "autoExpandLand example_config = False" "autoUpgradeRedLand example_config = False"
    "preferredSeedId example_config = 0" "forceLowestLevelCrop example_config = False"
    by (simp_all add: example_config_def)
  have st: "isCheckingFarm example_state = False"
    "user example_state = \<lparr>gid = 1, user_level = 5, gold = 1000\<rparr>"
    by (simp_all add: example_state_def)
  have len: "example_lands2 \<noteq> []" by (simp add: example_lands2_def)
  show ?thesis
    by (simp add: checkFarm_def checkFarm_try_def act_on_lands_def env cfg st len
        analyzeLands_example2 empty_analysis_def batch_maintenance_def batch_calls_def
        harvest_step_def unlock_step_def upgrade_step_def allDeadLands_def allEmptyLands_def
        autoPlantEmptyLands_def findBestSeed_def select_seed_def
        buy_plant_fertilize_def SEED_SHOP_ID_def NORMAL_FERTILIZER_ID_def Let_def
        example_goods_def toNum_def)
qed

section \<open>Properties of the seed selector\<close>

lemma hd_sort_key:
  "xs \<noteq> [] \<Longrightarrow> hd (sort_key f xs) \<in> set xs \<and> (\<forall>y \<in> set xs. f (hd (sort_key f xs)) \<le> f y)"
proof -
  assume ne: "xs \<noteq> []"
  let ?ys = "sort_key f xs"
  have n: "?ys \<noteq> []" using ne by (metis length_sort length_0_conv)
  then obtain z zs where z: "?ys = z # zs" by (cases ?ys) auto
  have "sorted (map f ?ys)" by (rule sorted_sort_key)
  then have "\<forall>y \<in> set ?ys. f z \<le> f y" using z by auto
  moreover have "set ?ys = set xs" by simp
  ultimately show ?thesis using z by (metis list.sel(1) list.set_intros(1))
qed

lemma find_Some_mem: "find P xs = Some x \<Longrightarrow> x \<in> set xs \<and> P x"
  by (induction xs) (auto split: if_splits)

lemma find_None_iff2: "find P xs = None \<longleftrightarrow> (\<forall>x \<in> set xs. \<not> P x)"
  by (induction xs) auto

lemma first_hit_mem: "first_hit ids av = Some x \<Longrightarrow> x \<in> set av \<and> seedId x \<in> set ids"
  by (induction ids) (auto split: option.splits dest: find_Some_mem)

lemma first_hit_None: "first_hit ids av = None \<longleftrightarrow> (\<forall>x \<in> set av. seedId x \<notin> set ids)"
  by (induction ids) (auto simp: find_None_iff2 split: option.splits dest: find_Some_mem)

lemma select_seed_Nil: "select_seed cfg st ranked [] = None"
  by (simp add: select_seed_def)

lemma hd_sort_key_mem: "xs \<noteq> [] \<Longrightarrow> hd (sort_key f xs) \<in> set xs"
  by (simp add: hd_sort_key)

lemma select_seed_mem:
  "av \<noteq> [] \<Longrightarrow> \<exists>x \<in> set av. select_seed cfg st ranked av = Some x"
  by (auto simp: select_seed_def hd_sort_key_mem split: option.splits
      dest: find_Some_mem first_hit_mem)

lemma select_seed_pinned:
  "preferredSeedId cfg \<noteq> 0 \<Longrightarrow> \<exists>x \<in> set av. seedId x = preferredSeedId cfg \<Longrightarrow>
   \<exists>x \<in> set av. select_seed cfg st ranked av = Some x \<and> seedId x = preferredSeedId cfg"
  by (cases "find (\<lambda>x. seedId x = preferredSeedId cfg) av")
     (auto simp: select_seed_def find_None_iff2 dest: find_Some_mem)

lemma no_pin_find:
  "preferredSeedId cfg = 0 \<or> (\<forall>x \<in> set av. seedId x \<noteq> preferredSeedId cfg) \<Longrightarrow>
   (if preferredSeedId cfg \<noteq> 0 then find (\<lambda>x. seedId x = preferredSeedId cfg) av else None)
     = None"
  by (auto simp: find_None_iff2)

lemma no_rank_hit:
  "ranked = None \<or> (\<exists>ids. ranked = Some ids \<and> (\<forall>x \<in> set av. seedId x \<notin> set ids)) \<Longrightarrow>
   (case ranked of None \<Rightarrow> None | Some ids \<Rightarrow> first_hit ids av) = None"
  by (auto simp: first_hit_None)

lemma select_seed_force:
  assumes "av \<noteq> []"
    and "preferredSeedId cfg = 0 \<or> (\<forall>x \<in> set av. seedId x \<noteq> preferredSeedId cfg)"
    and "forceLowestLevelCrop cfg"
  shows "\<exists>x \<in> set av. select_seed cfg st ranked av = Some x
           \<and> (\<forall>y \<in> set av. requiredLevel x < requiredLevel y
                  \<or> (requiredLevel x = requiredLevel y \<and> price x \<le> price y))"
proof -
  let ?x = "hd (sort_key (\<lambda>x. (requiredLevel x, price x)) av)"
  have "select_seed cfg st ranked av = Some ?x"
    using assms(1,3) no_pin_find [OF assms(2)] by (simp add: select_seed_def)
  moreover have "?x \<in> set av"
    and "\<forall>y \<in> set av. (requiredLevel ?x, price ?x) \<le> (requiredLevel y, price y)"
    using hd_sort_key [OF assms(1), of "\<lambda>x. (requiredLevel x, price x)"] by simp_all
  ultimately show ?thesis
    by (intro bexI [of _ ?x]) (auto simp: less_eq_prod_def)
qed

lemma select_seed_fallback_low:
  assumes "av \<noteq> []"
    and "preferredSeedId cfg = 0 \<or> (\<forall>x \<in> set av. seedId x \<noteq> preferredSeedId cfg)"
    and "\<not> forceLowestLevelCrop cfg"
    and "ranked = None \<or> (\<exists>ids. ranked = Some ids \<and> (\<forall>x \<in> set av. seedId x \<notin> set ids))"
    and "user_level st \<noteq> 0" "user_level st \<le> 28"
  shows "\<exists>x \<in> set av. select_seed cfg st ranked av = Some x
           \<and> (\<forall>y \<in> set av. requiredLevel x \<le> requiredLevel y)"
proof -
  let ?x = "hd (sort_key requiredLevel av)"
  have "select_seed cfg st ranked av = Some ?x"
    using assms(1,3,5,6) no_pin_find [OF assms(2)] no_rank_hit [OF assms(4)]
    by (simp add: select_seed_def)
  then show ?thesis
    using hd_sort_key [OF assms(1), of requiredLevel] by (intro bexI [of _ ?x]) simp_all
qed

lemma select_seed_fallback_high:
  assumes "av \<noteq> []"
    and "preferredSeedId cfg = 0 \<or> (\<forall>x \<in> set av. seedId x \<noteq> preferredSeedId cfg)"
    and "\<not> forceLowestLevelCrop cfg"
    and "ranked = None \<or> (\<exists>ids. ranked = Some ids \<and> (\<forall>x \<in> set av. seedId x \<notin> set ids))"
    and "user_level st = 0 \<or> 28 < user_level st"
  shows "\<exists>x \<in> set av. select_seed cfg st ranked av = Some x
           \<and> (\<forall>y \<in> set av. requiredLevel y \<le> requiredLevel x)"
proof -
  let ?x = "hd (sort_key (\<lambda>x. - requiredLevel x) av)"
  have "select_seed cfg st ranked av = Some ?x"
    using assms(1,3,5) no_pin_find [OF assms(2)] no_rank_hit [OF assms(4)]
    by (auto simp: select_seed_def)
  then show ?thesis
    using hd_sort_key [OF assms(1), of "\<lambda>x. - requiredLevel x"]
    by (intro bexI [of _ ?x]) simp_all
qed

lemma findBestSeed_result:
  "reply_ok e (ShopInfo SEED_SHOP_ID) 0 \<Longrightarrow>
   fst (findBestSeed cfg e st n) =
     Returned (select_seed cfg st
       (recommendation e (user_level st) (case n of None \<Rightarrow> 18 | Some k \<Rightarrow> k))
       (available_seeds (user_level st) (case goods_list e of None \<Rightarrow> [] | Some gl \<Rightarrow> gl)))"
  by (auto simp: findBestSeed_def Let_def select_seed_def split: option.splits)

lemma available_seeds_filtered:
  "x \<in> set (available_seeds lvl gl) \<Longrightarrow>
     goods_of x \<in> set gl \<and> goods_unlocked (goods_of x)
     \<and> check_conds lvl (conds (goods_of x)) 0 = (True, requiredLevel x)
     \<and> \<not> (limit_count (goods_of x) > 0 \<and> bought_num (goods_of x) \<ge> limit_count (goods_of x))"
  by (induction gl) (auto simp: Let_def toNum_def split: if_splits prod.splits)

lemma available_example_catalog:
  "available_seeds 5 example_catalog =
     [example_choice 9 20002 10 1, example_choice 10 20003 5 1, example_choice 11 20010 50 4]"
  "available_seeds 30 example_catalog =
     [example_choice 9 20002 10 1, example_choice 10 20003 5 1, example_choice 11 20010 50 4]"
  by (simp_all add: example_catalog_def example_seed_def example_choice_def toNum_def)

section \<open>Properties of the retry cooldown\<close>

lemma unlock_step_issued:
  "unlock_step cfg e status s = (s', tr) \<Longrightarrow>
     issued tr =
       (if autoExpandLand cfg
        then map UnlockLand (filter (retry_allowed (unlockRetryCooldown s) (date_unlock_now e))
               (eligibleForUnlock status))
        else [])"
  by (auto simp: unlock_step_def Let_def split_beta unlockLand_issued split: if_splits)

section \<open>The phase resolver and the clock\<close>




lemma fold_record_apply:
  "fold (\<lambda>i m. m(i \<mapsto> t)) ids m k = (if k \<in> set ids then Some t else m k)"
  by (induction ids arbitrary: m) auto

lemma Settle_in_set: "Settle c b \<in> set tr \<Longrightarrow> c \<in> set (settled tr)"
  by (induction tr rule: settled.induct) auto

lemma unlockLand_ids:
  "set (successIds (fst (unlockLand e k ids)))
     = {i. Settle (UnlockLand i) True \<in> set (snd (unlockLand e k ids))}
   \<and> set (failedIds (fst (unlockLand e k ids)))
     = {i. Settle (UnlockLand i) False \<in> set (snd (unlockLand e k ids))}"
  by (induction ids arbitrary: k) (auto simp: Let_def split_beta)

lemma upgradeLand_ids:
  "set (successIds (fst (upgradeLand e k ids)))
     = {i. Settle (UpgradeLand i) True \<in> set (snd (upgradeLand e k ids))}
   \<and> set (failedIds (fst (upgradeLand e k ids)))
     = {i. Settle (UpgradeLand i) False \<in> set (snd (upgradeLand e k ids))}"
  by (induction ids arbitrary: k) (auto simp: Let_def split_beta)

lemma unlock_step_map:
  assumes "unlock_step cfg e status s = (s', tr)"
  shows "unlockRetryCooldown s' i =
           (if Settle (UnlockLand i) True \<in> set tr then None
            else if Settle (UnlockLand i) False \<in> set tr then Some (date_unlock_failed e)
            else unlockRetryCooldown s i)"
proof -
  have "(s' = s \<and> tr = []) \<or>
        (\<exists>ids. tr = snd (unlockLand e 0 ids)
           \<and> unlockRetryCooldown s' =
               fold (\<lambda>i m. m(i := None)) (successIds (fst (unlockLand e 0 ids)))
                 (fold (\<lambda>i m. m(i \<mapsto> date_unlock_failed e)) (failedIds (fst (unlockLand e 0 ids)))
                    (unlockRetryCooldown s)))"
    using assms by (auto simp: unlock_step_def Let_def split_beta split: if_splits)
  then show ?thesis
  proof (elim disjE exE conjE)
    assume "s' = s" "tr = []"
    then show ?thesis by simp
  next
    fix ids
    assume t: "tr = snd (unlockLand e 0 ids)"
      and m: "unlockRetryCooldown s' =
               fold (\<lambda>i m. m(i := None)) (successIds (fst (unlockLand e 0 ids)))
                 (fold (\<lambda>i m. m(i \<mapsto> date_unlock_failed e)) (failedIds (fst (unlockLand e 0 ids)))
                    (unlockRetryCooldown s))"
    show ?thesis
      using unlockLand_ids [of e 0 ids]
      unfolding m t by (simp add: fold_delete_apply fold_record_apply)
  qed
qed

lemma upgrade_step_map:
  assumes "upgrade_step cfg e status s = (f, s', tr)"
  shows "upgradeRetryCooldown s' i =
           (if Settle (UpgradeLand i) True \<in> set tr then None
            else if Settle (UpgradeLand i) False \<in> set tr then Some (date_upgrade_failed e)
            else upgradeRetryCooldown s i)"
proof -
  have "(s' = s \<and> tr = []) \<or>
        (\<exists>ids. tr = snd (upgradeLand e 0 ids)
           \<and> upgradeRetryCooldown s' =
               fold (\<lambda>i m. m(i := None)) (successIds (fst (upgradeLand e 0 ids)))
                 (fold (\<lambda>i m. m(i \<mapsto> date_upgrade_failed e)) (failedIds (fst (upgradeLand e 0 ids)))
                    (upgradeRetryCooldown s)))"
    using assms by (auto simp: upgrade_step_def Let_def split_beta split: if_splits)
  then show ?thesis
  proof (elim disjE exE conjE)
    assume "s' = s" "tr = []"
    then show ?thesis by simp
  next
    fix ids
    assume t: "tr = snd (upgradeLand e 0 ids)"
      and m: "upgradeRetryCooldown s' =
               fold (\<lambda>i m. m(i := None)) (successIds (fst (upgradeLand e 0 ids)))
                 (fold (\<lambda>i m. m(i \<mapsto> date_upgrade_failed e)) (failedIds (fst (upgradeLand e 0 ids)))
                    (upgradeRetryCooldown s))"
    show ?thesis
      using upgradeLand_ids [of e 0 ids]
      unfolding m t by (simp add: fold_delete_apply fold_record_apply)
  qed
qed

lemma retry_allowed_nonzero:
  "m i \<noteq> Some 0 \<Longrightarrow>
   retry_allowed m now i \<longleftrightarrow>
     m i = None \<or> (\<exists>t. m i = Some t \<and> now - t \<ge> 10 * 60 * 1000)"
  by (cases "m i") (auto simp: retry_allowed_def EXPAND_RETRY_INTERVAL_MS_def)

text \<open>
  C4. For both kinds of operation, a plot is attempted in a cycle if and only if it is
  a candidate and no failure timestamp is recorded for it in that kind's cooldown map,
  or at least 10 minutes have elapsed since the recorded failure. A rejected request
  records the time of the failure for the plot, a fulfilled request deletes the plot's
  entry, and every other entry stays as it is. A plot whose request was rejected at
  time \<open>t\<close> is ineligible at \<open>t\<close> + 9 minutes and eligible again at \<open>t\<close> + 11 minutes,
  and deleting its entry makes it eligible at once. The timestamps in the maps are
  readings of \<open>Date.now()\<close>, which are not \<open>0\<close>: the maps start empty, and the cycle
  keeps them free of the timestamp \<open>0\<close>.
\<close>

theorem cooldown_gates_attempts:
  assumes "unlock_step cfg e status s = (s1, t1)"
    and "upgrade_step cfg e status s = (f, s2, t2)"
    and "date_unlock_failed e \<noteq> 0" and "date_upgrade_failed e \<noteq> 0"
    and "\<forall>i. unlockRetryCooldown s i \<noteq> Some 0"
    and "\<forall>i. upgradeRetryCooldown s i \<noteq> Some 0"
  shows "issued t1 =
           (if autoExpandLand cfg
            then map UnlockLand
                   (filter (\<lambda>i. unlockRetryCooldown s i = None
                              \<or> (\<exists>t. unlockRetryCooldown s i = Some t
                                     \<and> date_unlock_now e - t \<ge> 10 * 60 * 1000))
                      (eligibleForUnlock status))
            else [])
     \<and> issued t2 =
           (if autoUpgradeRedLand cfg
            then map UpgradeLand
                   (filter (\<lambda>i. upgradeRetryCooldown s i = None
                              \<or> (\<exists>t. upgradeRetryCooldown s i = Some t
                                     \<and> date_upgrade_now e - t \<ge> 10 * 60 * 1000))
                      (eligibleForUpgrade status))
            else [])
     \<and> (\<forall>i. unlockRetryCooldown s1 i =
              (if Settle (UnlockLand i) True \<in> set t1 then None
               else if Settle (UnlockLand i) False \<in> set t1 then Some (date_unlock_failed e)
               else unlockRetryCooldown s i))
     \<and> (\<forall>i. upgradeRetryCooldown s2 i =
              (if Settle (UpgradeLand i) True \<in> set t2 then None
               else if Settle (UpgradeLand i) False \<in> set t2 then Some (date_upgrade_failed e)
               else upgradeRetryCooldown s i))
     \<and> (\<forall>i. Settle (UnlockLand i) False \<in> set t1 \<and> Settle (UnlockLand i) True \<notin> set t1
            \<longrightarrow> \<not> retry_allowed (unlockRetryCooldown s1) (date_unlock_failed e + 9 * 60 * 1000) i
                \<and> retry_allowed (unlockRetryCooldown s1) (date_unlock_failed e + 11 * 60 * 1000) i
                \<and> retry_allowed ((unlockRetryCooldown s1)(i := None)) now i)
     \<and> (\<forall>i. Settle (UpgradeLand i) False \<in> set t2 \<and> Settle (UpgradeLand i) True \<notin> set t2
            \<longrightarrow> \<not> retry_allowed (upgradeRetryCooldown s2) (date_upgrade_failed e + 9 * 60 * 1000) i
                \<and> retry_allowed (upgradeRetryCooldown s2) (date_upgrade_failed e + 11 * 60 * 1000) i
                \<and> retry_allowed ((upgradeRetryCooldown s2)(i := None)) now i)
     \<and> (\<forall>i. unlockRetryCooldown s1 i \<noteq> Some 0)
     \<and> (\<forall>i. upgradeRetryCooldown s2 i \<noteq> Some 0)
     \<and> (\<forall>m i t'. m i \<noteq> Some 0 \<longrightarrow>
            (retry_allowed m t' i \<longleftrightarrow>
               m i = None \<or> (\<exists>t. m i = Some t \<and> t' - t \<ge> 10 * 60 * 1000)))"
proof -
  have fu: "filter (retry_allowed (unlockRetryCooldown s) (date_unlock_now e)) xs
      = filter (\<lambda>i. unlockRetryCooldown s i = None
                   \<or> (\<exists>t. unlockRetryCooldown s i = Some t
                          \<and> date_unlock_now e - t \<ge> 10 * 60 * 1000)) xs" for xs
    using assms(5) by (intro filter_cong refl) (simp add: retry_allowed_nonzero)
  have fg: "filter (retry_allowed (upgradeRetryCooldown s) (date_upgrade_now e)) xs
      = filter (\<lambda>i. upgradeRetryCooldown s i = None
                   \<or> (\<exists>t. upgradeRetryCooldown s i = Some t
                          \<and> date_upgrade_now e - t \<ge> 10 * 60 * 1000)) xs" for xs
    using assms(6) by (intro filter_cong refl) (simp add: retry_allowed_nonzero)
  have c1: "issued t1 =
           (if autoExpandLand cfg
            then map UnlockLand
                   (filter (\<lambda>i. unlockRetryCooldown s i = None
                              \<or> (\<exists>t. unlockRetryCooldown s i = Some t
                                     \<and> date_unlock_now e - t \<ge> 10 * 60 * 1000))
                      (eligibleForUnlock status))
            else [])"
    using unlock_step_issued [OF assms(1)] by (simp only: fu)
  have c2: "issued t2 =
           (if autoUpgradeRedLand cfg
            then map UpgradeLand
                   (filter (\<lambda>i. upgradeRetryCooldown s i = None
                              \<or> (\<exists>t. upgradeRetryCooldown s i = Some t
                                     \<and> date_upgrade_now e - t \<ge> 10 * 60 * 1000))
                      (eligibleForUpgrade status))
            else [])"
    using upgrade_step_issued [OF assms(2)] by (simp only: fg)
  note m1 = unlock_step_map [OF assms(1)]
  note m2 = upgrade_step_map [OF assms(2)]
  have c3: "\<forall>i. unlockRetryCooldown s1 i =
              (if Settle (UnlockLand i) True \<in> set t1 then None
               else if Settle (UnlockLand i) False \<in> set t1 then Some (date_unlock_failed e)
               else unlockRetryCooldown s i)"
    using m1 by blast
  have c4: "\<forall>i. upgradeRetryCooldown s2 i =
              (if Settle (UpgradeLand i) True \<in> set t2 then None
               else if Settle (UpgradeLand i) False \<in> set t2 then Some (date_upgrade_failed e)
               else upgradeRetryCooldown s i)"
    using m2 by blast
  have c5: "\<forall>i. Settle (UnlockLand i) False \<in> set t1 \<and> Settle (UnlockLand i) True \<notin> set t1
            \<longrightarrow> \<not> retry_allowed (unlockRetryCooldown s1) (date_unlock_failed e + 9 * 60 * 1000) i
                \<and> retry_allowed (unlockRetryCooldown s1) (date_unlock_failed e + 11 * 60 * 1000) i
                \<and> retry_allowed ((unlockRetryCooldown s1)(i := None)) now i"
    using assms(3) by (simp add: m1 retry_allowed_def EXPAND_RETRY_INTERVAL_MS_def)
  have c6: "\<forall>i. Settle (UpgradeLand i) False \<in> set t2 \<and> Settle (UpgradeLand i) True \<notin> set t2
            \<longrightarrow> \<not> retry_allowed (upgradeRetryCooldown s2) (date_upgrade_failed e + 9 * 60 * 1000) i
                \<and> retry_allowed (upgradeRetryCooldown s2) (date_upgrade_failed e + 11 * 60 * 1000) i
                \<and> retry_allowed ((upgradeRetryCooldown s2)(i := None)) now i"
    using assms(4) by (simp add: m2 retry_allowed_def EXPAND_RETRY_INTERVAL_MS_def)
  have c7: "\<forall>i. unlockRetryCooldown s1 i \<noteq> Some 0"
    using assms(3,5) by (simp add: m1)
  have c8: "\<forall>i. upgradeRetryCooldown s2 i \<noteq> Some 0"
    using assms(4,6) by (simp add: m2)
  have c9: "\<forall>m i t'. m i \<noteq> Some 0 \<longrightarrow>
            (retry_allowed m t' i \<longleftrightarrow>
               m i = None \<or> (\<exists>t. m i = Some t \<and> t' - t \<ge> 10 * 60 * 1000))"
    using retry_allowed_nonzero by blast
  show ?thesis
    by (intro conjI c1 c2 c3 c4 c5 c6 c7 c8 c9)
qed

theorem cooldown_gates_attempts_witness:
  "date_unlock_failed example_env_c \<noteq> 0 \<and> date_upgrade_failed example_env_c \<noteq> 0
   \<and> (\<forall>i. unlockRetryCooldown example_state_c i \<noteq> Some 0)
   \<and> (\<forall>i. upgradeRetryCooldown example_state_c i \<noteq> Some 0)
   \<and> issued (snd (unlock_step example_config_c example_env_c example_status_c example_state_c))
       = [UnlockLand 5]
   \<and> issued (snd (snd (upgrade_step example_config_c example_env_c example_status_c
         example_state_c))) = [UpgradeLand 1]
   \<and> Settle (UnlockLand 5) False
       \<in> set (snd (unlock_step example_config_c example_env_c example_status_c example_state_c))
   \<and> Settle (UnlockLand 5) True
       \<notin> set (snd (unlock_step example_config_c example_env_c example_status_c example_state_c))
   \<and> unlockRetryCooldown
        (fst (unlock_step example_config_c example_env_c example_status_c example_state_c)) 5
       = Some 200001
   \<and> \<not> retry_allowed (unlockRetryCooldown
        (fst (unlock_step example_config_c example_env_c example_status_c example_state_c)))
        (200001 + 9 * 60 * 1000) 5
   \<and> retry_allowed (unlockRetryCooldown
        (fst (unlock_step example_config_c example_env_c example_status_c example_state_c)))
        (200001 + 11 * 60 * 1000) 5
   \<and> Settle (UpgradeLand 1) False
       \<in> set (snd (snd (upgrade_step example_config_c example_env_c example_status_c
            example_state_c)))
   \<and> upgradeRetryCooldown
        (fst (snd (upgrade_step example_config_c example_env_c example_status_c
           example_state_c))) 1 = Some 200003"
proof -
  have e: "reply_ok example_env_c = (\<lambda>c k. c \<noteq> UnlockLand 5 \<and> c \<noteq> UpgradeLand 1)"
    "date_unlock_now example_env_c = 200000" "date_unlock_failed example_env_c = 200001"
    "date_upgrade_now example_env_c = 200002" "date_upgrade_failed example_env_c = 200003"
    by (simp_all add: example_env_c_def example_env_def)
  have c: "autoExpandLand example_config_c" "autoUpgradeRedLand example_config_c"
    by (simp_all add: example_config_c_def)
  have st: "eligibleForUnlock example_status_c = [5, 8]"
    "eligibleForUpgrade example_status_c = [1, 6]"
    by (simp_all add: example_status_c_def)
  have s: "unlockRetryCooldown example_state_c = Map.empty(8 \<mapsto> 100000)"
    "upgradeRetryCooldown example_state_c = Map.empty(6 \<mapsto> 100000)"
    by (simp_all add: example_state_c_def)
  have tu: "snd (unlock_step example_config_c example_env_c example_status_c example_state_c)
      = [Issue (UnlockLand 5), Settle (UnlockLand 5) False]"
    by (simp add: unlock_step_def e c st s retry_allowed_def EXPAND_RETRY_INTERVAL_MS_def
        Let_def)
  have tg: "snd (snd (upgrade_step example_config_c example_env_c example_status_c
      example_state_c)) = [Issue (UpgradeLand 1), Settle (UpgradeLand 1) False]"
    by (simp add: upgrade_step_def e c st s retry_allowed_def EXPAND_RETRY_INTERVAL_MS_def
        Let_def)
  have h1: "unlock_step example_config_c example_env_c example_status_c example_state_c
      = (fst (unlock_step example_config_c example_env_c example_status_c example_state_c),
         snd (unlock_step example_config_c example_env_c example_status_c example_state_c))"
    by simp
  have h2: "upgrade_step example_config_c example_env_c example_status_c example_state_c
      = (fst (upgrade_step example_config_c example_env_c example_status_c example_state_c),
         fst (snd (upgrade_step example_config_c example_env_c example_status_c
           example_state_c)),
         snd (snd (upgrade_step example_config_c example_env_c example_status_c
           example_state_c)))"
    by simp
  have h3: "date_unlock_failed example_env_c \<noteq> 0" and h4: "date_upgrade_failed example_env_c \<noteq> 0"
    by (simp_all add: e)
  have h5: "\<forall>i. unlockRetryCooldown example_state_c i \<noteq> Some 0"
    and h6: "\<forall>i. upgradeRetryCooldown example_state_c i \<noteq> Some 0"
    by (simp_all add: s)
  note t = cooldown_gates_attempts [OF h1 h2 h3 h4 h5 h6, of 0]
  have m5: "unlockRetryCooldown
        (fst (unlock_step example_config_c example_env_c example_status_c example_state_c)) 5
       = Some 200001"
    using t by (simp add: tu e)
  have m1: "upgradeRetryCooldown
        (fst (snd (upgrade_step example_config_c example_env_c example_status_c
           example_state_c))) 1 = Some 200003"
    using t by (simp add: tg e)
  have r: "\<not> retry_allowed (unlockRetryCooldown
        (fst (unlock_step example_config_c example_env_c example_status_c example_state_c)))
        (200001 + 9 * 60 * 1000) 5
   \<and> retry_allowed (unlockRetryCooldown
        (fst (unlock_step example_config_c example_env_c example_status_c example_state_c)))
        (200001 + 11 * 60 * 1000) 5"
    using m5 by (simp add: retry_allowed_def EXPAND_RETRY_INTERVAL_MS_def)
  show ?thesis
    using h3 h4 h5 h6 m5 m1 r by (simp add: tu tg)
qed

lemma fst_check_conds:
  "fst (check_conds lvl cs r) \<longleftrightarrow> (\<forall>c \<in> set cs. cond_type c = 1 \<longrightarrow> cond_param c \<le> lvl)"
  by (induction cs arbitrary: r) (auto simp: Let_def toNum_def)

lemma snd_check_conds:
  "fst (check_conds lvl cs r) \<Longrightarrow>
   snd (check_conds lvl cs r) =
     (if filter (\<lambda>c. cond_type c = 1) cs = [] then r
      else cond_param (last (filter (\<lambda>c. cond_type c = 1) cs)))"
  by (induction cs arbitrary: r) (auto simp: Let_def toNum_def split: if_splits)

lemma available_seeds_spec: "available_seeds lvl gl = filtered_catalog_spec lvl gl"
proof (induction gl)
  case Nil
  show ?case by (simp add: filtered_catalog_spec_def)
next
  case (Cons g gs)
  have m: "fst (check_conds lvl (conds g) 0) = level_conditions_met lvl g"
    by (simp add: fst_check_conds level_conditions_met_def)
  have r: "level_conditions_met lvl g \<Longrightarrow> snd (check_conds lvl (conds g) 0) = level_requirement g"
    using snd_check_conds [of lvl "conds g" 0] by (simp add: m level_requirement_def)
  show ?case
    using Cons.IH m r
    by (cases "check_conds lvl (conds g) 0")
       (auto simp: filtered_catalog_spec_def limit_exhausted_def toNum_def Let_def)
qed

lemma filtered_level_zero:
  assumes "level_params_ok gl" and "x \<in> set (filtered_catalog_spec 0 gl)"
  shows "requiredLevel x = 0"
proof -
  obtain g where g: "g \<in> set gl" "level_conditions_met 0 g" "requiredLevel x = level_requirement g"
    using assms(2) by (auto simp: filtered_catalog_spec_def)
  show ?thesis
  proof (cases "filter (\<lambda>c. cond_type c = 1) (conds g) = []")
    case True
    then show ?thesis using g(3) by (simp add: level_requirement_def)
  next
    case False
    let ?c = "last (filter (\<lambda>c. cond_type c = 1) (conds g))"
    have "?c \<in> set (filter (\<lambda>c. cond_type c = 1) (conds g))"
      using False by (rule last_in_set)
    then have "?c \<in> set (conds g)" "cond_type ?c = 1" by auto
    then have "cond_param ?c \<le> 0" "0 \<le> cond_param ?c"
      using g(1,2) assms(1) by (auto simp: level_conditions_met_def level_params_ok_def)
    then show ?thesis using g(3) False by (simp add: level_requirement_def)
  qed
qed

text \<open>
  C7. Once the catalog is fetched, with the filtered list being the entries that are
  unlocked, meet their level conditions and have purchase limit left: \<open>findBestSeed\<close>
  returns null exactly when the filtered list is empty, and an entry of the filtered
  list otherwise. It returns an entry carrying the pinned id when a pinned id is
  configured and present in the filtered list. Without a pinned hit and with the force
  flag it returns an entry with the lowest level requirement and, among those, the
  lowest price. Without a pinned hit and without the flag, when the recommendation
  throws or ranks no entry of the list, the static fallback returns an entry with the
  lowest level requirement below level 29 and an entry with the highest level
  requirement from level 29 on. Level requirements in the catalog are not negative.
\<close>

theorem findBestSeed_cascade:
  assumes "reply_ok e (ShopInfo SEED_SHOP_ID) 0"
    and "gl = (case goods_list e of None \<Rightarrow> [] | Some l \<Rightarrow> l)"
    and "level_params_ok gl"
    and "available = filtered_catalog_spec (user_level st) gl"
    and "ranked = recommendation e (user_level st) (case n of None \<Rightarrow> 18 | Some k \<Rightarrow> k)"
    and "result = fst (findBestSeed cfg e st n)"
  shows "(result = Returned None \<longleftrightarrow> available = [])
     \<and> (available \<noteq> [] \<longrightarrow> (\<exists>x \<in> set available. result = Returned (Some x)))
     \<and> (preferredSeedId cfg \<noteq> 0 \<and> (\<exists>x \<in> set available. seedId x = preferredSeedId cfg)
          \<longrightarrow> (\<exists>x \<in> set available. result = Returned (Some x)
                  \<and> seedId x = preferredSeedId cfg))
     \<and> (available \<noteq> []
          \<and> (preferredSeedId cfg = 0 \<or> (\<forall>x \<in> set available. seedId x \<noteq> preferredSeedId cfg))
          \<and> forceLowestLevelCrop cfg
          \<longrightarrow> (\<exists>x \<in> set available. result = Returned (Some x)
                  \<and> (\<forall>y \<in> set available. requiredLevel x < requiredLevel y
                         \<or> (requiredLevel x = requiredLevel y \<and> price x \<le> price y))))
     \<and> (available \<noteq> []
          \<and> (preferredSeedId cfg = 0 \<or> (\<forall>x \<in> set available. seedId x \<noteq> preferredSeedId cfg))
          \<and> \<not> forceLowestLevelCrop cfg
          \<and> (ranked = None
               \<or> (\<exists>ids. ranked = Some ids \<and> (\<forall>x \<in> set available. seedId x \<notin> set ids)))
          \<and> user_level st < 29
          \<longrightarrow> (\<exists>x \<in> set available. result = Returned (Some x)
                  \<and> (\<forall>y \<in> set available. requiredLevel x \<le> requiredLevel y)))
     \<and> (available \<noteq> []
          \<and> (preferredSeedId cfg = 0 \<or> (\<forall>x \<in> set available. seedId x \<noteq> preferredSeedId cfg))
          \<and> \<not> forceLowestLevelCrop cfg
          \<and> (ranked = None
               \<or> (\<exists>ids. ranked = Some ids \<and> (\<forall>x \<in> set available. seedId x \<notin> set ids)))
          \<and> 29 \<le> user_level st
          \<longrightarrow> (\<exists>x \<in> set available. result = Returned (Some x)
                  \<and> (\<forall>y \<in> set available. requiredLevel y \<le> requiredLevel x)))"
proof -
  have r: "result = Returned (select_seed cfg st ranked available)"
    unfolding assms(2,4,5,6) available_seeds_spec [symmetric]
    by (rule findBestSeed_result [OF assms(1)])
  have c1: "result = Returned None \<longleftrightarrow> available = []"
  proof (cases "available = []")
    case True
    then show ?thesis by (simp add: r select_seed_Nil)
  next
    case False
    then show ?thesis
      using select_seed_mem [OF False, of cfg st ranked] by (auto simp: r)
  qed
  have c2: "available \<noteq> [] \<longrightarrow> (\<exists>x \<in> set available. result = Returned (Some x))"
    using select_seed_mem [of available cfg st ranked] by (simp add: r)
  have c3: "preferredSeedId cfg \<noteq> 0 \<and> (\<exists>x \<in> set available. seedId x = preferredSeedId cfg)
          \<longrightarrow> (\<exists>x \<in> set available. result = Returned (Some x)
                  \<and> seedId x = preferredSeedId cfg)"
    using select_seed_pinned [of cfg available st ranked] by (simp add: r)
  have c4: "available \<noteq> []
          \<and> (preferredSeedId cfg = 0 \<or> (\<forall>x \<in> set available. seedId x \<noteq> preferredSeedId cfg))
          \<and> forceLowestLevelCrop cfg
          \<longrightarrow> (\<exists>x \<in> set available. result = Returned (Some x)
                  \<and> (\<forall>y \<in> set available. requiredLevel x < requiredLevel y
                         \<or> (requiredLevel x = requiredLevel y \<and> price x \<le> price y)))"
    using select_seed_force [of available cfg st ranked] by (simp add: r)
  have c5: "\<exists>x \<in> set available. result = Returned (Some x)
                  \<and> (\<forall>y \<in> set available. requiredLevel x \<le> requiredLevel y)"
    if h: "available \<noteq> []"
      "preferredSeedId cfg = 0 \<or> (\<forall>x \<in> set available. seedId x \<noteq> preferredSeedId cfg)"
      "\<not> forceLowestLevelCrop cfg"
      "ranked = None
         \<or> (\<exists>ids. ranked = Some ids \<and> (\<forall>x \<in> set available. seedId x \<notin> set ids))"
      "user_level st < 29"
  proof (cases "user_level st = 0")
    case False
    then show ?thesis
      using select_seed_fallback_low [OF h(1-4), of st] h(5) by (simp add: r)
  next
    case True
    have z: "\<forall>y \<in> set available. requiredLevel y = 0"
      using filtered_level_zero [OF assms(3)] True assms(4) by simp
    obtain x where "x \<in> set available" "select_seed cfg st ranked available = Some x"
      using select_seed_mem [OF h(1)] by blast
    then show ?thesis
      using z by (intro bexI [of _ x]) (simp_all add: r)
  qed
  have c6: "available \<noteq> []
          \<and> (preferredSeedId cfg = 0 \<or> (\<forall>x \<in> set available. seedId x \<noteq> preferredSeedId cfg))
          \<and> \<not> forceLowestLevelCrop cfg
          \<and> (ranked = None
               \<or> (\<exists>ids. ranked = Some ids \<and> (\<forall>x \<in> set available. seedId x \<notin> set ids)))
          \<and> 29 \<le> user_level st
          \<longrightarrow> (\<exists>x \<in> set available. result = Returned (Some x)
                  \<and> (\<forall>y \<in> set available. requiredLevel y \<le> requiredLevel x))"
    using select_seed_fallback_high [of available cfg ranked st] by (simp add: r)
  show ?thesis
    using c5 by (intro conjI c1 c2 c3 c4 c6) blast
qed

lemma available_example_catalog0:
  "available_seeds 0 example_catalog0 = [example_choice 9 20002 10 0, example_choice 10 20003 5 0]"
  by (simp add: example_catalog0_def example_seed_def example_choice_def toNum_def)

theorem findBestSeed_cascade_witness:
  "reply_ok example_shop (ShopInfo SEED_SHOP_ID) 0
   \<and> level_params_ok example_catalog \<and> level_params_ok example_catalog0
   \<and> filtered_catalog_spec 5 example_catalog
       = [example_choice 9 20002 10 1, example_choice 10 20003 5 1, example_choice 11 20010 50 4]
   \<and> preferredSeedId (example_config\<lparr>preferredSeedId := 20010\<rparr>) \<noteq> 0
   \<and> fst (findBestSeed (example_config\<lparr>preferredSeedId := 20010\<rparr>) example_shop
          (example_user 5) (Some 3)) = Returned (Some (example_choice 11 20010 50 4))
   \<and> forceLowestLevelCrop (example_config\<lparr>forceLowestLevelCrop := True\<rparr>)
   \<and> fst (findBestSeed (example_config\<lparr>forceLowestLevelCrop := True\<rparr>) example_shop
          (example_user 5) (Some 3)) = Returned (Some (example_choice 10 20003 5 1))
   \<and> recommendation example_shop 5 3 = None
   \<and> fst (findBestSeed example_config example_shop (example_user 5) (Some 3))
       = Returned (Some (example_choice 9 20002 10 1))
   \<and> fst (findBestSeed example_config example_shop (example_user 30) (Some 3))
       = Returned (Some (example_choice 11 20010 50 4))
   \<and> fst (findBestSeed example_config example_shop0 (example_user 0) (Some 3))
       = Returned (Some (example_choice 9 20002 10 0))"
proof -
  have e: "reply_ok example_shop = (\<lambda>c k. True)" "recommendation example_shop = (\<lambda>l n. None)"
    "goods_list example_shop = Some example_catalog"
    "reply_ok example_shop0 = (\<lambda>c k. True)" "recommendation example_shop0 = (\<lambda>l n. None)"
    "goods_list example_shop0 = Some example_catalog0"
    by (simp_all add: example_shop_def example_shop0_def example_env_def)
  have ok: "reply_ok example_shop (ShopInfo SEED_SHOP_ID) 0"
    and ok0: "reply_ok example_shop0 (ShopInfo SEED_SHOP_ID) 0"
    by (simp_all add: e)
  have gl: "example_catalog = (case goods_list example_shop of None \<Rightarrow> [] | Some l \<Rightarrow> l)"
    and gl0: "example_catalog0 = (case goods_list example_shop0 of None \<Rightarrow> [] | Some l \<Rightarrow> l)"
    by (simp_all add: e)
  have p: "level_params_ok example_catalog" and p0: "level_params_ok example_catalog0"
    by (simp_all add: level_params_ok_def example_catalog_def example_catalog0_def
        example_seed_def)
  have c: "preferredSeedId example_config = 0" "\<not> forceLowestLevelCrop example_config"
    by (simp_all add: example_config_def)
  have u: "user_level (example_user l) = l" for l
    by (simp add: example_user_def)
  have r: "requiredLevel (example_choice gi item p lvl) = lvl"
    "price (example_choice gi item p lvl) = p" "seedId (example_choice gi item p lvl) = item"
    for gi item p lvl
    by (simp_all add: example_choice_def)
  have s1: "select_seed (example_config\<lparr>preferredSeedId := 20010\<rparr>) (example_user 5) None
              [example_choice 9 20002 10 1, example_choice 10 20003 5 1,
               example_choice 11 20010 50 4] = Some (example_choice 11 20010 50 4)"
    by (simp add: select_seed_def r)
  have s2: "select_seed (example_config\<lparr>forceLowestLevelCrop := True\<rparr>) (example_user 5) None
              [example_choice 9 20002 10 1, example_choice 10 20003 5 1,
               example_choice 11 20010 50 4] = Some (example_choice 10 20003 5 1)"
    by (simp add: select_seed_def c r sort_key_def)
  have s3: "select_seed example_config (example_user 5) None
              [example_choice 9 20002 10 1, example_choice 10 20003 5 1,
               example_choice 11 20010 50 4] = Some (example_choice 9 20002 10 1)"
    by (simp add: select_seed_def c u r sort_key_def)
  have s4: "select_seed example_config (example_user 30) None
              [example_choice 9 20002 10 1, example_choice 10 20003 5 1,
               example_choice 11 20010 50 4] = Some (example_choice 11 20010 50 4)"
    by (simp add: select_seed_def c u r sort_key_def)
  have s5: "select_seed example_config (example_user 0) None
              [example_choice 9 20002 10 0, example_choice 10 20003 5 0]
            = Some (example_choice 9 20002 10 0)"
    by (simp add: select_seed_def c u r sort_key_def)
  have f: "fst (findBestSeed cfg example_shop (example_user 5) (Some 3))
             = Returned (select_seed cfg (example_user 5) None
                 [example_choice 9 20002 10 1, example_choice 10 20003 5 1,
                  example_choice 11 20010 50 4])"
    "fst (findBestSeed cfg example_shop (example_user 30) (Some 3))
             = Returned (select_seed cfg (example_user 30) None
                 [example_choice 9 20002 10 1, example_choice 10 20003 5 1,
                  example_choice 11 20010 50 4])" for cfg
    unfolding findBestSeed_result [OF ok]
    by (simp_all add: e u available_example_catalog del: available_seeds.simps)
  have f0: "fst (findBestSeed cfg example_shop0 (example_user 0) (Some 3))
             = Returned (select_seed cfg (example_user 0) None
                 [example_choice 9 20002 10 0, example_choice 10 20003 5 0])" for cfg
    unfolding findBestSeed_result [OF ok0]
    by (simp add: e u available_example_catalog0 del: available_seeds.simps)
  have fc: "filtered_catalog_spec 5 example_catalog
       = [example_choice 9 20002 10 1, example_choice 10 20003 5 1, example_choice 11 20010 50 4]"
    unfolding available_seeds_spec [symmetric] by (rule available_example_catalog(1))
  show ?thesis
    using findBestSeed_cascade [OF ok gl p refl refl refl, where st = "example_user 5"
        and n = "Some 3" and cfg = "example_config\<lparr>preferredSeedId := 20010\<rparr>"]
      findBestSeed_cascade [OF ok gl p refl refl refl, where st = "example_user 5"
        and n = "Some 3" and cfg = "example_config\<lparr>forceLowestLevelCrop := True\<rparr>"]
      findBestSeed_cascade [OF ok gl p refl refl refl, where st = "example_user 5"
        and n = "Some 3" and cfg = example_config]
      findBestSeed_cascade [OF ok gl p refl refl refl, where st = "example_user 30"
        and n = "Some 3" and cfg = example_config]
      findBestSeed_cascade [OF ok0 gl0 p0 refl refl refl, where st = "example_user 0"
        and n = "Some 3" and cfg = example_config]
    by (simp add: e p p0 f f0 fc s1 s2 s3 s4 s5)
qed

section \<open>The requests of a cycle\<close>

lemma issued_at_append: "issued_at k (t1 @ t2) = issued_at k t1 @ issued_at k t2"
  by (simp add: issued_at_def issued_append)

lemma fulfilled_at_append: "fulfilled_at k (t1 @ t2) = fulfilled_at k t1 + fulfilled_at k t2"
  by (simp add: fulfilled_at_def)

lemma issued_at_Nil: "issued_at k [] = []"
  by (simp add: issued_at_def)

lemma fulfilled_at_Nil: "fulfilled_at k [] = 0"
  by (simp add: fulfilled_at_def)

lemma issued_at_outside:
  "phase_block lo hi t \<Longrightarrow> k < lo \<or> hi < k \<Longrightarrow> issued_at k t = []"
proof -
  assume a: "phase_block lo hi t" "k < lo \<or> hi < k"
  have "filter (\<lambda>ev. step_rank ev = k) t = []"
    using a by (fastforce simp: phase_block_def filter_empty_conv)
  then show ?thesis by (simp add: issued_at_def)
qed

lemma fulfilled_at_outside:
  "phase_block lo hi t \<Longrightarrow> k < lo \<or> hi < k \<Longrightarrow> fulfilled_at k t = 0"
proof -
  assume a: "phase_block lo hi t" "k < lo \<or> hi < k"
  have "filter (\<lambda>ev. step_rank ev = k \<and> fulfilled ev) t = []"
    using a by (fastforce simp: phase_block_def filter_empty_conv)
  then show ?thesis by (simp add: fulfilled_at_def)
qed

lemma issued_at_inside: "phase_block k k t \<Longrightarrow> issued_at k t = issued t"
proof -
  assume a: "phase_block k k t"
  have "filter (\<lambda>ev. step_rank ev = k) t = t"
    using a by (fastforce simp: phase_block_def filter_id_conv)
  then show ?thesis by (simp add: issued_at_def)
qed

lemma plantSeeds_count:
  "fst (plantSeeds e k sd ids) = fulfilled_at 9 (snd (plantSeeds e k sd ids))"
  by (induction ids arbitrary: k) (simp_all add: Let_def split_beta fulfilled_at_def)

lemma fertilize_count:
  "fst (fertilize e k ids f) = fulfilled_at 10 (snd (fertilize e k ids f))"
  by (induction ids arbitrary: k) (simp_all add: Let_def split_beta fulfilled_at_def)

lemma fertilize_issued:
  "issued (snd (fertilize e k ids f))
     = map (\<lambda>i. Fertilize i f) (take (Suc (fulfilled_at 10 (snd (fertilize e k ids f)))) ids)"
  using fertilize_stops [of e k ids f] by (simp add: fertilize_count)

lemma buy_plant_fertilize_trace:
  "snd (buy_plant_fertilize e st seed ls) =
     [Issue (BuyGoods (goodsId seed) (int (length ls)) (price seed)),
      Settle (BuyGoods (goodsId seed) (int (length ls)) (price seed))
        (reply_ok e (BuyGoods (goodsId seed) (int (length ls)) (price seed)) 0)]
     @ (if reply_ok e (BuyGoods (goodsId seed) (int (length ls)) (price seed)) 0
        then snd (plantSeeds e 0 (received_seed e seed) ls)
             @ snd (fertilize e 0 (take (fst (plantSeeds e 0 (received_seed e seed) ls)) ls)
                      NORMAL_FERTILIZER_ID)
        else [])"
  by (auto simp: buy_plant_fertilize_def received_seed_def toNum_def Let_def split_beta
      split: list.splits)

lemma findBestSeed_trace:
  "snd (findBestSeed cfg e st n) =
     [Issue (ShopInfo SEED_SHOP_ID),
      Settle (ShopInfo SEED_SHOP_ID) (reply_ok e (ShopInfo SEED_SHOP_ID) 0)]"
  by (auto simp: findBestSeed_def Let_def split: option.splits)

lemma affordable_take:
  assumes "0 < p" and "L \<noteq> []"
  shows "(if p * int (length L) > g
          then (if g div p \<le> 0 then [] else take (nat (g div p)) L)
          else L) = take (nat (g div p)) L"
proof (cases "p * int (length L) > g")
  case True
  then show ?thesis by simp
next
  case False
  then have "int (length L) * p \<le> g" by (simp add: mult.commute)
  then have "(int (length L) * p) div p \<le> g div p"
    using assms(1) by (rule zdiv_mono1)
  then have "int (length L) \<le> g div p"
    using assms(1) by simp
  then show ?thesis using False by simp
qed

lemma affordable_cases:
  assumes "0 < p" and "L \<noteq> []"
  shows "(if p * int (length L) > g
          then (if g div p \<le> 0 then [] else F (take (nat (g div p)) L))
          else F L)
         = (if take (nat (g div p)) L = [] then [] else F (take (nat (g div p)) L))"
proof (cases "p * int (length L) > g")
  case True
  then show ?thesis using assms(2) by auto
next
  case False
  then have "take (nat (g div p)) L = L"
    using affordable_take [OF assms, of g] by simp
  then show ?thesis using False assms(2) by simp
qed

lemma autoPlantEmptyLands_code:
  assumes "findBestSeed cfg e st (Some n) = (Returned (Some seed), t_shop)"
    and "emptyL @ deadL \<noteq> []" and "price seed \<noteq> 0"
  shows "snd (autoPlantEmptyLands cfg e st deadL emptyL n) =
     (if deadL = [] then []
      else [Issue (RemovePlant deadL),
            Settle (RemovePlant deadL) (reply_ok e (RemovePlant deadL) 0)])
     @ t_shop
     @ (if price seed * int (length (emptyL @ deadL)) > gold st
        then (if gold st div price seed \<le> 0 then []
              else snd (buy_plant_fertilize e st seed
                          (take (nat (gold st div price seed)) (emptyL @ deadL))))
        else snd (buy_plant_fertilize e st seed (emptyL @ deadL)))"
  using assms by (simp add: autoPlantEmptyLands_def Let_def split_beta)

lemma autoPlantEmptyLands_bought:
  assumes "findBestSeed cfg e st (Some n) = (Returned (Some seed), t_shop)"
    and "emptyL @ deadL \<noteq> []" and "0 < price seed"
  shows "snd (autoPlantEmptyLands cfg e st deadL emptyL n) =
     (if deadL = [] then []
      else [Issue (RemovePlant deadL),
            Settle (RemovePlant deadL) (reply_ok e (RemovePlant deadL) 0)])
     @ t_shop
     @ (if take (nat (gold st div price seed)) (emptyL @ deadL) = [] then []
        else snd (buy_plant_fertilize e st seed
                    (take (nat (gold st div price seed)) (emptyL @ deadL))))"
proof -
  have p: "price seed \<noteq> 0" using assms(3) by simp
  show ?thesis
    unfolding autoPlantEmptyLands_code [OF assms(1,2) p]
    by (simp only: affordable_cases [OF assms(3,2),
          of "gold st" "\<lambda>ls. snd (buy_plant_fertilize e st seed ls)"])
qed

lemma autoPlantEmptyLands_no_seed:
  assumes "findBestSeed cfg e st (Some n) = (r, t_shop)"
    and "r = Thrown \<or> r = Returned None" and "emptyL @ deadL \<noteq> []"
  shows "snd (autoPlantEmptyLands cfg e st deadL emptyL n) =
     (if deadL = [] then []
      else [Issue (RemovePlant deadL),
            Settle (RemovePlant deadL) (reply_ok e (RemovePlant deadL) 0)])
     @ t_shop"
  using assms by (auto simp: autoPlantEmptyLands_def Let_def)

lemma issued_at_Cons:
  "issued_at k (Issue c # t) = (if step_rank (Issue c) = k then [c] else []) @ issued_at k t"
  "issued_at k (Settle c b # t) = issued_at k t"
  by (simp_all add: issued_at_def)

lemma fulfilled_at_Cons:
  "fulfilled_at k (Issue c # t) = fulfilled_at k t"
  "fulfilled_at k (Settle c b # t)
     = (if step_rank (Settle c b) = k \<and> b then 1 else 0) + fulfilled_at k t"
  by (cases b; simp add: fulfilled_at_def)+

lemma issued_at_other:
  "(\<forall>ev \<in> set t. step_rank ev = r) \<Longrightarrow> k \<noteq> r \<Longrightarrow> issued_at k t = []"
  by (auto simp: issued_at_def filter_empty_conv)

lemma fulfilled_at_other:
  "(\<forall>ev \<in> set t. step_rank ev = r) \<Longrightarrow> k \<noteq> r \<Longrightarrow> fulfilled_at k t = 0"
  by (auto simp: fulfilled_at_def filter_empty_conv)

lemma plantSeeds_issued_at:
  "issued_at k (snd (plantSeeds e j sd ids)) = (if k = 9 then map (Plant sd) ids else [])"
  using issued_at_inside [OF phase_block_uniform [OF plantSeeds_rank], of e j sd ids]
    issued_at_other [OF plantSeeds_rank, of k e j sd ids]
  by (auto simp: plantSeeds_issued)

lemma plantSeeds_fulfilled_at:
  "fulfilled_at k (snd (plantSeeds e j sd ids)) = (if k = 9 then fst (plantSeeds e j sd ids) else 0)"
  using fulfilled_at_other [OF plantSeeds_rank, of k e j sd ids]
  by (auto simp: plantSeeds_count)

lemma fertilize_issued_at:
  "issued_at k (snd (fertilize e j ids f)) =
     (if k = 10
      then map (\<lambda>i. Fertilize i f) (take (Suc (fulfilled_at 10 (snd (fertilize e j ids f)))) ids)
      else [])"
  using issued_at_inside [OF phase_block_uniform [OF fertilize_rank], of e j ids f]
    issued_at_other [OF fertilize_rank, of k e j ids f]
    fertilize_issued [of e j ids f]
  by auto

lemma fertilize_fulfilled_at:
  "k \<noteq> 10 \<Longrightarrow> fulfilled_at k (snd (fertilize e j ids f)) = 0"
  by (rule fulfilled_at_other [OF fertilize_rank])

lemma buy_plant_fertilize_calls:
  assumes "t = snd (buy_plant_fertilize e st seed B)"
    and "c = BuyGoods (goodsId seed) (int (length B)) (price seed)"
  shows "issued_at 6 t = [] \<and> issued_at 7 t = [] \<and> issued_at 8 t = [c]
     \<and> issued_at 9 t = (if reply_ok e c 0 then map (Plant (received_seed e seed)) B else [])
     \<and> issued_at 10 t =
         (if reply_ok e c 0
          then map (\<lambda>i. Fertilize i NORMAL_FERTILIZER_ID)
                 (take (Suc (fulfilled_at 10 t)) (take (fulfilled_at 9 t) B))
          else [])"
proof -
  let ?tp = "snd (plantSeeds e 0 (received_seed e seed) B)"
  let ?P = "take (fst (plantSeeds e 0 (received_seed e seed) B)) B"
  let ?tf = "snd (fertilize e 0 ?P NORMAL_FERTILIZER_ID)"
  have t: "t = [Issue c, Settle c (reply_ok e c 0)] @ (if reply_ok e c 0 then ?tp @ ?tf else [])"
    unfolding assms by (rule buy_plant_fertilize_trace)
  have h: "step_rank (Issue c) = 8" "step_rank (Settle c b) = 8" for b
    by (simp_all add: assms(2))
  have f9: "fulfilled_at 9 t = (if reply_ok e c 0 then fst (plantSeeds e 0 (received_seed e seed) B) else 0)"
    unfolding t
    by (simp add: fulfilled_at_append fulfilled_at_Cons h plantSeeds_fulfilled_at
        fertilize_fulfilled_at fulfilled_at_Nil)
  have f10: "fulfilled_at 10 t = (if reply_ok e c 0 then fulfilled_at 10 ?tf else 0)"
    unfolding t
    by (simp add: fulfilled_at_append fulfilled_at_Cons h plantSeeds_fulfilled_at
        fulfilled_at_Nil)
  have i: "issued_at k t =
      (if k = 8 then [c] else [])
      @ (if reply_ok e c 0
         then (if k = 9 then map (Plant (received_seed e seed)) B else [])
              @ (if k = 10
                 then map (\<lambda>i. Fertilize i NORMAL_FERTILIZER_ID)
                        (take (Suc (fulfilled_at 10 ?tf)) ?P)
                 else [])
         else [])" for k
    unfolding t
    by (simp add: issued_at_append issued_at_Cons h plantSeeds_issued_at fertilize_issued_at
        issued_at_Nil)
  show ?thesis
    by (simp add: i f9 f10)
qed

lemma affordable_general:
  assumes "L \<noteq> []"
    and "B = (if 0 < p then take (nat (g div p)) L else if p = 0 \<and> g < 0 then [] else L)"
  shows "(if p * int (length L) > g
          then (if p = 0 then [] else if g div p \<le> 0 then [] else F (take (nat (g div p)) L))
          else F L)
         = (if B = [] then [] else F B)"
proof -
  consider "0 < p" | "p = 0" | "p < 0" by linarith
  then show ?thesis
  proof cases
    case 1
    then have B: "B = take (nat (g div p)) L" using assms(2) by simp
    have e: "(if p * int (length L) > g
          then (if p = 0 then [] else if g div p \<le> 0 then [] else F (take (nat (g div p)) L))
          else F L)
        = (if p * int (length L) > g
          then (if g div p \<le> 0 then [] else F (take (nat (g div p)) L))
          else F L)"
      using 1 by simp
    show ?thesis unfolding e B by (rule affordable_cases [OF 1 assms(1)])
  next
    case 2
    then show ?thesis using assms by auto
  next
    case 3
    then have B: "B = L" using assms(2) by simp
    show ?thesis
    proof (cases "p * int (length L) > g")
      case True
      then have "g \<le> int (length L) * p" by (simp add: mult.commute)
      then have "(int (length L) * p) div p \<le> g div p" using 3 by (rule zdiv_mono1_neg)
      then have le: "int (length L) \<le> g div p" using 3 by simp
      moreover have "1 \<le> int (length L)" using assms(1) by (cases L) simp_all
      ultimately have pos: "0 < g div p" by linarith
      have "length L \<le> nat (g div p)" using le by linarith
      then have "take (nat (g div p)) L = L" by simp
      note pos this
      then show ?thesis using True 3 B assms(1) by simp
    next
      case False
      then show ?thesis using B assms(1) by simp
    qed
  qed
qed

lemma autoPlantEmptyLands_code_all:
  assumes "findBestSeed cfg e st (Some n) = (Returned (Some seed), t_shop)"
    and "emptyL @ deadL \<noteq> []"
  shows "snd (autoPlantEmptyLands cfg e st deadL emptyL n) =
     (if deadL = [] then []
      else [Issue (RemovePlant deadL),
            Settle (RemovePlant deadL) (reply_ok e (RemovePlant deadL) 0)])
     @ t_shop
     @ (if price seed * int (length (emptyL @ deadL)) > gold st
        then (if price seed = 0 then []
              else if gold st div price seed \<le> 0 then []
              else snd (buy_plant_fertilize e st seed
                          (take (nat (gold st div price seed)) (emptyL @ deadL))))
        else snd (buy_plant_fertilize e st seed (emptyL @ deadL)))"
  using assms by (simp add: autoPlantEmptyLands_def Let_def split_beta)

lemma autoPlantEmptyLands_seed_unfold:
  assumes "fst (findBestSeed cfg e st (Some n)) = Returned (Some seed)"
    and "L = emptyL @ deadL" and "L \<noteq> []"
    and "B = (if 0 < price seed then take (nat (gold st div price seed)) L
              else if price seed = 0 \<and> gold st < 0 then [] else L)"
  shows "snd (autoPlantEmptyLands cfg e st deadL emptyL n) =
     (if deadL = [] then []
      else [Issue (RemovePlant deadL),
            Settle (RemovePlant deadL) (reply_ok e (RemovePlant deadL) 0)])
     @ [Issue (ShopInfo SEED_SHOP_ID),
        Settle (ShopInfo SEED_SHOP_ID) (reply_ok e (ShopInfo SEED_SHOP_ID) 0)]
     @ (if B = [] then [] else snd (buy_plant_fertilize e st seed B))"
proof -
  have fb: "findBestSeed cfg e st (Some n)
      = (Returned (Some seed), snd (findBestSeed cfg e st (Some n)))"
    using assms(1) by (metis prod.collapse)
  have ne: "emptyL @ deadL \<noteq> []" using assms(2,3) by simp
  have B: "B = (if 0 < price seed then take (nat (gold st div price seed)) (emptyL @ deadL)
              else if price seed = 0 \<and> gold st < 0 then [] else emptyL @ deadL)"
    using assms(2,4) by simp
  show ?thesis
    unfolding autoPlantEmptyLands_code_all [OF fb ne] findBestSeed_trace
    by (simp only: affordable_general [OF ne B,
          of "\<lambda>ls. snd (buy_plant_fertilize e st seed ls)"])
qed

lemma removal_events_at:
  "issued_at k (if deadL = [] then []
                else [Issue (RemovePlant deadL), Settle (RemovePlant deadL) b])
     = (if k = 6 \<and> deadL \<noteq> [] then [RemovePlant deadL] else [])"
  "k \<noteq> 6 \<Longrightarrow> fulfilled_at k (if deadL = [] then []
                else [Issue (RemovePlant deadL), Settle (RemovePlant deadL) b]) = 0"
  by (auto simp: issued_at_Cons fulfilled_at_Cons issued_at_Nil fulfilled_at_Nil)

lemma shop_events_at:
  "issued_at k [Issue (ShopInfo i), Settle (ShopInfo i) b] = (if k = 7 then [ShopInfo i] else [])"
  "k \<noteq> 7 \<Longrightarrow> fulfilled_at k [Issue (ShopInfo i), Settle (ShopInfo i) b] = 0"
  by (auto simp: issued_at_Cons fulfilled_at_Cons issued_at_Nil fulfilled_at_Nil)

lemma autoPlantEmptyLands_calls_seed:
  assumes fb: "fst (findBestSeed cfg e st (Some n)) = Returned (Some seed)"
    and L: "L = emptyL @ deadL" "L \<noteq> []"
    and B: "B = (if 0 < price seed then take (nat (gold st div price seed)) L
              else if price seed = 0 \<and> gold st < 0 then [] else L)"
    and c: "c = BuyGoods (goodsId seed) (int (length B)) (price seed)"
    and t: "t = snd (autoPlantEmptyLands cfg e st deadL emptyL n)"
  shows "issued_at 6 t = (if deadL = [] then [] else [RemovePlant deadL])
     \<and> issued_at 7 t = [ShopInfo SEED_SHOP_ID]
     \<and> issued_at 8 t = (if B = [] then [] else [c])
     \<and> issued_at 9 t = (if B \<noteq> [] \<and> reply_ok e c 0
                          then map (Plant (received_seed e seed)) B else [])
     \<and> issued_at 10 t =
         (if B \<noteq> [] \<and> reply_ok e c 0
          then map (\<lambda>i. Fertilize i NORMAL_FERTILIZER_ID)
                 (take (Suc (fulfilled_at 10 t)) (take (fulfilled_at 9 t) B))
          else [])"
proof -
  define tb where "tb = snd (buy_plant_fertilize e st seed B)"
  define tr where "tr = (if deadL = [] then []
      else [Issue (RemovePlant deadL),
            Settle (RemovePlant deadL) (reply_ok e (RemovePlant deadL) 0)])"
  define ts where "ts = [Issue (ShopInfo SEED_SHOP_ID),
        Settle (ShopInfo SEED_SHOP_ID) (reply_ok e (ShopInfo SEED_SHOP_ID) 0)]"
  have sh: "t = tr @ ts @ (if B = [] then [] else tb)"
    unfolding t tr_def ts_def tb_def by (rule autoPlantEmptyLands_seed_unfold [OF fb L B])
  have ir: "issued_at k tr = (if k = 6 \<and> deadL \<noteq> [] then [RemovePlant deadL] else [])" for k
    unfolding tr_def by (rule removal_events_at)
  have fr: "k \<noteq> 6 \<Longrightarrow> fulfilled_at k tr = 0" for k
    unfolding tr_def by (rule removal_events_at)
  have ish: "issued_at k ts = (if k = 7 then [ShopInfo SEED_SHOP_ID] else [])" for k
    unfolding ts_def by (rule shop_events_at)
  have fs: "k \<noteq> 7 \<Longrightarrow> fulfilled_at k ts = 0" for k
    unfolding ts_def by (rule shop_events_at)
  note b = buy_plant_fertilize_calls [OF tb_def c]
  have f9: "fulfilled_at 9 t = (if B = [] then 0 else fulfilled_at 9 tb)"
    unfolding sh by (simp add: fulfilled_at_append fr fs fulfilled_at_Nil)
  have f10: "fulfilled_at 10 t = (if B = [] then 0 else fulfilled_at 10 tb)"
    unfolding sh by (simp add: fulfilled_at_append fr fs fulfilled_at_Nil)
  have i: "issued_at k t = issued_at k tr @ issued_at k ts
             @ (if B = [] then [] else issued_at k tb)" for k
    unfolding sh by (simp add: issued_at_append issued_at_Nil)
  have c6: "issued_at 6 t = (if deadL = [] then [] else [RemovePlant deadL])"
    using b by (simp add: i ir ish)
  have c7: "issued_at 7 t = [ShopInfo SEED_SHOP_ID]"
    using b by (simp add: i ir ish)
  have c8: "issued_at 8 t = (if B = [] then [] else [c])"
    using b by (simp add: i ir ish)
  have c9: "issued_at 9 t = (if B \<noteq> [] \<and> reply_ok e c 0
                          then map (Plant (received_seed e seed)) B else [])"
    using b by (simp add: i ir ish)
  have c10: "issued_at 10 t =
         (if B \<noteq> [] \<and> reply_ok e c 0
          then map (\<lambda>i. Fertilize i NORMAL_FERTILIZER_ID)
                 (take (Suc (fulfilled_at 10 t)) (take (fulfilled_at 9 t) B))
          else [])"
    using b by (simp add: i ir ish f9 f10)
  show ?thesis
    by (intro conjI c6 c7 c8 c9 c10)
qed

lemma autoPlantEmptyLands_calls_no_seed:
  assumes fb: "fst (findBestSeed cfg e st (Some n)) = Thrown
               \<or> fst (findBestSeed cfg e st (Some n)) = Returned None"
    and L: "emptyL @ deadL \<noteq> []"
    and t: "t = snd (autoPlantEmptyLands cfg e st deadL emptyL n)"
  shows "issued_at 6 t = (if deadL = [] then [] else [RemovePlant deadL])
     \<and> issued_at 7 t = [ShopInfo SEED_SHOP_ID]
     \<and> issued_at 8 t = [] \<and> issued_at 9 t = [] \<and> issued_at 10 t = []"
proof -
  have p: "findBestSeed cfg e st (Some n)
      = (fst (findBestSeed cfg e st (Some n)), snd (findBestSeed cfg e st (Some n)))"
    by simp
  have sh: "t = (if deadL = [] then []
      else [Issue (RemovePlant deadL),
            Settle (RemovePlant deadL) (reply_ok e (RemovePlant deadL) 0)])
     @ [Issue (ShopInfo SEED_SHOP_ID),
        Settle (ShopInfo SEED_SHOP_ID) (reply_ok e (ShopInfo SEED_SHOP_ID) 0)]"
    unfolding t autoPlantEmptyLands_no_seed [OF p fb L] findBestSeed_trace ..
  show ?thesis
    unfolding sh by (simp add: issued_at_append removal_events_at shop_events_at)
qed

lemma autoPlantEmptyLands_calls_nothing:
  "snd (autoPlantEmptyLands cfg e st [] [] n) = []"
  by (simp add: autoPlantEmptyLands_def)

lemma harvest_step_user: "harvest_step e status s = (h, s', tr) \<Longrightarrow> user s' = user s"
  by (auto simp: harvest_step_def Let_def split: if_splits)

lemma unlock_step_user: "unlock_step cfg e status s = (s', tr) \<Longrightarrow> user s' = user s"
  by (auto simp: unlock_step_def Let_def split_beta split: if_splits)

lemma upgrade_step_user: "upgrade_step cfg e status s = (f, s', tr) \<Longrightarrow> user s' = user s"
  by (auto simp: upgrade_step_def Let_def split_beta split: if_splits)

lemma retry_allowed_after_delete:
  "retry_allowed (fold (\<lambda>i m. m(i := None)) h m) now i
     \<longleftrightarrow> i \<in> set h \<or> retry_allowed m now i"
  by (simp add: retry_allowed_def fold_delete_apply)

lemma replant_call_is_pipeline:
  "snd (if length deadL > 0 \<or> length emptyL > 0
        then autoPlantEmptyLands cfg e st deadL emptyL n else (st, []))
     = snd (autoPlantEmptyLands cfg e st deadL emptyL n)"
  by (simp add: autoPlantEmptyLands_calls_nothing)

lemma autoPlantEmptyLands_phase:
  "phase_block 6 10 (snd (autoPlantEmptyLands cfg e st deadL emptyL n))"
  using autoPlantEmptyLands_block [of cfg e st deadL emptyL n] by (metis prod.collapse)

lemma retry_allowed_after_delete_fun:
  "retry_allowed (fold (\<lambda>i m. m(i := None)) h m) now
     = (\<lambda>i. i \<in> set h \<or> retry_allowed m now i)"
  by (rule ext) (rule retry_allowed_after_delete)

lemma issued_at_single:
  assumes "phase_block r r t"
  shows "issued_at k t = (if k = r then issued t else [])"
proof (cases "k = r")
  case True
  then show ?thesis using issued_at_inside [OF assms] by simp
next
  case False
  then have "k < r \<or> r < k" by arith
  then show ?thesis using issued_at_outside [OF assms] False by simp
qed

lemma issued_filter_Settle: "issued (filter P (map (\<lambda>c. Settle c (f c)) cs)) = []"
  by (induction cs) simp_all

lemma batch_maintenance_at:
  "issued_at k (batch_maintenance e status) = (if k = 1 then batch_calls status else [])"
proof -
  have a: "phase_block 1 1 (map Issue (batch_calls status))"
    by (rule phase_block_uniform) (auto simp: batch_calls_rank)
  have i: "issued_at k (map Issue (batch_calls status))
      = (if k = 1 then batch_calls status else [])"
    by (simp add: issued_at_single [OF a] issued_map_Issue)
  have s: "issued_at k (map (\<lambda>c. Settle c (reply_ok e c 0))
             (settle_order (settle_seed e) (batch_calls status))) = []"
    unfolding issued_at_def by (rule issued_filter_Settle)
  show ?thesis
    unfolding batch_maintenance_def Let_def issued_at_append i s by simp
qed

lemma harvest_step_harvested:
  "harvest_step e status s = (h, s', tr) \<Longrightarrow>
     h = (if reply_ok e (Harvest (harvestable status)) 0 then harvestable status else [])"
  by (auto simp: harvest_step_def Let_def split: if_splits)

lemma checkFarm_segments:
  assumes run: "\<not> isCheckingFarm s" "gid (user s) \<noteq> 0" "reply_ok e AllLands 0"
      "lands_reply e = Some lands" "lands \<noteq> []"
    and st: "status = analyzeLands cfg (env_clock e) (date_analyze e) (date_phase e) lands"
    and tr: "tr = snd (checkFarm cfg e s)"
  shows "\<exists>t_pre.
      tr = t_pre @ snd (autoPlantEmptyLands cfg e (user s)
              (dead status @ filter (\<lambda>i. i \<notin> set (failed_upgrades_in tr)) (harvested_in tr))
              (filter (\<lambda>i. i \<notin> set (eligibleForUpgrade status)) (empty_lands status))
              (int (length (filter unlocked lands))))
      \<and> phase_block 0 5 t_pre
      \<and> issued_at 4 t_pre =
          (if autoExpandLand cfg
           then map UnlockLand (filter (retry_allowed (unlockRetryCooldown s) (date_unlock_now e))
                  (eligibleForUnlock status))
           else [])
      \<and> issued_at 5 t_pre =
          (if autoUpgradeRedLand cfg
           then map UpgradeLand
                  (filter (\<lambda>i. i \<in> set (harvested_in tr)
                             \<or> retry_allowed (upgradeRetryCooldown s) (date_upgrade_now e) i)
                     (eligibleForUpgrade status))
           else [])
      \<and> issued_at 0 t_pre = [AllLands]
      \<and> issued_at 1 t_pre = batch_calls status
      \<and> issued_at 2 t_pre = []
      \<and> issued_at 3 t_pre =
          (if harvestable status = [] then [] else [Harvest (harvestable status)])
      \<and> harvested_in tr =
          (if reply_ok e (Harvest (harvestable status)) 0 then harvestable status else [])"
proof -
  define s0 where "s0 = s\<lparr>isCheckingFarm := True\<rparr>"
  define n where "n = int (length (filter unlocked lands))"
  obtain s' ta where act: "act_on_lands cfg e lands s0 = (s', ta)"
    by (metis surj_pair)
  define t0 where "t0 = [Issue AllLands, Settle AllLands True]"
  have tr0: "tr = t0 @ ta"
    unfolding tr checkFarm_run [OF run] s0_def [symmetric] act t0_def by simp
  obtain h s1 t1 s2 t2 f s3 t3 u t4 where
    hs: "harvest_step e status (s0\<lparr>lastLandStats := Some (getLandTypeCounts lands)\<rparr>) = (h, s1, t1)"
    and us: "unlock_step cfg e status s1 = (s2, t2)"
    and gs: "upgrade_step cfg e status s2 = (f, s3, t3)"
    and ps: "(if length (allDeadLands status h f) > 0 \<or> length (allEmptyLands status) > 0
               then autoPlantEmptyLands cfg e (user s3) (allDeadLands status h f)
                      (allEmptyLands status) n
               else (user s3, [])) = (u, t4)"
    and ta: "ta = batch_maintenance e status @ t1 @ t2 @ t3 @ t4"
    using act_on_lands_shape [OF act st] unfolding n_def by blast
  define t_pre where
    "t_pre = t0 @ batch_maintenance e status @ t1 @ t2 @ t3"
  have tr1: "tr = t_pre @ t4"
    by (simp add: tr0 ta t_pre_def)
  have t4: "t4 = snd (autoPlantEmptyLands cfg e (user s3) (allDeadLands status h f)
                      (allEmptyLands status) n)"
    using replant_call_is_pipeline [of "allDeadLands status h f" "allEmptyLands status"
        cfg e "user s3" n] ps by simp
  have b0: "phase_block 0 0 t0"
    by (simp add: phase_block_def t0_def)
  have bb: "phase_block 1 2 (batch_maintenance e status)"
    by (rule batch_maintenance_block)
  have b1: "phase_block 3 3 t1" using harvest_step_block [OF hs] by simp
  have b2: "phase_block 4 4 t2" using unlock_step_block [OF us] by simp
  have b3: "phase_block 5 5 t3" using upgrade_step_block [OF gs] by simp
  have b4: "phase_block 6 10 t4" unfolding t4 by (rule autoPlantEmptyLands_phase)
  have u3: "user s3 = user s"
    using harvest_step_user [OF hs] unlock_step_user [OF us] upgrade_step_user [OF gs]
    by (simp add: s0_def)
  have hin: "harvested_in tr = h"
    unfolding tr1 t_pre_def
    using harvested_in_none [OF b0] harvested_in_none [OF bb] harvested_in_none [OF b2]
      harvested_in_none [OF b3] harvested_in_none [OF b4] harvested_in_harvest_step [OF hs]
    by (simp add: harvested_in_append)
  have fin: "failed_upgrades_in tr = f"
    unfolding tr1 t_pre_def
    using failed_upgrades_in_none [OF b0] failed_upgrades_in_none [OF bb]
      failed_upgrades_in_none [OF b1] failed_upgrades_in_none [OF b2]
      failed_upgrades_in_none [OF b4] failed_upgrades_in_upgrade_step [OF gs]
    by (simp add: failed_upgrades_in_append)
  have c1: "tr = t_pre @ snd (autoPlantEmptyLands cfg e (user s)
              (dead status @ filter (\<lambda>i. i \<notin> set (failed_upgrades_in tr)) (harvested_in tr))
              (filter (\<lambda>i. i \<notin> set (eligibleForUpgrade status)) (empty_lands status))
              (int (length (filter unlocked lands))))"
    unfolding hin fin
    using tr1 t4 by (simp add: u3 allDeadLands_def allEmptyLands_def n_def)
  have p2: "phase_block 4 5 (t2 @ t3)"
    by (rule phase_block_append [OF b2 b3]) simp_all
  have p1: "phase_block 3 5 (t1 @ t2 @ t3)"
    by (rule phase_block_append [OF b1 p2]) simp_all
  have pb: "phase_block 1 5 (batch_maintenance e status @ t1 @ t2 @ t3)"
    by (rule phase_block_append [OF bb p1]) simp_all
  have c2: "phase_block 0 5 t_pre"
    unfolding t_pre_def by (rule phase_block_append [OF b0 pb]) simp_all
  have m1: "unlockRetryCooldown s1 = unlockRetryCooldown s"
    using harvest_step_effect [OF hs] by (simp add: s0_def)
  have m2: "upgradeRetryCooldown s2
      = fold (\<lambda>i m. m(i := None)) h (upgradeRetryCooldown s)"
    using harvest_step_effect [OF hs] unlock_step_upgrade_map [OF us] by (simp add: s0_def)
  have c3: "issued_at 4 t_pre =
          (if autoExpandLand cfg
           then map UnlockLand (filter (retry_allowed (unlockRetryCooldown s) (date_unlock_now e))
                  (eligibleForUnlock status))
           else [])"
    unfolding t_pre_def
    using issued_at_outside [OF b0, of 4] issued_at_outside [OF bb, of 4]
      issued_at_outside [OF b1, of 4] issued_at_outside [OF b3, of 4]
      issued_at_inside [OF b2] unlock_step_issued [OF us]
    by (simp add: issued_at_append m1)
  have c4: "issued_at 5 t_pre =
          (if autoUpgradeRedLand cfg
           then map UpgradeLand
                  (filter (\<lambda>i. i \<in> set (harvested_in tr)
                             \<or> retry_allowed (upgradeRetryCooldown s) (date_upgrade_now e) i)
                     (eligibleForUpgrade status))
           else [])"
    unfolding t_pre_def
    using issued_at_outside [OF b0, of 5] issued_at_outside [OF bb, of 5]
      issued_at_outside [OF b1, of 5] issued_at_outside [OF b2, of 5]
      issued_at_inside [OF b3] upgrade_step_issued [OF gs]
    by (simp add: issued_at_append m2 hin retry_allowed_after_delete_fun)
  have i0: "issued_at k t0 = (if k = 0 then [AllLands] else [])" for k
    by (simp add: t0_def issued_at_Cons issued_at_Nil)
  have i1: "issued_at k t1
      = (if k = 3 \<and> harvestable status \<noteq> [] then [Harvest (harvestable status)] else [])" for k
    using issued_harvest_step [OF hs] by (simp add: issued_at_single [OF b1])
  have i2: "k < 4 \<Longrightarrow> issued_at k t2 = []" for k
    using issued_at_outside [OF b2, of k] by simp
  have i3: "k < 4 \<Longrightarrow> issued_at k t3 = []" for k
    using issued_at_outside [OF b3, of k] by simp
  have c5: "issued_at 0 t_pre = [AllLands]"
    unfolding t_pre_def by (simp add: issued_at_append i0 batch_maintenance_at i1 i2 i3)
  have c6: "issued_at 1 t_pre = batch_calls status"
    unfolding t_pre_def by (simp add: issued_at_append i0 batch_maintenance_at i1 i2 i3)
  have c7: "issued_at 2 t_pre = []"
    unfolding t_pre_def by (simp add: issued_at_append i0 batch_maintenance_at i1 i2 i3)
  have c8: "issued_at 3 t_pre =
          (if harvestable status = [] then [] else [Harvest (harvestable status)])"
    unfolding t_pre_def by (simp add: issued_at_append i0 batch_maintenance_at i1 i2 i3)
  have c9: "harvested_in tr =
          (if reply_ok e (Harvest (harvestable status)) 0 then harvestable status else [])"
    unfolding hin by (rule harvest_step_harvested [OF hs])
  show ?thesis
    by (intro exI [of _ t_pre] conjI c1 c2 c3 c4 c5 c6 c7 c8 c9)
qed

lemma concat_map_Nil: "(\<forall>k \<in> set ks. g k = []) \<Longrightarrow> concat (map g ks) = []"
  by (induction ks) auto

lemma sorted_rank_partition:
  "sorted (map f xs) \<Longrightarrow> (\<forall>x \<in> set xs. lo \<le> f x \<and> f x < hi) \<Longrightarrow>
     concat (map (\<lambda>k. filter (\<lambda>x. f x = k) xs) [lo..<hi]) = xs"
proof (induction xs arbitrary: lo)
  case Nil
  then show ?case by (simp add: concat_map_Nil)
next
  case (Cons x xs)
  let ?m = "f x"
  have b: "lo \<le> ?m" "?m < hi" using Cons.prems(2) by simp_all
  have ge: "\<forall>y \<in> set xs. ?m \<le> f y \<and> f y < hi" using Cons.prems by auto
  have s: "sorted (map f xs)" using Cons.prems(1) by simp
  have ih: "concat (map (\<lambda>k. filter (\<lambda>x. f x = k) xs) [?m..<hi]) = xs"
    by (rule Cons.IH [OF s ge])
  have split: "[lo..<hi] = [lo..<?m] @ ?m # [Suc ?m..<hi]"
    using b by (metis le_add_diff_inverse less_imp_le_nat upt_add_eq_append upt_conv_Cons)
  have split2: "[?m..<hi] = ?m # [Suc ?m..<hi]"
    using b by (simp add: upt_conv_Cons)
  have p1: "concat (map (\<lambda>k. filter (\<lambda>y. f y = k) (x # xs)) [lo..<?m]) = []"
    using ge by (intro concat_map_Nil) (auto simp: filter_empty_conv)
  have p3: "map (\<lambda>k. filter (\<lambda>y. f y = k) (x # xs)) [Suc ?m..<hi]
      = map (\<lambda>k. filter (\<lambda>y. f y = k) xs) [Suc ?m..<hi]"
    by (rule map_cong) auto
  have g: "concat (map g [lo..<hi])
      = concat (map g [lo..<?m]) @ g ?m @ concat (map g [Suc ?m..<hi])" for g :: "nat \<Rightarrow> 'a list"
    unfolding split by simp
  have p2: "filter (\<lambda>y. f y = ?m) (x # xs) = x # filter (\<lambda>y. f y = ?m) xs"
    by simp
  have "concat (map (\<lambda>k. filter (\<lambda>y. f y = k) (x # xs)) [lo..<hi])
      = x # (filter (\<lambda>y. f y = ?m) xs
             @ concat (map (\<lambda>k. filter (\<lambda>y. f y = k) xs) [Suc ?m..<hi]))"
    unfolding g [of "\<lambda>k. filter (\<lambda>y. f y = k) (x # xs)"] p1 p2 p3 by simp
  also have "\<dots> = x # xs"
    using ih unfolding split2 by simp
  finally show ?case .
qed

lemma issued_concat: "issued (concat tss) = concat (map issued tss)"
  by (induction tss) (simp_all add: issued_append)

lemma issued_by_step:
  assumes "phase_block 0 10 tr"
  shows "issued tr = concat (map (\<lambda>k. issued_at k tr) [0..<11])"
proof -
  have "concat (map (\<lambda>k. filter (\<lambda>ev. step_rank ev = k) tr) [0..<11]) = tr"
    using assms by (intro sorted_rank_partition) (auto simp: phase_block_def)
  then have "issued tr = issued (concat (map (\<lambda>k. filter (\<lambda>ev. step_rank ev = k) tr) [0..<11]))"
    by simp
  also have "\<dots> = concat (map (\<lambda>k. issued_at k tr) [0..<11])"
    unfolding issued_concat by (simp add: issued_at_def comp_def del: upt_Suc)
  finally show ?thesis .
qed

lemma analyzeLands_example_b:
  "analyzeLands example_config_c example_clock 200000 (\<lambda>k. 200000) example_lands_b =
     \<lparr>harvestable = [2, 7], needWater = [4], needWeed = [], needBug = [], growing = [4],
      empty_lands = [3, 6], dead = [1], harvestableInfo = [(2, 1020002), (7, 1020002)],
      eligibleForUnlock = [5], eligibleForUpgrade = [1, 2, 6]\<rparr>"
  by (simp add: analyzeLands_def analyze_land_def classify_planted_def growing_needs_def
      getCurrentPhase_def getServerTimeSec_def toTimeSec_def toNum_def empty_analysis_def
      example_lands_b_def example_land_def example_plant_def example_config_c_def
      example_config_def example_clock_def Let_def)

lemma checkFarm_example_b:
  "snd (checkFarm example_config_c example_env_b example_state) =
     [Issue AllLands, Settle AllLands True,
      Issue (WaterLand [4]), Settle (WaterLand [4]) True,
      Issue (Harvest [2, 7]), Settle (Harvest [2, 7]) True,
      Issue (UnlockLand 5), Settle (UnlockLand 5) True,
      Issue (UpgradeLand 1), Settle (UpgradeLand 1) False,
      Issue (UpgradeLand 2), Settle (UpgradeLand 2) False,
      Issue (UpgradeLand 6), Settle (UpgradeLand 6) True,
      Issue (RemovePlant [1, 7]), Settle (RemovePlant [1, 7]) True,
      Issue (ShopInfo 2), Settle (ShopInfo 2) True,
      Issue (BuyGoods 9 3 10), Settle (BuyGoods 9 3 10) True,
      Issue (Plant 20002 3), Settle (Plant 20002 3) True,
      Issue (Plant 20002 1), Settle (Plant 20002 1) True,
      Issue (Plant 20002 7), Settle (Plant 20002 7) True,
      Issue (Fertilize 3 1011), Settle (Fertilize 3 1011) True,
      Issue (Fertilize 1 1011), Settle (Fertilize 1 1011) True,
      Issue (Fertilize 7 1011), Settle (Fertilize 7 1011) True]"
proof -
  have env: "reply_ok example_env_b = (\<lambda>c k. c \<noteq> UpgradeLand 1 \<and> c \<noteq> UpgradeLand 2)"
    "settle_seed example_env_b = 0"
    "lands_reply example_env_b = Some example_lands_b"
    "goods_list example_env_b = Some [example_goods]"
    "get_items example_env_b = []" "cost_items example_env_b = []"
    "recommendation example_env_b = (\<lambda>lvl n. None)" "env_clock example_env_b = example_clock"
    "date_analyze example_env_b = 200000" "date_phase example_env_b = (\<lambda>k. 200000)"
    "date_unlock_now example_env_b = 200000" "date_unlock_failed example_env_b = 200001"
    "date_upgrade_now example_env_b = 200002" "date_upgrade_failed example_env_b = 200003"
    by (simp_all add: example_env_b_def example_env_def)
  have cfg: "autoExpandLand example_config_c = True" "autoUpgradeRedLand example_config_c = True"
    "preferredSeedId example_config_c = 0" "forceLowestLevelCrop example_config_c = False"
    by (simp_all add: example_config_c_def example_config_def)
  have st: "isCheckingFarm example_state = False"
    "user example_state = \<lparr>gid = 1, user_level = 5, gold = 1000\<rparr>"
    "upgradeRetryCooldown example_state = Map.empty"
    "unlockRetryCooldown example_state = Map.empty"
    by (simp_all add: example_state_def)
  have len: "example_lands_b \<noteq> []" by (simp add: example_lands_b_def)
  show ?thesis
    by (simp add: checkFarm_def checkFarm_try_def act_on_lands_def env cfg st len
        analyzeLands_example_b batch_maintenance_def batch_calls_def harvest_step_def
        unlock_step_def upgrade_step_def allDeadLands_def allEmptyLands_def
        retry_allowed_def
        autoPlantEmptyLands_def findBestSeed_def select_seed_def available_example
        buy_plant_fertilize_def SEED_SHOP_ID_def NORMAL_FERTILIZER_ID_def Let_def
        example_goods_def toNum_def)
qed

lemma checkFarm_block:
  "phase_block 0 10 (snd (checkFarm cfg e s))
   \<and> mset (issued (snd (checkFarm cfg e s))) = mset (settled (snd (checkFarm cfg e s)))"
proof -
  obtain s' tr where c: "checkFarm cfg e s = (s', tr)"
    by (metis surj_pair)
  have "phase_block 0 10 tr \<and> mset (issued tr) = mset (settled tr)"
  proof (cases "isCheckingFarm s \<or> gid (user s) = 0")
    case True
    then have "tr = []" using c by (auto simp: checkFarm_def)
    then show ?thesis by (simp add: phase_block_Nil)
  next
    case False
    then obtain u where "checkFarm_try cfg e (s\<lparr>isCheckingFarm := True\<rparr>) = (u, tr)"
      using c by (auto simp: checkFarm_def split: prod.splits)
    then show ?thesis by (rule checkFarm_try_block)
  qed
  then show ?thesis by (simp add: c)
qed

lemma checkFarm_example_d:
  "snd (checkFarm example_config_c example_env_d example_state) =
     [Issue AllLands, Settle AllLands True,
      Issue (WaterLand [4]), Settle (WaterLand [4]) True,
      Issue (Harvest [2, 7]), Settle (Harvest [2, 7]) True,
      Issue (UnlockLand 5), Settle (UnlockLand 5) True,
      Issue (UpgradeLand 1), Settle (UpgradeLand 1) True,
      Issue (UpgradeLand 2), Settle (UpgradeLand 2) True,
      Issue (UpgradeLand 6), Settle (UpgradeLand 6) True,
      Issue (RemovePlant [1, 2, 7]), Settle (RemovePlant [1, 2, 7]) True,
      Issue (ShopInfo 2), Settle (ShopInfo 2) False]"
proof -
  have env: "reply_ok example_env_d = (\<lambda>c k. c \<noteq> ShopInfo 2)"
    "settle_seed example_env_d = 0"
    "lands_reply example_env_d = Some example_lands_b"
    "goods_list example_env_d = Some [example_goods]"
    "get_items example_env_d = []" "cost_items example_env_d = []"
    "recommendation example_env_d = (\<lambda>lvl n. None)" "env_clock example_env_d = example_clock"
    "date_analyze example_env_d = 200000" "date_phase example_env_d = (\<lambda>k. 200000)"
    "date_unlock_now example_env_d = 200000" "date_unlock_failed example_env_d = 200001"
    "date_upgrade_now example_env_d = 200002" "date_upgrade_failed example_env_d = 200003"
    by (simp_all add: example_env_d_def example_env_def SEED_SHOP_ID_def)
  have cfg: "autoExpandLand example_config_c = True" "autoUpgradeRedLand example_config_c = True"
    "preferredSeedId example_config_c = 0" "forceLowestLevelCrop example_config_c = False"
    by (simp_all add: example_config_c_def example_config_def)
  have st: "isCheckingFarm example_state = False"
    "user example_state = \<lparr>gid = 1, user_level = 5, gold = 1000\<rparr>"
    "upgradeRetryCooldown example_state = Map.empty"
    "unlockRetryCooldown example_state = Map.empty"
    by (simp_all add: example_state_def)
  have len: "example_lands_b \<noteq> []" by (simp add: example_lands_b_def)
  show ?thesis
    by (simp add: checkFarm_def checkFarm_try_def act_on_lands_def env cfg st len
        analyzeLands_example_b batch_maintenance_def batch_calls_def harvest_step_def
        unlock_step_def upgrade_step_def allDeadLands_def allEmptyLands_def
        retry_allowed_def autoPlantEmptyLands_def findBestSeed_def
        SEED_SHOP_ID_def Let_def)
qed

lemma upt_eleven: "[0..<11] = [0, 1, 2, 3, 4, 5, 6, 7, 8, 9, 10::nat]"
  by (simp add: upt_conv_Cons)

section \<open>The sequencing contract of a cycle\<close>

text \<open>
  C1. The events of every cycle are in the order of the sequencing contract: the
  snapshot; the maintenance requests (weeding, pest removal, watering), all issued before
  any of them settles; then harvest, unlock, upgrade, removal, catalog, purchase, planting
  and fertilizing, each request settled before the next one is issued. Every request
  issued in a cycle settles in it, so no request of a later step is issued before all
  requests of the earlier steps have settled, and the requests of the cycle are those of
  step 0, followed by those of step 1, and so on up to step 10. In a cycle that got a
  snapshot with plots, the requests of each step are: the snapshot request; one
  maintenance request for each non-empty need list; one harvest request carrying all
  harvestable plots; with unlocking switched on, one unlock request for each unlock
  candidate that passes the cooldown test, in the order of the snapshot; with upgrading
  switched on, one upgrade request for each upgrade candidate that was harvested in this
  cycle or passes the cooldown test; one removal request carrying the dead plots followed
  by the harvested plots whose upgrade request was not rejected in this cycle, when there
  are any; one catalog request when there is a plot to replant; when the selector throws
  or finds no seed, nothing more; when it returns a seed, one purchase request for as
  many of the plots to replant as the gold pays for (the directly seeded plots come
  first), and when it is fulfilled one planting request for each of these plots and one
  fertilizing request for each of the first \<open>n\<close> of them, \<open>n\<close> being the number of fulfilled
  planting requests, up to and including the first fertilizing request that is rejected.
\<close>

theorem checkFarm_call_sequence:
  assumes "tr = snd (checkFarm cfg e s)"
  shows "sorted (map step_rank tr)
     \<and> mset (issued tr) = mset (settled tr)
     \<and> issued tr = concat (map (\<lambda>k. issued_at k tr) [0..<11])
     \<and> (\<not> isCheckingFarm s \<and> gid (user s) \<noteq> 0 \<and> reply_ok e AllLands 0
        \<and> lands_reply e = Some lands \<and> lands \<noteq> []
        \<and> status = analyzeLands cfg (env_clock e) (date_analyze e) (date_phase e) lands
        \<and> removal = dead status
                     @ filter (\<lambda>i. i \<notin> set (failed_upgrades_in tr)) (harvested_in tr)
        \<and> seeding = filter (\<lambda>i. i \<notin> set (eligibleForUpgrade status)) (empty_lands status)
        \<and> fb = fst (findBestSeed cfg e (user s) (Some (int (length (filter unlocked lands)))))
        \<longrightarrow> issued_at 0 tr = [AllLands]
          \<and> issued_at 1 tr = batch_calls status
          \<and> issued_at 2 tr = []
          \<and> issued_at 3 tr =
              (if harvestable status = [] then [] else [Harvest (harvestable status)])
          \<and> harvested_in tr =
              (if reply_ok e (Harvest (harvestable status)) 0 then harvestable status else [])
          \<and> issued_at 4 tr =
              (if autoExpandLand cfg
               then map UnlockLand
                      (filter (retry_allowed (unlockRetryCooldown s) (date_unlock_now e))
                         (eligibleForUnlock status))
               else [])
          \<and> issued_at 5 tr =
              (if autoUpgradeRedLand cfg
               then map UpgradeLand
                      (filter (\<lambda>i. i \<in> set (harvested_in tr)
                                 \<or> retry_allowed (upgradeRetryCooldown s) (date_upgrade_now e) i)
                         (eligibleForUpgrade status))
               else [])
          \<and> issued_at 6 tr = (if removal = [] then [] else [RemovePlant removal])
          \<and> issued_at 7 tr = (if seeding @ removal = [] then [] else [ShopInfo SEED_SHOP_ID])
          \<and> (fb = Thrown \<or> fb = Returned None
               \<longrightarrow> issued_at 8 tr = [] \<and> issued_at 9 tr = [] \<and> issued_at 10 tr = [])
          \<and> (fb = Returned (Some seed)
               \<and> B = (if 0 < price seed
                       then take (nat (gold (user s) div price seed)) (seeding @ removal)
                       else if price seed = 0 \<and> gold (user s) < 0 then []
                       else seeding @ removal)
               \<and> c = BuyGoods (goodsId seed) (int (length B)) (price seed)
               \<longrightarrow> issued_at 8 tr = (if B = [] then [] else [c])
                 \<and> issued_at 9 tr =
                     (if B \<noteq> [] \<and> reply_ok e c 0
                      then map (Plant (received_seed e seed)) B else [])
                 \<and> issued_at 10 tr =
                     (if B \<noteq> [] \<and> reply_ok e c 0
                      then map (\<lambda>i. Fertilize i NORMAL_FERTILIZER_ID)
                             (take (Suc (fulfilled_at 10 tr)) (take (fulfilled_at 9 tr) B))
                      else [])))"
proof -
  have blk: "phase_block 0 10 tr" "mset (issued tr) = mset (settled tr)"
    using checkFarm_block [of cfg e s] assms by simp_all
  have a1: "sorted (map step_rank tr)"
    using blk(1) by (simp add: phase_block_def)
  have a3: "issued tr = concat (map (\<lambda>k. issued_at k tr) [0..<11])"
    by (rule issued_by_step [OF blk(1)])
  have a4: "issued_at 0 tr = [AllLands]
          \<and> issued_at 1 tr = batch_calls status
          \<and> issued_at 2 tr = []
          \<and> issued_at 3 tr =
              (if harvestable status = [] then [] else [Harvest (harvestable status)])
          \<and> harvested_in tr =
              (if reply_ok e (Harvest (harvestable status)) 0 then harvestable status else [])
          \<and> issued_at 4 tr =
              (if autoExpandLand cfg
               then map UnlockLand
                      (filter (retry_allowed (unlockRetryCooldown s) (date_unlock_now e))
                         (eligibleForUnlock status))
               else [])
          \<and> issued_at 5 tr =
              (if autoUpgradeRedLand cfg
               then map UpgradeLand
                      (filter (\<lambda>i. i \<in> set (harvested_in tr)
                                 \<or> retry_allowed (upgradeRetryCooldown s) (date_upgrade_now e) i)
                         (eligibleForUpgrade status))
               else [])
          \<and> issued_at 6 tr = (if removal = [] then [] else [RemovePlant removal])
          \<and> issued_at 7 tr = (if seeding @ removal = [] then [] else [ShopInfo SEED_SHOP_ID])
          \<and> (fb = Thrown \<or> fb = Returned None
               \<longrightarrow> issued_at 8 tr = [] \<and> issued_at 9 tr = [] \<and> issued_at 10 tr = [])
          \<and> (fb = Returned (Some seed)
               \<and> B = (if 0 < price seed
                       then take (nat (gold (user s) div price seed)) (seeding @ removal)
                       else if price seed = 0 \<and> gold (user s) < 0 then []
                       else seeding @ removal)
               \<and> c = BuyGoods (goodsId seed) (int (length B)) (price seed)
               \<longrightarrow> issued_at 8 tr = (if B = [] then [] else [c])
                 \<and> issued_at 9 tr =
                     (if B \<noteq> [] \<and> reply_ok e c 0
                      then map (Plant (received_seed e seed)) B else [])
                 \<and> issued_at 10 tr =
                     (if B \<noteq> [] \<and> reply_ok e c 0
                      then map (\<lambda>i. Fertilize i NORMAL_FERTILIZER_ID)
                             (take (Suc (fulfilled_at 10 tr)) (take (fulfilled_at 9 tr) B))
                      else []))"
    if run: "\<not> isCheckingFarm s" "gid (user s) \<noteq> 0" "reply_ok e AllLands 0"
        "lands_reply e = Some lands" "lands \<noteq> []"
      and st: "status = analyzeLands cfg (env_clock e) (date_analyze e) (date_phase e) lands"
      and rm: "removal = dead status
                     @ filter (\<lambda>i. i \<notin> set (failed_upgrades_in tr)) (harvested_in tr)"
      and sd: "seeding = filter (\<lambda>i. i \<notin> set (eligibleForUpgrade status)) (empty_lands status)"
      and fb: "fb = fst (findBestSeed cfg e (user s) (Some (int (length (filter unlocked lands)))))"
  proof -
    define n where "n = int (length (filter unlocked lands))"
    define t4 where "t4 = snd (autoPlantEmptyLands cfg e (user s) removal seeding n)"
    obtain t_pre where
      sh: "tr = t_pre @ t4"
      and pre: "phase_block 0 5 t_pre"
      and s4: "issued_at 4 t_pre =
          (if autoExpandLand cfg
           then map UnlockLand (filter (retry_allowed (unlockRetryCooldown s) (date_unlock_now e))
                  (eligibleForUnlock status))
           else [])"
      and s5: "issued_at 5 t_pre =
          (if autoUpgradeRedLand cfg
           then map UpgradeLand
                  (filter (\<lambda>i. i \<in> set (harvested_in tr)
                             \<or> retry_allowed (upgradeRetryCooldown s) (date_upgrade_now e) i)
                     (eligibleForUpgrade status))
           else [])"
      and s0: "issued_at 0 t_pre = [AllLands]"
      and s1: "issued_at 1 t_pre = batch_calls status"
      and s2: "issued_at 2 t_pre = []"
      and s3: "issued_at 3 t_pre =
          (if harvestable status = [] then [] else [Harvest (harvestable status)])"
      and hv: "harvested_in tr =
          (if reply_ok e (Harvest (harvestable status)) 0 then harvestable status else [])"
      using checkFarm_segments [OF run st assms] unfolding t4_def rm sd n_def by blast
    have b4: "phase_block 6 10 t4"
      unfolding t4_def by (rule autoPlantEmptyLands_phase)
    have lo: "k < 6 \<Longrightarrow> issued_at k tr = issued_at k t_pre" for k
      unfolding sh using issued_at_outside [OF b4, of k] by (simp add: issued_at_append)
    have hi: "5 < k \<Longrightarrow> issued_at k tr = issued_at k t4" for k
      unfolding sh using issued_at_outside [OF pre, of k] by (simp add: issued_at_append)
    have fhi: "5 < k \<Longrightarrow> fulfilled_at k tr = fulfilled_at k t4" for k
      unfolding sh using fulfilled_at_outside [OF pre, of k] by (simp add: fulfilled_at_append)
    have d0: "issued_at 0 tr = [AllLands]" using lo [of 0] s0 by simp
    have d1: "issued_at 1 tr = batch_calls status" using lo [of 1] s1 by simp
    have d2: "issued_at 2 tr = []" using lo [of 2] s2 by simp
    have d3: "issued_at 3 tr =
        (if harvestable status = [] then [] else [Harvest (harvestable status)])"
      using lo [of 3] s3 by simp
    have d4: "issued_at 4 tr =
              (if autoExpandLand cfg
               then map UnlockLand
                      (filter (retry_allowed (unlockRetryCooldown s) (date_unlock_now e))
                         (eligibleForUnlock status))
               else [])"
      using lo [of 4] s4 by simp
    have d5: "issued_at 5 tr =
              (if autoUpgradeRedLand cfg
               then map UpgradeLand
                      (filter (\<lambda>i. i \<in> set (harvested_in tr)
                                 \<or> retry_allowed (upgradeRetryCooldown s) (date_upgrade_now e) i)
                         (eligibleForUpgrade status))
               else [])"
      using lo [of 5] s5 by simp
    have fbn: "fb = fst (findBestSeed cfg e (user s) (Some n))"
      by (simp add: fb n_def)
    have empty: "t4 = []" if "seeding @ removal = []"
      using that by (simp add: t4_def autoPlantEmptyLands_calls_nothing)
    have d67: "issued_at 6 tr = (if removal = [] then [] else [RemovePlant removal])
        \<and> issued_at 7 tr = (if seeding @ removal = [] then [] else [ShopInfo SEED_SHOP_ID])"
    proof (cases "seeding @ removal = []")
      case True
      then show ?thesis using empty by (simp add: hi issued_at_Nil)
    next
      case False
      show ?thesis
      proof (cases fb)
        case Thrown
        then show ?thesis
          using autoPlantEmptyLands_calls_no_seed [OF _ False t4_def] fbn False
          by (simp add: hi)
      next
        case (Returned r)
        show ?thesis
        proof (cases r)
          case None
          then show ?thesis
            using autoPlantEmptyLands_calls_no_seed [OF _ False t4_def] fbn False Returned
            by (simp add: hi)
        next
          case (Some sd')
          have f: "fst (findBestSeed cfg e (user s) (Some n)) = Returned (Some sd')"
            using fbn Returned Some by simp
          show ?thesis
            using autoPlantEmptyLands_calls_seed [OF f refl False refl refl t4_def] False
            by (simp add: hi)
        qed
      qed
    qed
    have d8: "issued_at 8 tr = [] \<and> issued_at 9 tr = [] \<and> issued_at 10 tr = []"
      if "fb = Thrown \<or> fb = Returned None"
    proof (cases "seeding @ removal = []")
      case True
      then show ?thesis using empty by (simp add: hi issued_at_Nil)
    next
      case False
      show ?thesis
        using autoPlantEmptyLands_calls_no_seed [OF _ False t4_def] fbn that
        by (simp add: hi)
    qed
    have d9: "issued_at 8 tr = (if B = [] then [] else [c])
                 \<and> issued_at 9 tr =
                     (if B \<noteq> [] \<and> reply_ok e c 0
                      then map (Plant (received_seed e seed)) B else [])
                 \<and> issued_at 10 tr =
                     (if B \<noteq> [] \<and> reply_ok e c 0
                      then map (\<lambda>i. Fertilize i NORMAL_FERTILIZER_ID)
                             (take (Suc (fulfilled_at 10 tr)) (take (fulfilled_at 9 tr) B))
                      else [])"
      if sfb: "fb = Returned (Some seed)"
        and B: "B = (if 0 < price seed
                       then take (nat (gold (user s) div price seed)) (seeding @ removal)
                       else if price seed = 0 \<and> gold (user s) < 0 then []
                       else seeding @ removal)"
        and c: "c = BuyGoods (goodsId seed) (int (length B)) (price seed)"
    proof (cases "seeding @ removal = []")
      case True
      then have "B = []" using B by simp
      then show ?thesis using empty [OF True] by (simp add: hi issued_at_Nil)
    next
      case False
      have f: "fst (findBestSeed cfg e (user s) (Some n)) = Returned (Some seed)"
        using fbn sfb by simp
      show ?thesis
        using autoPlantEmptyLands_calls_seed [OF f refl False B c t4_def]
        by (simp add: hi fhi)
    qed
    show ?thesis
      using d0 d1 d2 d3 hv d4 d5 d67 d8 d9 by blast
  qed
  show ?thesis
    using a1 blk(2) a3 a4 by blast
qed

theorem checkFarm_call_sequence_witness:
  "\<not> isCheckingFarm example_state \<and> gid (user example_state) \<noteq> 0
   \<and> reply_ok example_env_b AllLands 0 \<and> lands_reply example_env_b = Some example_lands_b
   \<and> reply_ok example_env_d AllLands 0 \<and> lands_reply example_env_d = Some example_lands_b
   \<and> example_lands_b \<noteq> []
   \<and> fst (findBestSeed example_config_c example_env_b (user example_state)
             (Some (int (length (filter unlocked example_lands_b)))))
       = Returned (Some (example_choice 9 20002 10 1))
   \<and> fst (findBestSeed example_config_c example_env_d (user example_state)
             (Some (int (length (filter unlocked example_lands_b))))) = Thrown
   \<and> sorted (map step_rank (snd (checkFarm example_config_c example_env_b example_state)))
   \<and> mset (issued (snd (checkFarm example_config_c example_env_b example_state))) = mset (settled (snd (checkFarm example_config_c example_env_b example_state)))
   \<and> issued_at 0 (snd (checkFarm example_config_c example_env_b example_state)) = [AllLands]
   \<and> issued_at 1 (snd (checkFarm example_config_c example_env_b example_state)) = [WaterLand [4]]
   \<and> issued_at 2 (snd (checkFarm example_config_c example_env_b example_state)) = []
   \<and> issued_at 3 (snd (checkFarm example_config_c example_env_b example_state)) = [Harvest [2, 7]]
   \<and> issued_at 4 (snd (checkFarm example_config_c example_env_b example_state)) = [UnlockLand 5]
   \<and> issued_at 5 (snd (checkFarm example_config_c example_env_b example_state)) = [UpgradeLand 1, UpgradeLand 2, UpgradeLand 6]
   \<and> issued_at 6 (snd (checkFarm example_config_c example_env_b example_state)) = [RemovePlant [1, 7]]
   \<and> issued_at 7 (snd (checkFarm example_config_c example_env_b example_state)) = [ShopInfo 2]
   \<and> issued_at 8 (snd (checkFarm example_config_c example_env_b example_state)) = [BuyGoods 9 3 10]
   \<and> issued_at 9 (snd (checkFarm example_config_c example_env_b example_state)) = [Plant 20002 3, Plant 20002 1, Plant 20002 7]
   \<and> issued_at 10 (snd (checkFarm example_config_c example_env_b example_state)) = [Fertilize 3 1011, Fertilize 1 1011, Fertilize 7 1011]
   \<and> issued (snd (checkFarm example_config_c example_env_b example_state)) =
       [AllLands, WaterLand [4], Harvest [2, 7], UnlockLand 5,
        UpgradeLand 1, UpgradeLand 2, UpgradeLand 6, RemovePlant [1, 7], ShopInfo 2,
        BuyGoods 9 3 10, Plant 20002 3, Plant 20002 1, Plant 20002 7,
        Fertilize 3 1011, Fertilize 1 1011, Fertilize 7 1011]
   \<and> issued_at 6 (snd (checkFarm example_config_c example_env_d example_state)) = [RemovePlant [1, 2, 7]]
   \<and> issued_at 7 (snd (checkFarm example_config_c example_env_d example_state)) = [ShopInfo 2]
   \<and> issued_at 8 (snd (checkFarm example_config_c example_env_d example_state)) = [] \<and> issued_at 9 (snd (checkFarm example_config_c example_env_d example_state)) = [] \<and> issued_at 10 (snd (checkFarm example_config_c example_env_d example_state)) = []"
proof -
  let ?tr = "snd (checkFarm example_config_c example_env_b example_state)"
  let ?td = "snd (checkFarm example_config_c example_env_d example_state)"
  let ?status = "\<lparr>harvestable = [2, 7], needWater = [4], needWeed = [], needBug = [],
      growing = [4], empty_lands = [3, 6], dead = [1],
      harvestableInfo = [(2, 1020002), (7, 1020002)],
      eligibleForUnlock = [5], eligibleForUpgrade = [1, 2, 6]\<rparr>"
  have run: "\<not> isCheckingFarm example_state" "gid (user example_state) \<noteq> 0"
    "reply_ok example_env_b AllLands 0" "lands_reply example_env_b = Some example_lands_b"
    "reply_ok example_env_d AllLands 0" "lands_reply example_env_d = Some example_lands_b"
    "example_lands_b \<noteq> []"
    by (simp_all add: example_state_def example_env_b_def example_env_d_def example_lands_b_def)
  have st: "analyzeLands example_config_c (env_clock example_env_b) (date_analyze example_env_b)
      (date_phase example_env_b) example_lands_b = ?status"
    "analyzeLands example_config_c (env_clock example_env_d) (date_analyze example_env_d)
      (date_phase example_env_d) example_lands_b = ?status"
    using analyzeLands_example_b
    by (simp_all add: example_env_b_def example_env_d_def example_env_def)
  have n: "int (length (filter unlocked example_lands_b)) = 6"
    by (simp add: example_lands_b_def example_land_def)
  have fb: "fst (findBestSeed example_config_c example_env_b (user example_state) (Some 6))
       = Returned (Some (example_choice 9 20002 10 1))"
    by (simp add: findBestSeed_def select_seed_def available_example example_env_b_def
        example_env_def example_state_def example_config_c_def example_config_def
        example_choice_def example_seed_def example_goods_def toNum_def Let_def)
  have fd: "fst (findBestSeed example_config_c example_env_d (user example_state) (Some 6))
       = Thrown"
    by (simp add: findBestSeed_def example_env_d_def example_env_def Let_def)
  have obs: "harvested_in ?tr = [2, 7]" "failed_upgrades_in ?tr = [1, 2]"
    "fulfilled_at 9 ?tr = 3" "fulfilled_at 10 ?tr = 3"
    "harvested_in ?td = [2, 7]" "failed_upgrades_in ?td = []"
    by (simp_all add: checkFarm_example_b checkFarm_example_d harvested_in_def harvested_of_def
        failed_upgrades_in_def failed_upgrade_of_def fulfilled_at_def)
  have vals: "autoExpandLand example_config_c" "autoUpgradeRedLand example_config_c"
    "unlockRetryCooldown example_state = Map.empty"
    "upgradeRetryCooldown example_state = Map.empty"
    "gold (user example_state) = 1000"
    "price (example_choice 9 20002 10 1) = 10" "goodsId (example_choice 9 20002 10 1) = 9"
    "received_seed example_env_b (example_choice 9 20002 10 1) = 20002"
    "reply_ok example_env_b (BuyGoods 9 3 10) 0"
    "reply_ok example_env_b (Harvest [2, 7]) 0"
    by (simp_all add: example_config_c_def example_state_def example_choice_def
        received_seed_def example_env_b_def example_env_def)
  note t = checkFarm_call_sequence [OF refl, where cfg = example_config_c
      and e = example_env_b and s = example_state and lands = example_lands_b
      and status = ?status and removal = "[1, 7]" and seeding = "[3]"
      and fb = "Returned (Some (example_choice 9 20002 10 1))"
      and seed = "example_choice 9 20002 10 1" and B = "[3, 1, 7]" and c = "BuyGoods 9 3 10"]
  have hyp: "\<not> isCheckingFarm example_state \<and> gid (user example_state) \<noteq> 0
        \<and> reply_ok example_env_b AllLands 0
        \<and> lands_reply example_env_b = Some example_lands_b \<and> example_lands_b \<noteq> []
        \<and> ?status = analyzeLands example_config_c (env_clock example_env_b)
                      (date_analyze example_env_b) (date_phase example_env_b) example_lands_b
        \<and> [1, 7] = dead ?status
                     @ filter (\<lambda>i. i \<notin> set (failed_upgrades_in ?tr)) (harvested_in ?tr)
        \<and> [3] = filter (\<lambda>i. i \<notin> set (eligibleForUpgrade ?status)) (empty_lands ?status)
        \<and> Returned (Some (example_choice 9 20002 10 1))
            = fst (findBestSeed example_config_c example_env_b (user example_state)
                     (Some (int (length (filter unlocked example_lands_b)))))"
    by (simp add: run st n fb obs)
  note r0 = mp [OF conjunct2 [OF conjunct2 [OF conjunct2 [OF t]]] hyp]
  note i0 = conjunct1 [OF r0] and r1 = conjunct2 [OF r0]
  note i1 = conjunct1 [OF r1] and r2 = conjunct2 [OF r1]
  note i2 = conjunct1 [OF r2] and r3 = conjunct2 [OF r2]
  note i3 = conjunct1 [OF r3] and r4 = conjunct2 [OF r3]
  note r5 = conjunct2 [OF r4]
  note i4 = conjunct1 [OF r5] and r6 = conjunct2 [OF r5]
  note i5 = conjunct1 [OF r6] and r7 = conjunct2 [OF r6]
  note i6 = conjunct1 [OF r7] and r8 = conjunct2 [OF r7]
  note i7 = conjunct1 [OF r8] and r9 = conjunct2 [OF r8]
  have hseed: "Returned (Some (example_choice 9 20002 10 1))
          = Returned (Some (example_choice 9 20002 10 1))
       \<and> [3, 1, 7] = (if 0 < price (example_choice 9 20002 10 1)
                       then take (nat (gold (user example_state)
                              div price (example_choice 9 20002 10 1))) ([3] @ [1, 7])
                       else if price (example_choice 9 20002 10 1) = 0
                               \<and> gold (user example_state) < 0 then []
                       else [3] @ [1, 7])
       \<and> BuyGoods 9 3 10 = BuyGoods (goodsId (example_choice 9 20002 10 1))
                               (int (length [3, 1, 7])) (price (example_choice 9 20002 10 1))"
    by (simp add: vals)
  note b0 = mp [OF conjunct2 [OF r9] hseed]
  note i8 = conjunct1 [OF b0] and b1 = conjunct2 [OF b0]
  note i9 = conjunct1 [OF b1] and i10 = conjunct2 [OF b1]
  have c1: "sorted (map step_rank ?tr)" "mset (issued ?tr) = mset (settled ?tr)"
    by (rule conjunct1 [OF t], rule conjunct1 [OF conjunct2 [OF t]])
  have e0: "issued_at 0 ?tr = [AllLands]" by (rule i0)
  have e1: "issued_at 1 ?tr = [WaterLand [4]]" using i1 by (simp add: batch_calls_def)
  have e2: "issued_at 2 ?tr = []" by (rule i2)
  have e3: "issued_at 3 ?tr = [Harvest [2, 7]]" using i3 by simp
  have e4: "issued_at 4 ?tr = [UnlockLand 5]" using i4 by (simp add: vals retry_allowed_def)
  have e5: "issued_at 5 ?tr = [UpgradeLand 1, UpgradeLand 2, UpgradeLand 6]"
    using i5 by (simp add: vals retry_allowed_def)
  have e6: "issued_at 6 ?tr = [RemovePlant [1, 7]]" using i6 by simp
  have e7: "issued_at 7 ?tr = [ShopInfo 2]" using i7 by (simp add: SEED_SHOP_ID_def)
  have e8: "issued_at 8 ?tr = [BuyGoods 9 3 10]" using i8 by simp
  have e9: "issued_at 9 ?tr = [Plant 20002 3, Plant 20002 1, Plant 20002 7]"
    using i9 by (simp add: vals)
  have e10: "issued_at 10 ?tr = [Fertilize 3 1011, Fertilize 1 1011, Fertilize 7 1011]"
    using i10 by (simp add: vals obs NORMAL_FERTILIZER_ID_def)
  have c3: "issued ?tr =
       [AllLands, WaterLand [4], Harvest [2, 7], UnlockLand 5,
        UpgradeLand 1, UpgradeLand 2, UpgradeLand 6, RemovePlant [1, 7], ShopInfo 2,
        BuyGoods 9 3 10, Plant 20002 3, Plant 20002 1, Plant 20002 7,
        Fertilize 3 1011, Fertilize 1 1011, Fertilize 7 1011]"
    using conjunct1 [OF conjunct2 [OF conjunct2 [OF t]], unfolded upt_eleven]
    by (simp add: e0 e1 [unfolded One_nat_def] e2 e3 e4 e5 e6 e7 e8 e9 e10)
  note d = checkFarm_call_sequence [OF refl, where cfg = example_config_c
      and e = example_env_d and s = example_state and lands = example_lands_b
      and status = ?status and removal = "[1, 2, 7]" and seeding = "[3]"
      and fb = Thrown]
  have hypd: "\<not> isCheckingFarm example_state \<and> gid (user example_state) \<noteq> 0
        \<and> reply_ok example_env_d AllLands 0
        \<and> lands_reply example_env_d = Some example_lands_b \<and> example_lands_b \<noteq> []
        \<and> ?status = analyzeLands example_config_c (env_clock example_env_d)
                      (date_analyze example_env_d) (date_phase example_env_d) example_lands_b
        \<and> [1, 2, 7] = dead ?status
                     @ filter (\<lambda>i. i \<notin> set (failed_upgrades_in ?td)) (harvested_in ?td)
        \<and> [3] = filter (\<lambda>i. i \<notin> set (eligibleForUpgrade ?status)) (empty_lands ?status)
        \<and> Thrown
            = fst (findBestSeed example_config_c example_env_d (user example_state)
                     (Some (int (length (filter unlocked example_lands_b)))))"
    by (simp add: run st n fd obs)
  note q0 = mp [OF conjunct2 [OF conjunct2 [OF conjunct2 [OF d]]] hypd]
  note q7 = conjunct2 [OF conjunct2 [OF conjunct2 [OF conjunct2 [OF conjunct2
              [OF conjunct2 [OF conjunct2 [OF q0]]]]]]]
  note j6 = conjunct1 [OF q7] and q8 = conjunct2 [OF q7]
  note j7 = conjunct1 [OF q8] and q9 = conjunct2 [OF q8]
  have c4: "issued_at 6 ?td = [RemovePlant [1, 2, 7]]
   \<and> issued_at 7 ?td = [ShopInfo 2]
   \<and> issued_at 8 ?td = [] \<and> issued_at 9 ?td = [] \<and> issued_at 10 ?td = []"
    using j6 j7 conjunct1 [OF q9] by (simp add: SEED_SHOP_ID_def)
  show ?thesis
    by (intro conjI run c1 e0 e1 e2 e3 e4 e5 e6 e7 e8 e9 e10 c3
          conjunct1 [OF c4] conjunct1 [OF conjunct2 [OF c4]])
       (simp_all add: n fb fd c4)
qed

lemma Issue_in_step:
  "Issue c \<in> set t \<longleftrightarrow> c \<in> set (issued_at (step_rank (Issue c)) t)"
  by (induction t rule: issued.induct) (auto simp: issued_at_def)

lemma autoPlantEmptyLands_head:
  assumes "t = snd (autoPlantEmptyLands cfg e st deadL emptyL n)"
  shows "issued_at 6 t = (if deadL = [] then [] else [RemovePlant deadL])"
proof (cases "emptyL @ deadL = []")
  case True
  then show ?thesis
    using assms by (simp add: autoPlantEmptyLands_calls_nothing issued_at_Nil)
next
  case False
  show ?thesis
  proof (cases "fst (findBestSeed cfg e st (Some n))")
    case Thrown
    then show ?thesis
      using autoPlantEmptyLands_calls_no_seed [OF _ False assms] by simp
  next
    case (Returned r)
    show ?thesis
    proof (cases r)
      case None
      then show ?thesis
        using autoPlantEmptyLands_calls_no_seed [OF _ False assms] Returned by simp
    next
      case (Some sd)
      have f: "fst (findBestSeed cfg e st (Some n)) = Returned (Some sd)"
        using Returned Some by simp
      show ?thesis
        using autoPlantEmptyLands_calls_seed [OF f refl False refl refl assms] by simp
    qed
  qed
qed

lemma affordable_all:
  assumes "0 < p" and "p * int m \<le> g" and "length L \<le> m"
  shows "take (nat (g div p)) L = L"
proof -
  have "int (length L) * p \<le> int m * p"
    using assms(1,3) by (simp add: mult_right_mono)
  then have "int (length L) * p \<le> g"
    using assms(2) by (simp add: mult.commute)
  then have "(int (length L) * p) div p \<le> g div p"
    using assms(1) by (rule zdiv_mono1)
  then have "int (length L) \<le> g div p"
    using assms(1) by simp
  then have "length L \<le> nat (g div p)" by linarith
  then show ?thesis by simp
qed

end
